theory Spec2Isabelle
  imports Main "HOL-Library.Char_ord" "HOL-Library.List_Lexorder" "HOL-Library.Multiset"
begin

section \<open>Errors\<close>

text \<open>
  The package-level error values of \<^verbatim>\<open>package worker\<close>, garden's
  \<^verbatim>\<open>ContainerNotFoundError\<close> (the only error the provisioner inspects by type),
  and every other error of a collaborator, kept opaque under \<open>OtherError\<close>.
\<close>

datatype error =
    ErrUnsupportedResourceType
  | ErrIncompatiblePlatform
  | ErrMismatchedTags
  | ErrTeamMismatch
  | ErrNotImplemented
  | ContainerNotFoundError string
  | OtherError string

section \<open>Worker compatibility matcher\<close>

text \<open>
  \<open>atc.WorkerResourceType\<close> and the catalog entries \<open>creds.VersionedResourceType\<close>,
  reduced to the fields the matcher reads. The record \<open>dbWorker\<close> holds what the
  \<^verbatim>\<open>db.Worker\<close> getters return; \<open>w_Version\<close> is \<^verbatim>\<open>*string\<close>, so \<open>None\<close> is nil.
\<close>

record WorkerResourceType =
  wrt_Type :: string
  wrt_Image :: string

record VersionedResourceType =
  vrt_Name :: string
  vrt_Type :: string

record dbWorker =
  w_Name :: string
  w_TeamID :: int
  w_Platform :: string
  w_Tags :: "string list"
  w_ResourceTypes :: "WorkerResourceType list"
  w_Version :: "string option"

record gardenWorker =
  dbWorker :: dbWorker
  buildContainers :: int

record WorkerSpec =
  spec_Platform :: string
  spec_ResourceType :: string
  spec_Tags :: "string list"
  spec_TeamID :: int
  spec_ResourceTypes :: "VersionedResourceType list"

text \<open>
  \<^verbatim>\<open>tagsMatch\<close>: the inner loop looks for the spec tag among the worker's tags
  (\<^verbatim>\<open>continue insert_coin\<close> on a hit), the outer loop returns false at the first spec
  tag that was not found. The guard in front rejects a spec without tags on a tagged worker.
\<close>

fun tagsMatch_inner :: "string \<Rightarrow> string list \<Rightarrow> bool" where
  "tagsMatch_inner stag [] = False"
| "tagsMatch_inner stag (wtag # workerTags) =
     (if stag = wtag then True else tagsMatch_inner stag workerTags)"

fun tagsMatch_outer :: "string list \<Rightarrow> string list \<Rightarrow> bool" where
  "tagsMatch_outer [] workerTags = True"
| "tagsMatch_outer (stag # tags) workerTags =
     (if tagsMatch_inner stag workerTags then tagsMatch_outer tags workerTags else False)"

definition tagsMatch :: "gardenWorker \<Rightarrow> string list \<Rightarrow> bool" where
  "tagsMatch worker tags =
     (let workerTags = w_Tags (dbWorker worker)
      in if length workerTags > 0 \<and> length tags = 0 then False
         else tagsMatch_outer tags workerTags)"

text \<open>
  \<^verbatim>\<open>determineUnderlyingTypeName\<close>. The Go map is a partial function; a later catalog
  entry with the same name overwrites an earlier one. The loop state is the current name,
  the result of the last lookup (\<open>None\<close> when \<^verbatim>\<open>ok\<close> is false) and the map. Nothing in
  the shape of the loop bounds its iterations, so it is defined as a partial function:
  \<open>None\<close> would be a run that never returns.
\<close>

fun resourceTypesMap ::
  "VersionedResourceType list \<Rightarrow> (string \<rightharpoonup> VersionedResourceType)
     \<Rightarrow> (string \<rightharpoonup> VersionedResourceType)" where
  "resourceTypesMap [] m = m"
| "resourceTypesMap (resourceType # rest) m =
     resourceTypesMap rest (m(vrt_Name resourceType \<mapsto> resourceType))"

partial_function (option) underlyingTypeLoop ::
  "string \<Rightarrow> VersionedResourceType option \<Rightarrow> (string \<rightharpoonup> VersionedResourceType)
     \<Rightarrow> string option" where
  "underlyingTypeLoop underlyingTypeName underlyingType m =
     (case underlyingType of
        None \<Rightarrow> Some underlyingTypeName
      | Some t \<Rightarrow>
          underlyingTypeLoop (vrt_Type t) (m (vrt_Type t)) (m(vrt_Type t := None)))"

definition determineUnderlyingTypeName ::
  "string \<Rightarrow> VersionedResourceType list \<Rightarrow> string option" where
  "determineUnderlyingTypeName typeName resourceTypes =
     (let m = resourceTypesMap resourceTypes Map.empty
      in underlyingTypeLoop typeName (m typeName) m)"

text \<open>The search of \<^verbatim>\<open>Satisfying\<close> for a worker resource type of the underlying type.\<close>

fun matchedType :: "string \<Rightarrow> WorkerResourceType list \<Rightarrow> bool" where
  "matchedType underlyingType [] = False"
| "matchedType underlyingType (t # ts) =
     (if wrt_Type t = underlyingType then True else matchedType underlyingType ts)"

text \<open>
  \<^verbatim>\<open>Satisfying\<close> returns the worker itself or one of the four selection errors. The outer
  \<open>option\<close> is inherited from the resolution loop: \<open>None\<close> is a matcher that hangs.
\<close>

definition Satisfying :: "gardenWorker \<Rightarrow> WorkerSpec \<Rightarrow> (error + gardenWorker) option" where
  "Satisfying worker spec =
     (let workerTeamID = w_TeamID (dbWorker worker);
          workerResourceTypes = w_ResourceTypes (dbWorker worker)
      in if spec_TeamID spec \<noteq> workerTeamID \<and> workerTeamID \<noteq> 0 then Some (Inl ErrTeamMismatch)
         else
           (case (if spec_ResourceType spec \<noteq> ''''
                  then map_option (\<lambda>underlyingType. matchedType underlyingType workerResourceTypes)
                         (determineUnderlyingTypeName (spec_ResourceType spec) (spec_ResourceTypes spec))
                  else Some True) of
              None \<Rightarrow> None
            | Some matched \<Rightarrow>
                if \<not> matched then Some (Inl ErrUnsupportedResourceType)
                else if spec_Platform spec \<noteq> '''' \<and> spec_Platform spec \<noteq> w_Platform (dbWorker worker)
                  then Some (Inl ErrIncompatiblePlatform)
                else if \<not> tagsMatch worker (spec_Tags spec) then Some (Inl ErrMismatchedTags)
                else Some (Inr worker)))"

section \<open>Version compatibility\<close>

text \<open>
  \<^verbatim>\<open>IsVersionCompatible\<close> works on the types of the third-party package
  \<^verbatim>\<open>go-semi-semantic/version\<close>, which is not part of the repository: a version has a
  release, a pre-release and a post-release segment, a segment is a list of components, and a
  component is an integer or a string.

  A component's \<^verbatim>\<open>Compare\<close> method asserts that its argument has the receiver's own
  type (\<^verbatim>\<open>other.(VerSegCompInt)\<close>, \<^verbatim>\<open>other.(VerSegCompStr)\<close>) and panics with an
  interface-conversion error when it has not; on components of the same kind it is the
  three-way comparison of the integers or of the strings. The panics of the Go code are the
  left summand of the results.
\<close>

datatype VerSegComp = VerSegCompInt int | VerSegCompStr string

fun isInt :: "VerSegComp \<Rightarrow> bool" where
  "isInt (VerSegCompInt i) = True"
| "isInt (VerSegCompStr s) = False"

record VersionSegment =
  Components :: "VerSegComp list"

record Version =
  Release :: VersionSegment
  PreRelease :: VersionSegment
  PostRelease :: VersionSegment

datatype panic = IndexOutOfRange | InterfaceConversion

fun VerSegComp_Compare :: "VerSegComp \<Rightarrow> VerSegComp \<Rightarrow> panic + int" where
  "VerSegComp_Compare (VerSegCompInt i) (VerSegCompInt j) =
     Inr (if i < j then - 1 else if i = j then 0 else 1)"
| "VerSegComp_Compare (VerSegCompInt i) (VerSegCompStr t) = Inl InterfaceConversion"
| "VerSegComp_Compare (VerSegCompStr s) (VerSegCompStr t) =
     Inr (if s < t then - 1 else if s = t then 0 else 1)"
| "VerSegComp_Compare (VerSegCompStr s) (VerSegCompInt j) = Inl InterfaceConversion"

text \<open>
  The segment's \<^verbatim>\<open>compareArrays\<close> walks two slices of the same length. It settles a
  string against an integer itself (the string is the greater) and calls \<^verbatim>\<open>Compare\<close>
  only on two components of the same kind.
\<close>

fun compareArrays :: "VerSegComp list \<Rightarrow> VerSegComp list \<Rightarrow> panic + int" where
  "compareArrays (VerSegCompStr s # a) (VerSegCompInt j # b) = Inr 1"
| "compareArrays (VerSegCompInt i # a) (VerSegCompStr t # b) = Inr (- 1)"
| "compareArrays (v1 # a) (v2 # b) =
     (case VerSegComp_Compare v1 v2 of
        Inl p \<Rightarrow> Inl p
      | Inr comparison \<Rightarrow> if comparison \<noteq> 0 then Inr comparison else compareArrays a b)"
| "compareArrays a b = Inr 0"

fun isAllZeros :: "VerSegComp list \<Rightarrow> bool" where
  "isAllZeros [] = True"
| "isAllZeros (VerSegCompInt i # a) = (if i \<noteq> 0 then False else isAllZeros a)"
| "isAllZeros (VerSegCompStr s # a) = False"

text \<open>
  \<^verbatim>\<open>VersionSegment.Compare\<close>: the common prefix decides; when it is equal, the longer
  segment is the greater unless its extra components are all the integer zero.
\<close>

definition VersionSegment_Compare :: "VersionSegment \<Rightarrow> VersionSegment \<Rightarrow> panic + int" where
  "VersionSegment_Compare s other =
     (let a = Components s; b = Components other
      in if length a > length b then
           (case compareArrays (take (length b) a) b of
              Inl p \<Rightarrow> Inl p
            | Inr comparison \<Rightarrow>
                if comparison \<noteq> 0 then Inr comparison
                else if \<not> isAllZeros (drop (length b) a) then Inr 1 else Inr 0)
         else if length a < length b then
           (case compareArrays a (take (length a) b) of
              Inl p \<Rightarrow> Inl p
            | Inr comparison \<Rightarrow>
                if comparison \<noteq> 0 then Inr comparison
                else if \<not> isAllZeros (drop (length a) b) then Inr (- 1) else Inr 0)
         else compareArrays a b)"

text \<open>
  \<^verbatim>\<open>IsVersionCompatible\<close>. The parser \<^verbatim>\<open>version.NewVersionFromString\<close> is a
  parameter: the method only asks whether it failed. In the \<^verbatim>\<open>default\<close> branch of the
  switch, indexing \<^verbatim>\<open>Components[0]\<close> panics on an empty slice, which the zero
  \<^verbatim>\<open>version.Version\<close> has, and \<^verbatim>\<open>Components[0].Compare\<close> is called on the two
  leading components directly, so it panics when one is a string and the other an integer.
\<close>

definition IsVersionCompatible ::
  "(string \<Rightarrow> error + Version) \<Rightarrow> gardenWorker \<Rightarrow> Version \<Rightarrow> panic + bool" where
  "IsVersionCompatible NewVersionFromString worker comparedVersion =
     (case w_Version (dbWorker worker) of
        None \<Rightarrow> Inr False
      | Some workerVersion \<Rightarrow>
          (case NewVersionFromString workerVersion of
             Inl err \<Rightarrow> Inr False
           | Inr v \<Rightarrow>
               (case VersionSegment_Compare (Release v) (Release comparedVersion) of
                  Inl p \<Rightarrow> Inl p
                | Inr c \<Rightarrow>
                    if c = 0 then Inr True
                    else if c = - 1 then Inr False
                    else
                      (case Components (Release v) of
                         [] \<Rightarrow> Inl IndexOutOfRange
                       | v0 # _ \<Rightarrow>
                           (case Components (Release comparedVersion) of
                              [] \<Rightarrow> Inl IndexOutOfRange
                            | c0 # _ \<Rightarrow>
                                (case VerSegComp_Compare v0 c0 of
                                   Inl p \<Rightarrow> Inl p
                                 | Inr c1 \<Rightarrow> if c1 = 0 then Inr True else Inr False))))))"

section \<open>Paths\<close>

fun splitSlash :: "string \<Rightarrow> string list" where
  "splitSlash [] = [[]]"
| "splitSlash (c # cs) =
     (if c = CHR ''/'' then [] # splitSlash cs
      else (case splitSlash cs of [] \<Rightarrow> [[c]] | e # es \<Rightarrow> (c # e) # es))"

fun cleanElements :: "bool \<Rightarrow> string list \<Rightarrow> string list \<Rightarrow> string list" where
  "cleanElements rooted out [] = out"
| "cleanElements rooted out (e # es) =
     (if e = '''' \<or> e = ''.'' then cleanElements rooted out es
      else if e = ''..'' then
        (if out \<noteq> [] \<and> last out \<noteq> ''..'' then cleanElements rooted (butlast out) es
         else if \<not> rooted then cleanElements rooted (out @ [''..'']) es
         else cleanElements rooted out es)
      else cleanElements rooted (out @ [e]) es)"

fun joinSlash :: "string list \<Rightarrow> string" where
  "joinSlash [] = []"
| "joinSlash [e] = e"
| "joinSlash (e # es) = e @ ''/'' @ joinSlash es"

definition Clean :: "string \<Rightarrow> string" where
  "Clean path =
     (if path = '''' then ''.''
      else
        (let rooted = (hd path = CHR ''/'');
             out = (if rooted then ''/'' else '''') @ joinSlash (cleanElements rooted [] (splitSlash path))
         in if out = '''' then ''.'' else out))"


section \<open>Container provisioning: data\<close>

type_synonym ContainerOwner = nat
type_synonym ContainerMetadata = string
type_synonym ArtifactSource = nat
type_synonym BindMountSource = nat

record CreatingContainer =
  cc_ID :: int
  cc_Handle :: string

record CreatedContainer =
  cdc_ID :: int
  cdc_Handle :: string

record gardenContainer =
  gc_Handle :: string

record Volume =
  vol_Handle :: string
  vol_Path :: string
  vol_WorkerName :: string

datatype Strategy = EmptyStrategy | COWStrategy Volume

record VolumeSpec =
  vs_Strategy :: Strategy
  vs_Privileged :: bool

record VolumeMount =
  vm_Volume :: Volume
  vm_MountPath :: string

datatype BindMountMode = BindMountModeRO | BindMountModeRW

record BindMount =
  bm_SrcPath :: string
  bm_DstPath :: string
  bm_Mode :: BindMountMode

record InputSource =
  in_Source :: ArtifactSource
  in_DestinationPath :: string

record ContainerLimits =
  lim_CPU :: "nat option"
  lim_Memory :: "nat option"

record ContainerSpec =
  cs_TeamID :: int
  cs_Dir :: string
  cs_Inputs :: "InputSource list"
  cs_Outputs :: "(string \<times> string) list"
  cs_BindMounts :: "BindMountSource list"
  cs_Limits :: ContainerLimits
  cs_Env :: "string list"
  cs_User :: string

record ImageMetadata =
  im_Env :: "string list"
  im_User :: string

record FetchedImage =
  fi_Metadata :: ImageMetadata
  fi_URL :: string
  fi_Privileged :: bool

record GardenContainerSpec =
  gs_Handle :: string
  gs_RootFSPath :: string
  gs_Privileged :: bool
  gs_BindMounts :: "BindMount list"
  gs_Limits :: ContainerLimits
  gs_Env :: "string list"
  gs_Properties :: "(string \<times> string) list"

record Container =
  wc_gardenContainer :: "gardenContainer option"
  wc_dbContainer :: CreatedContainer
  wc_dbVolumes :: "string list"
  wc_workerName :: string

datatype LockID = ContainerCreatingLockID int

definition NewContainerCreatingLockID :: "int \<Rightarrow> LockID" where
  "NewContainerCreatingLockID containerID = ContainerCreatingLockID containerID"

record containerProvider =
  p_worker :: dbWorker
  p_httpProxyURL :: string
  p_httpsProxyURL :: string
  p_noProxy :: string

definition Second :: int where
  "Second = 1000000000"

definition creatingContainerRetryDelay :: int where
  "creatingContainerRetryDelay = 1 * Second"

definition userPropertyName :: string where
  "userPropertyName = ''user''"

datatype event =
    EvFindContainerOnWorker ContainerOwner
      "error + (CreatingContainer option \<times> CreatedContainer option)"
  | EvCreateContainer ContainerOwner ContainerMetadata "error + CreatingContainer"
  | EvLookup string "gardenContainer option \<times> error option"
  | EvAcquire LockID "error + bool"
  | EvSleep int
  | EvRelease LockID
  | EvFetchForContainer CreatingContainer "error + FetchedImage"
  | EvFailed CreatingContainer "error option"
  | EvFailedContainersInc
  | EvContainersCreatedInc
  | EvCreated CreatingContainer "error + CreatedContainer"
  | EvDestroy string "error option"
  | EvFindVolumesForContainer CreatedContainer "error + string list"
  | EvNewGardenWorkerContainer "gardenContainer option" CreatedContainer "string list" string
      "Container option \<times> error option"
  | EvFindOrCreateVolumeForContainer VolumeSpec CreatingContainer int string "error + Volume"
  | EvFindOrCreateCOWVolumeForContainer VolumeSpec CreatingContainer Volume int string
      "error + Volume"
  | EvVolumeOn ArtifactSource "error + Volume option"
  | EvStreamTo ArtifactSource Volume "error option"
  | EvBindMountVolumeOn BindMountSource "error + BindMount option"
  | EvCreate GardenContainerSpec "gardenContainer option \<times> error option"

record collaborators =
  FindContainerOnWorker ::
    "event list \<Rightarrow> ContainerOwner \<Rightarrow> error + (CreatingContainer option \<times> CreatedContainer option)"
  CreateContainer ::
    "event list \<Rightarrow> ContainerOwner \<Rightarrow> ContainerMetadata \<Rightarrow> error + CreatingContainer"
  Lookup :: "event list \<Rightarrow> string \<Rightarrow> gardenContainer option \<times> error option"
  Acquire :: "event list \<Rightarrow> LockID \<Rightarrow> error + bool"
  FetchForContainer :: "event list \<Rightarrow> CreatingContainer \<Rightarrow> error + FetchedImage"
  Failed :: "event list \<Rightarrow> CreatingContainer \<Rightarrow> error option"
  Created :: "event list \<Rightarrow> CreatingContainer \<Rightarrow> error + CreatedContainer"
  Destroy :: "event list \<Rightarrow> string \<Rightarrow> error option"
  FindVolumesForContainer :: "event list \<Rightarrow> CreatedContainer \<Rightarrow> error + string list"
  newGardenWorkerContainer ::
    "event list \<Rightarrow> gardenContainer option \<Rightarrow> CreatedContainer \<Rightarrow> string list \<Rightarrow> string
       \<Rightarrow> Container option \<times> error option"
  FindOrCreateVolumeForContainer ::
    "event list \<Rightarrow> VolumeSpec \<Rightarrow> CreatingContainer \<Rightarrow> int \<Rightarrow> string \<Rightarrow> error + Volume"
  FindOrCreateCOWVolumeForContainer ::
    "event list \<Rightarrow> VolumeSpec \<Rightarrow> CreatingContainer \<Rightarrow> Volume \<Rightarrow> int \<Rightarrow> string
       \<Rightarrow> error + Volume"
  VolumeOn :: "event list \<Rightarrow> ArtifactSource \<Rightarrow> error + Volume option"
  StreamTo :: "event list \<Rightarrow> ArtifactSource \<Rightarrow> Volume \<Rightarrow> error option"
  BindMountVolumeOn :: "event list \<Rightarrow> BindMountSource \<Rightarrow> error + BindMount option"
  Create :: "event list \<Rightarrow> GardenContainerSpec \<Rightarrow> gardenContainer option \<times> error option"

section \<open>Container provisioning: operations\<close>

definition constructGardenWorkerContainer ::
  "collaborators \<Rightarrow> containerProvider \<Rightarrow> event list \<Rightarrow> CreatedContainer \<Rightarrow> gardenContainer option
     \<Rightarrow> (Container option \<times> error option) \<times> event list" where
  "constructGardenWorkerContainer env p h createdContainer gardenContainer =
     (let r1 = FindVolumesForContainer env h createdContainer;
          h1 = h @ [EvFindVolumesForContainer createdContainer r1]
      in case r1 of
           Inl err \<Rightarrow> ((None, Some err), h1)
         | Inr createdVolumes \<Rightarrow>
             (let r2 = newGardenWorkerContainer env h1 gardenContainer createdContainer
                         createdVolumes (w_Name (p_worker p))
              in (r2, h1 @ [EvNewGardenWorkerContainer gardenContainer createdContainer
                              createdVolumes (w_Name (p_worker p)) r2])))"

fun getDestinationPathsFromInputs :: "InputSource list \<Rightarrow> string list" where
  "getDestinationPathsFromInputs [] = []"
| "getDestinationPathsFromInputs (input # inputs) =
     in_DestinationPath input # getDestinationPathsFromInputs inputs"

fun getDestinationPathsFromOutputs :: "(string \<times> string) list \<Rightarrow> string list" where
  "getDestinationPathsFromOutputs [] = []"
| "getDestinationPathsFromOutputs ((name, destinationPath) # outputs) =
     destinationPath # getDestinationPathsFromOutputs outputs"

fun anyMountTo :: "string \<Rightarrow> string list \<Rightarrow> bool" where
  "anyMountTo path [] = False"
| "anyMountTo path (destinationPath # destinationPaths) =
     (if Clean destinationPath = Clean path then True else anyMountTo path destinationPaths)"

text \<open>
  Modelled from the spec: \<^verbatim>\<open>createGardenContainer\<close> calls
  \<^verbatim>\<open>sort.Sort(byMountPath(ioVolumeMounts))\<close>, and the type \<^verbatim>\<open>byMountPath\<close> is
  declared outside the given sources; the specification has the mounts of the inputs and
  outputs sorted by destination path. \<^verbatim>\<open>sort.Sort\<close> is not stable, so the code
  fixes no order between two mounts with the same path, whereas \<^const>\<open>sort_key\<close> keeps
  them in their order of allocation. The properties below use of the sorted list only that
  it is a permutation of the mounts whose paths are in ascending order.
\<close>

definition sortByMountPath :: "VolumeMount list \<Rightarrow> VolumeMount list" where
  "sortByMountPath mounts = sort_key vm_MountPath mounts"

definition emptyVolumeSpec :: "FetchedImage \<Rightarrow> VolumeSpec" where
  "emptyVolumeSpec fetchedImage =
     \<lparr>vs_Strategy = EmptyStrategy, vs_Privileged = fi_Privileged fetchedImage\<rparr>"

definition inputVolumeFor ::
  "collaborators \<Rightarrow> event list \<Rightarrow> CreatingContainer \<Rightarrow> ContainerSpec \<Rightarrow> FetchedImage
     \<Rightarrow> InputSource \<Rightarrow> (error + Volume) \<times> event list" where
  "inputVolumeFor env h creatingContainer spec fetchedImage inputSource =
     (let r1 = VolumeOn env h (in_Source inputSource);
          h1 = h @ [EvVolumeOn (in_Source inputSource) r1]
      in case r1 of
           Inl err \<Rightarrow> (Inl err, h1)
         | Inr found \<Rightarrow>
             (let cleanedInputPath = Clean (in_DestinationPath inputSource)
              in case found of
                   Some localVolume \<Rightarrow>
                     (let volumeSpec = \<lparr>vs_Strategy = COWStrategy localVolume,
                                          vs_Privileged = fi_Privileged fetchedImage\<rparr>;
                          r2 = FindOrCreateCOWVolumeForContainer env h1 volumeSpec creatingContainer
                                 localVolume (cs_TeamID spec) cleanedInputPath
                      in (r2, h1 @ [EvFindOrCreateCOWVolumeForContainer volumeSpec creatingContainer
                                      localVolume (cs_TeamID spec) cleanedInputPath r2]))
                 | None \<Rightarrow>
                     (let r2 = FindOrCreateVolumeForContainer env h1 (emptyVolumeSpec fetchedImage)
                                 creatingContainer (cs_TeamID spec) cleanedInputPath;
                          h2 = h1 @ [EvFindOrCreateVolumeForContainer (emptyVolumeSpec fetchedImage)
                                       creatingContainer (cs_TeamID spec) cleanedInputPath r2]
                      in case r2 of
                           Inl err \<Rightarrow> (Inl err, h2)
                         | Inr inputVolume \<Rightarrow>
                             (let r3 = StreamTo env h2 (in_Source inputSource) inputVolume;
                                  h3 = h2 @ [EvStreamTo (in_Source inputSource) inputVolume r3]
                              in case r3 of
                                   Some err \<Rightarrow> (Inl err, h3)
                                 | None \<Rightarrow> (Inr inputVolume, h3)))))"

fun inputsLoop ::
  "collaborators \<Rightarrow> CreatingContainer \<Rightarrow> ContainerSpec \<Rightarrow> FetchedImage \<Rightarrow> InputSource list
     \<Rightarrow> VolumeMount list \<Rightarrow> (string \<Rightarrow> bool) \<Rightarrow> event list
     \<Rightarrow> (error + VolumeMount list \<times> (string \<Rightarrow> bool)) \<times> event list" where
  "inputsLoop env creatingContainer spec fetchedImage [] ioVolumeMounts inputDestinationPaths h =
     (Inr (ioVolumeMounts, inputDestinationPaths), h)"
| "inputsLoop env creatingContainer spec fetchedImage (inputSource # inputs) ioVolumeMounts
     inputDestinationPaths h =
     (case inputVolumeFor env h creatingContainer spec fetchedImage inputSource of
        (Inl err, h1) \<Rightarrow> (Inl err, h1)
      | (Inr inputVolume, h1) \<Rightarrow>
          inputsLoop env creatingContainer spec fetchedImage inputs
            (ioVolumeMounts @ [\<lparr>vm_Volume = inputVolume,
                                 vm_MountPath = Clean (in_DestinationPath inputSource)\<rparr>])
            (inputDestinationPaths(Clean (in_DestinationPath inputSource) := True)) h1)"

fun outputsLoop ::
  "collaborators \<Rightarrow> CreatingContainer \<Rightarrow> ContainerSpec \<Rightarrow> FetchedImage \<Rightarrow> (string \<times> string) list
     \<Rightarrow> VolumeMount list \<Rightarrow> (string \<Rightarrow> bool) \<Rightarrow> event list
     \<Rightarrow> (error + VolumeMount list) \<times> event list" where
  "outputsLoop env creatingContainer spec fetchedImage [] ioVolumeMounts inputDestinationPaths h =
     (Inr ioVolumeMounts, h)"
| "outputsLoop env creatingContainer spec fetchedImage ((name, outputPath) # outputs) ioVolumeMounts
     inputDestinationPaths h =
     (if inputDestinationPaths (Clean outputPath)
      then outputsLoop env creatingContainer spec fetchedImage outputs ioVolumeMounts
             inputDestinationPaths h
      else
        (let r = FindOrCreateVolumeForContainer env h (emptyVolumeSpec fetchedImage)
                   creatingContainer (cs_TeamID spec) (Clean outputPath);
             h1 = h @ [EvFindOrCreateVolumeForContainer (emptyVolumeSpec fetchedImage)
                         creatingContainer (cs_TeamID spec) (Clean outputPath) r]
         in case r of
              Inl volumeErr \<Rightarrow> (Inl volumeErr, h1)
            | Inr outVolume \<Rightarrow>
                outputsLoop env creatingContainer spec fetchedImage outputs
                  (ioVolumeMounts @ [\<lparr>vm_Volume = outVolume, vm_MountPath = Clean outputPath\<rparr>])
                  inputDestinationPaths h1))"

fun bindMountsLoop ::
  "collaborators \<Rightarrow> BindMountSource list \<Rightarrow> BindMount list \<Rightarrow> event list
     \<Rightarrow> (error + BindMount list) \<times> event list" where
  "bindMountsLoop env [] bindMounts h = (Inr bindMounts, h)"
| "bindMountsLoop env (mount # mounts) bindMounts h =
     (let r = BindMountVolumeOn env h mount;
          h1 = h @ [EvBindMountVolumeOn mount r]
      in case r of
           Inl mountErr \<Rightarrow> (Inl mountErr, h1)
         | Inr None \<Rightarrow> bindMountsLoop env mounts bindMounts h1
         | Inr (Some bindMount) \<Rightarrow> bindMountsLoop env mounts (bindMounts @ [bindMount]) h1)"

definition toBindMount :: "VolumeMount \<Rightarrow> BindMount" where
  "toBindMount mount =
     \<lparr>bm_SrcPath = vol_Path (vm_Volume mount), bm_DstPath = vm_MountPath mount,
      bm_Mode = BindMountModeRW\<rparr>"

definition containerEnv :: "containerProvider \<Rightarrow> ContainerSpec \<Rightarrow> FetchedImage \<Rightarrow> string list" where
  "containerEnv p spec fetchedImage =
     im_Env (fi_Metadata fetchedImage) @ cs_Env spec
       @ (if p_httpProxyURL p \<noteq> '''' then [''http_proxy='' @ p_httpProxyURL p] else [])
       @ (if p_httpsProxyURL p \<noteq> '''' then [''https_proxy='' @ p_httpsProxyURL p] else [])
       @ (if p_noProxy p \<noteq> '''' then [''no_proxy='' @ p_noProxy p] else [])"

definition volumeMountPlan ::
  "collaborators \<Rightarrow> event list \<Rightarrow> CreatingContainer \<Rightarrow> ContainerSpec \<Rightarrow> FetchedImage
     \<Rightarrow> (error + VolumeMount list \<times> VolumeMount list) \<times> event list" where
  "volumeMountPlan env h creatingContainer spec fetchedImage =
     (let r1 = FindOrCreateVolumeForContainer env h (emptyVolumeSpec fetchedImage)
                 creatingContainer (cs_TeamID spec) ''/scratch'';
          h1 = h @ [EvFindOrCreateVolumeForContainer (emptyVolumeSpec fetchedImage)
                      creatingContainer (cs_TeamID spec) ''/scratch'' r1]
      in case r1 of
           Inl err \<Rightarrow> (Inl err, h1)
         | Inr scratchVolume \<Rightarrow>
      (let volumeMounts = [\<lparr>vm_Volume = scratchVolume, vm_MountPath = ''/scratch''\<rparr>];
           hasSpecDirInInputs =
             anyMountTo (cs_Dir spec) (getDestinationPathsFromInputs (cs_Inputs spec));
           hasSpecDirInOutputs =
             anyMountTo (cs_Dir spec) (getDestinationPathsFromOutputs (cs_Outputs spec))
       in case (if cs_Dir spec \<noteq> '''' \<and> \<not> hasSpecDirInOutputs \<and> \<not> hasSpecDirInInputs
                then
                  (let r2 = FindOrCreateVolumeForContainer env h1 (emptyVolumeSpec fetchedImage)
                              creatingContainer (cs_TeamID spec) (cs_Dir spec);
                       h2 = h1 @ [EvFindOrCreateVolumeForContainer (emptyVolumeSpec fetchedImage)
                                   creatingContainer (cs_TeamID spec) (cs_Dir spec) r2]
                   in case r2 of
                        Inl volumeErr \<Rightarrow> (Inl volumeErr, h2)
                      | Inr workdirVolume \<Rightarrow>
                          (Inr (volumeMounts @ [\<lparr>vm_Volume = workdirVolume,
                                                  vm_MountPath = cs_Dir spec\<rparr>]), h2))
                else (Inr volumeMounts, h1)) of
            (Inl err, h2) \<Rightarrow> (Inl err, h2)
          | (Inr volumeMounts, h2) \<Rightarrow>
      (case inputsLoop env creatingContainer spec fetchedImage (cs_Inputs spec) []
              (\<lambda>path. False) h2 of
         (Inl err, h3) \<Rightarrow> (Inl err, h3)
       | (Inr (ioVolumeMounts, inputDestinationPaths), h3) \<Rightarrow>
      (case outputsLoop env creatingContainer spec fetchedImage (cs_Outputs spec) ioVolumeMounts
              inputDestinationPaths h3 of
         (Inl err, h4) \<Rightarrow> (Inl err, h4)
       | (Inr ioVolumeMounts, h4) \<Rightarrow> (Inr (volumeMounts, ioVolumeMounts), h4)))))"

definition createGardenContainer ::
  "collaborators \<Rightarrow> containerProvider \<Rightarrow> event list \<Rightarrow> CreatingContainer \<Rightarrow> ContainerSpec
     \<Rightarrow> FetchedImage \<Rightarrow> (gardenContainer option \<times> error option) \<times> event list" where
  "createGardenContainer env p h creatingContainer spec fetchedImage =
     (case volumeMountPlan env h creatingContainer spec fetchedImage of
        (Inl err, h4) \<Rightarrow> ((None, Some err), h4)
      | (Inr (volumeMounts, ioVolumeMounts), h4) \<Rightarrow>
     (case bindMountsLoop env (cs_BindMounts spec) [] h4 of
        (Inl mountErr, h5) \<Rightarrow> ((None, Some mountErr), h5)
      | (Inr bindMounts, h5) \<Rightarrow>
     (let volumeMounts = volumeMounts @ sortByMountPath ioVolumeMounts;
          bindMounts = bindMounts @ map toBindMount volumeMounts;
          gardenProperties =
            [(userPropertyName,
              if cs_User spec \<noteq> '''' then cs_User spec else im_User (fi_Metadata fetchedImage))];
          gardenSpec =
            \<lparr>gs_Handle = cc_Handle creatingContainer, gs_RootFSPath = fi_URL fetchedImage,
             gs_Privileged = fi_Privileged fetchedImage, gs_BindMounts = bindMounts,
             gs_Limits = cs_Limits spec, gs_Env = containerEnv p spec fetchedImage,
             gs_Properties = gardenProperties\<rparr>;
          r6 = Create env h5 gardenSpec
      in (r6, h5 @ [EvCreate gardenSpec r6]))))"

fun isContainerNotFoundError :: "error \<Rightarrow> bool" where
  "isContainerNotFoundError (ContainerNotFoundError handle) = True"
| "isContainerNotFoundError err = False"

definition markCreated ::
  "collaborators \<Rightarrow> containerProvider \<Rightarrow> event list \<Rightarrow> CreatingContainer \<Rightarrow> gardenContainer option
     \<Rightarrow> (Container option \<times> error option) \<times> event list" where
  "markCreated env p h creatingContainer gardenContainer =
     (let r = Created env h creatingContainer;
          h1 = h @ [EvCreated creatingContainer r]
      in case r of
           Inl err \<Rightarrow>
             (let d = Destroy env h1 (cc_Handle creatingContainer)
              in ((None, Some err), h1 @ [EvDestroy (cc_Handle creatingContainer) d]))
         | Inr createdContainer \<Rightarrow>
             constructGardenWorkerContainer env p h1 createdContainer gardenContainer)"

definition createLocked ::
  "collaborators \<Rightarrow> containerProvider \<Rightarrow> event list \<Rightarrow> CreatingContainer \<Rightarrow> ContainerSpec
     \<Rightarrow> (Container option \<times> error option) \<times> event list" where
  "createLocked env p h creatingContainer containerSpec =
     (let r1 = FetchForContainer env h creatingContainer;
          h1 = h @ [EvFetchForContainer creatingContainer r1]
      in case r1 of
           Inl err \<Rightarrow>
             (let f = Failed env h1 creatingContainer
              in ((None, Some err), h1 @ [EvFailed creatingContainer f]))
         | Inr fetchedImage \<Rightarrow>
             (case createGardenContainer env p h1 creatingContainer containerSpec fetchedImage of
                ((gardenContainer, Some err), h2) \<Rightarrow>
                  (let f = Failed env h2 creatingContainer
                   in ((None, Some err), h2 @ [EvFailed creatingContainer f, EvFailedContainersInc]))
              | ((gardenContainer, None), h2) \<Rightarrow>
                  markCreated env p (h2 @ [EvContainersCreatedInc]) creatingContainer
                    gardenContainer))"

definition provisionCreating ::
  "collaborators \<Rightarrow> containerProvider \<Rightarrow> event list \<Rightarrow> CreatingContainer \<Rightarrow> ContainerSpec
     \<Rightarrow> (Container option \<times> error option) \<times> event list" where
  "provisionCreating env p h creatingContainer containerSpec =
     (let r1 = Lookup env h (cc_Handle creatingContainer);
          h1 = h @ [EvLookup (cc_Handle creatingContainer) r1]
      in case r1 of (gardenContainer, err) \<Rightarrow>
           if (case err of None \<Rightarrow> False | Some e \<Rightarrow> \<not> isContainerNotFoundError e)
           then ((None, err), h1)
           else
             (case gardenContainer of
                None \<Rightarrow>
                  (let lockID = NewContainerCreatingLockID (cc_ID creatingContainer);
                       r2 = Acquire env h1 lockID;
                       h2 = h1 @ [EvAcquire lockID r2]
                   in case r2 of
                        Inl err \<Rightarrow> ((None, Some err), h2)
                      | Inr acquired \<Rightarrow>
                          if \<not> acquired
                          then ((None, None), h2 @ [EvSleep creatingContainerRetryDelay])
                          else
                            (case createLocked env p h2 creatingContainer containerSpec of
                               (result, h3) \<Rightarrow> (result, h3 @ [EvRelease lockID])))
              | Some found \<Rightarrow> markCreated env p h1 creatingContainer gardenContainer))"

definition FindOrCreateContainer ::
  "collaborators \<Rightarrow> containerProvider \<Rightarrow> event list \<Rightarrow> ContainerOwner \<Rightarrow> ContainerMetadata
     \<Rightarrow> ContainerSpec \<Rightarrow> (Container option \<times> error option) \<times> event list" where
  "FindOrCreateContainer env p h owner metadata containerSpec =
     (let r1 = FindContainerOnWorker env h owner;
          h1 = h @ [EvFindContainerOnWorker owner r1]
      in case r1 of
           Inl err \<Rightarrow> ((None, Some err), h1)
         | Inr (creatingContainer, Some createdContainer) \<Rightarrow>
             (let r2 = Lookup env h1 (cdc_Handle createdContainer);
                  h2 = h1 @ [EvLookup (cdc_Handle createdContainer) r2]
              in case r2 of
                   (gardenContainer, Some err) \<Rightarrow> ((None, Some err), h2)
                 | (gardenContainer, None) \<Rightarrow>
                     constructGardenWorkerContainer env p h2 createdContainer gardenContainer)
         | Inr (None, None) \<Rightarrow>
             (let r2 = CreateContainer env h1 owner metadata;
                  h2 = h1 @ [EvCreateContainer owner metadata r2]
              in case r2 of
                   Inl err \<Rightarrow> ((None, Some err), h2)
                 | Inr creatingContainer \<Rightarrow>
                     provisionCreating env p h2 creatingContainer containerSpec)
         | Inr (Some creatingContainer, None) \<Rightarrow>
             provisionCreating env p h1 creatingContainer containerSpec)"

section \<open>Predicates on histories\<close>

text \<open>
  The events that \<open>FindOrCreateContainer\<close> adds itself (record store, runtime lookup and
  destroy, lock, sleep, image fetch, counters), as opposed to those of the mount planner and
  of the wrapping; \<open>quiet h h'\<close> says that \<open>h'\<close> extends \<open>h\<close> by events of the second
  kind only. \<open>deferred\<close> and \<open>commitFailed\<close> describe the end of a run that did not get the
  lock, and of a run whose transition to the created state failed.
\<close>

fun provisionerEvent :: "event \<Rightarrow> bool" where
  "provisionerEvent (EvFindVolumesForContainer c r) = False"
| "provisionerEvent (EvNewGardenWorkerContainer g c vs n r) = False"
| "provisionerEvent (EvFindOrCreateVolumeForContainer vs c t path r) = False"
| "provisionerEvent (EvFindOrCreateCOWVolumeForContainer vs c v t path r) = False"
| "provisionerEvent (EvVolumeOn s r) = False"
| "provisionerEvent (EvStreamTo s v r) = False"
| "provisionerEvent (EvBindMountVolumeOn m r) = False"
| "provisionerEvent (EvCreate gs r) = False"
| "provisionerEvent e = True"

definition quiet :: "event list \<Rightarrow> event list \<Rightarrow> bool" where
  "quiet h h' = (\<exists>evs. h' = h @ evs \<and> (\<forall>e \<in> set evs. \<not> provisionerEvent e))"

definition commitFailed ::
  "collaborators \<Rightarrow> event list \<Rightarrow> event list \<Rightarrow> CreatingContainer \<Rightarrow> error \<Rightarrow> bool" where
  "commitFailed env h evs cc err =
     (\<exists>pre post. evs = pre @ [EvCreated cc (Inl err),
                    EvDestroy (cc_Handle cc)
                      (Destroy env (h @ pre @ [EvCreated cc (Inl err)]) (cc_Handle cc))] @ post
        \<and> set post \<subseteq> {EvRelease (NewContainerCreatingLockID (cc_ID cc))})"

definition deferred :: "event list \<Rightarrow> LockID \<Rightarrow> bool" where
  "deferred evs l = (\<exists>pre. evs = pre @ [EvAcquire l (Inr False), EvSleep creatingContainerRetryDelay])"

definition normalElem :: "string \<Rightarrow> bool" where
  "normalElem e = (e \<noteq> '''' \<and> e \<noteq> ''.'' \<and> e \<noteq> ''..'' \<and> CHR ''/'' \<notin> set e)"

definition cleanForm :: "bool \<Rightarrow> string list \<Rightarrow> bool" where
  "cleanForm rooted es =
     (if rooted then list_all normalElem es
      else list_all normalElem (dropWhile (\<lambda>e. e = ''..'') es))"

fun plannerEvent :: "event \<Rightarrow> bool" where
  "plannerEvent (EvFindOrCreateVolumeForContainer vs c t path r) = True"
| "plannerEvent (EvFindOrCreateCOWVolumeForContainer vs c v t path r) = True"
| "plannerEvent (EvVolumeOn s r) = True"
| "plannerEvent (EvStreamTo s v r) = True"
| "plannerEvent (EvBindMountVolumeOn m r) = True"
| "plannerEvent e = False"

definition planned :: "event list \<Rightarrow> event list \<Rightarrow> bool" where
  "planned h h' = (\<exists>evs. h' = h @ evs \<and> (\<forall>e \<in> set evs. plannerEvent e))"

fun allocated :: "event \<Rightarrow> (string \<times> Volume) list" where
  "allocated (EvFindOrCreateVolumeForContainer vs c t path (Inr v)) = [(path, v)]"
| "allocated (EvFindOrCreateCOWVolumeForContainer vs c parent t path (Inr v)) = [(path, v)]"
| "allocated e = []"

definition allocations :: "event list \<Rightarrow> (string \<times> Volume) list" where
  "allocations evs = concat (map allocated evs)"

definition mountAlloc :: "VolumeMount \<Rightarrow> string \<times> Volume" where
  "mountAlloc mount = (vm_MountPath mount, vm_Volume mount)"

definition inputMount ::
  "collaborators \<Rightarrow> event list \<Rightarrow> event list \<Rightarrow> CreatingContainer \<Rightarrow> ContainerSpec
     \<Rightarrow> FetchedImage \<Rightarrow> InputSource \<Rightarrow> VolumeMount \<Rightarrow> bool" where
  "inputMount env h evs cc spec fi i m =
     (vm_MountPath m = Clean (in_DestinationPath i)
      \<and> (\<exists>pre mid post. evs = pre @ mid @ post
            \<and> inputVolumeFor env (h @ pre) cc spec fi i = (Inr (vm_Volume m), h @ pre @ mid)))"

definition workdirAllocated :: "ContainerSpec \<Rightarrow> bool" where
  "workdirAllocated spec =
     (cs_Dir spec \<noteq> ''''
      \<and> \<not> anyMountTo (cs_Dir spec) (getDestinationPathsFromOutputs (cs_Outputs spec))
      \<and> \<not> anyMountTo (cs_Dir spec) (getDestinationPathsFromInputs (cs_Inputs spec)))"

definition inputPaths :: "ContainerSpec \<Rightarrow> string list" where
  "inputPaths spec = map (\<lambda>i. Clean (in_DestinationPath i)) (cs_Inputs spec)"

definition outputPaths :: "ContainerSpec \<Rightarrow> string list" where
  "outputPaths spec = map (\<lambda>out. Clean (snd out)) (cs_Outputs spec)"

definition unclaimedOutputPaths :: "ContainerSpec \<Rightarrow> string list" where
  "unclaimedOutputPaths spec = filter (\<lambda>q. q \<notin> set (inputPaths spec)) (outputPaths spec)"

definition fixedMountPaths :: "ContainerSpec \<Rightarrow> string list" where
  "fixedMountPaths spec = ''/scratch'' # (if workdirAllocated spec then [cs_Dir spec] else [])"

definition mountPlanPaths :: "ContainerSpec \<Rightarrow> string list" where
  "mountPlanPaths spec = fixedMountPaths spec @ sort (inputPaths spec @ unclaimedOutputPaths spec)"

fun foundBindMount :: "event \<Rightarrow> BindMount list" where
  "foundBindMount (EvBindMountVolumeOn mount (Inr (Some bindMount))) = [bindMount]"
| "foundBindMount e = []"

definition foundBindMounts :: "event list \<Rightarrow> BindMount list" where
  "foundBindMounts evs = concat (map foundBindMount evs)"

text \<open>
  The extra bind mounts a run asked the worker for, in the order of the calls, and whether
  every recorded answer is the one the worker gave at that point of the history \<open>h\<close>.
\<close>

fun bindMountQuery :: "event \<Rightarrow> BindMountSource list" where
  "bindMountQuery (EvBindMountVolumeOn mount r) = [mount]"
| "bindMountQuery e = []"

definition bindMountQueries :: "event list \<Rightarrow> BindMountSource list" where
  "bindMountQueries evs = concat (map bindMountQuery evs)"

fun bindMountsAnswered :: "collaborators \<Rightarrow> event list \<Rightarrow> event list \<Rightarrow> bool" where
  "bindMountsAnswered env h [] = True"
| "bindMountsAnswered env h (EvBindMountVolumeOn mount r # evs) =
     (r = BindMountVolumeOn env h mount
      \<and> bindMountsAnswered env (h @ [EvBindMountVolumeOn mount r]) evs)"
| "bindMountsAnswered env h (e # evs) = bindMountsAnswered env (h @ [e]) evs"

fun volumeEvent :: "event \<Rightarrow> bool" where
  "volumeEvent (EvBindMountVolumeOn m r) = False"
| "volumeEvent e = plannerEvent e"

definition allocating :: "event list \<Rightarrow> event list \<Rightarrow> bool" where
  "allocating h h' = (\<exists>evs. h' = h @ evs \<and> (\<forall>e \<in> set evs. volumeEvent e))"

section \<open>Example inputs\<close>

text \<open>
  Concrete workers, specs and versions on which the properties below are evaluated. The
  tagged worker and the spec with the tags \<open>gpu\<close> and \<open>fast\<close> are the scenario of the
  specification; the version numbers are those of the worker tests of the repository.
\<close>

definition worker_gpu :: gardenWorker where
  "worker_gpu = \<lparr>dbWorker = \<lparr>w_Name = ''w1'', w_TeamID = 5, w_Platform = ''linux'',
      w_Tags = [''gpu''], w_ResourceTypes = [\<lparr>wrt_Type = ''git'', wrt_Image = ''/img/git''\<rparr>],
      w_Version = Some ''1.2.3''\<rparr>, buildContainers = 0\<rparr>"

definition worker_untagged :: gardenWorker where
  "worker_untagged = \<lparr>dbWorker = \<lparr>w_Name = ''w2'', w_TeamID = 0, w_Platform = ''linux'',
      w_Tags = [], w_ResourceTypes = [\<lparr>wrt_Type = ''git'', wrt_Image = ''/img/git''\<rparr>],
      w_Version = None\<rparr>, buildContainers = 0\<rparr>"

definition spec_no_tags :: WorkerSpec where
  "spec_no_tags = \<lparr>spec_Platform = '''', spec_ResourceType = '''', spec_Tags = [],
      spec_TeamID = 5, spec_ResourceTypes = []\<rparr>"

definition spec_gpu :: WorkerSpec where
  "spec_gpu = \<lparr>spec_Platform = '''', spec_ResourceType = '''', spec_Tags = [''gpu''],
      spec_TeamID = 5, spec_ResourceTypes = []\<rparr>"

definition release_of :: "int list \<Rightarrow> Version" where
  "release_of ns = \<lparr>Release = \<lparr>Components = map VerSegCompInt ns\<rparr>,
      PreRelease = \<lparr>Components = []\<rparr>, PostRelease = \<lparr>Components = []\<rparr>\<rparr>"

definition parse_table :: "string \<Rightarrow> error + Version" where
  "parse_table s =
     (if s = ''1.2.3'' then Inr (release_of [1, 2, 3])
      else Inl (OtherError ''Expected version to match version format''))"

definition spec_gpu_fast :: WorkerSpec where
  "spec_gpu_fast = \<lparr>spec_Platform = '''', spec_ResourceType = '''', spec_Tags = [''gpu'', ''fast''],
      spec_TeamID = 5, spec_ResourceTypes = []\<rparr>"

definition cyclic_catalog :: "VersionedResourceType list" where
  "cyclic_catalog = [\<lparr>vrt_Name = ''a'', vrt_Type = ''b''\<rparr>, \<lparr>vrt_Name = ''b'', vrt_Type = ''a''\<rparr>]"

definition spec_cyclic :: WorkerSpec where
  "spec_cyclic = \<lparr>spec_Platform = '''', spec_ResourceType = ''a'', spec_Tags = [],
      spec_TeamID = 5, spec_ResourceTypes = cyclic_catalog\<rparr>"

definition spec_git_darwin :: WorkerSpec where
  "spec_git_darwin = \<lparr>spec_Platform = ''darwin'', spec_ResourceType = ''git'', spec_Tags = [],
      spec_TeamID = 5, spec_ResourceTypes = []\<rparr>"

definition worker_dev :: gardenWorker where
  "worker_dev = worker_gpu\<lparr>dbWorker := (dbWorker worker_gpu)\<lparr>w_Version := Some ''dev''\<rparr>\<rparr>"

definition worker_b :: gardenWorker where
  "worker_b = \<lparr>dbWorker = \<lparr>w_Name = ''w3'', w_TeamID = 5, w_Platform = ''linux'',
      w_Tags = [], w_ResourceTypes = [\<lparr>wrt_Type = ''b'', wrt_Image = ''/img/b''\<rparr>],
      w_Version = Some ''1.2.3''\<rparr>, buildContainers = 0\<rparr>"

definition volumeAt :: "event list \<Rightarrow> Volume" where
  "volumeAt h =
     \<lparr>vol_Handle = ''v'' @ replicate (length h) (CHR ''i''),
      vol_Path = ''/volumes/v'' @ replicate (length h) (CHR ''i''),
      vol_WorkerName = ''w1''\<rparr>"

definition image_plain :: FetchedImage where
  "image_plain = \<lparr>fi_Metadata = \<lparr>im_Env = [''PATH=/bin''], im_User = ''root''\<rparr>,
      fi_URL = ''raw:///img'', fi_Privileged = False\<rparr>"

definition creating7 :: CreatingContainer where
  "creating7 = \<lparr>cc_ID = 7, cc_Handle = ''h7''\<rparr>"

definition created7 :: CreatedContainer where
  "created7 = \<lparr>cdc_ID = 7, cdc_Handle = ''h7''\<rparr>"

definition env_ok :: collaborators where
  "env_ok =
     \<lparr>FindContainerOnWorker = (\<lambda>h owner. Inr (None, None)),
      CreateContainer = (\<lambda>h owner metadata. Inr creating7),
      Lookup = (\<lambda>h handle. (None, Some (ContainerNotFoundError handle))),
      Acquire = (\<lambda>h lockID. Inr True),
      FetchForContainer = (\<lambda>h c. Inr image_plain),
      Failed = (\<lambda>h c. None),
      Created = (\<lambda>h c. Inr \<lparr>cdc_ID = cc_ID c, cdc_Handle = cc_Handle c\<rparr>),
      Destroy = (\<lambda>h handle. None),
      FindVolumesForContainer = (\<lambda>h c. Inr []),
      newGardenWorkerContainer = (\<lambda>h g c vs n.
        (Some \<lparr>wc_gardenContainer = g, wc_dbContainer = c, wc_dbVolumes = vs, wc_workerName = n\<rparr>,
         None)),
      FindOrCreateVolumeForContainer = (\<lambda>h vs c t path. Inr (volumeAt h)),
      FindOrCreateCOWVolumeForContainer = (\<lambda>h vs c parent t path. Inr (volumeAt h)),
      VolumeOn = (\<lambda>h s. Inr None),
      StreamTo = (\<lambda>h s v. None),
      BindMountVolumeOn = (\<lambda>h m. Inr None),
      Create = (\<lambda>h gs. (Some \<lparr>gc_Handle = gs_Handle gs\<rparr>, None))\<rparr>"

definition env_busy :: collaborators where
  "env_busy = env_ok\<lparr>Acquire := (\<lambda>h lockID. Inr False)\<rparr>"

definition env_commit_fails :: collaborators where
  "env_commit_fails =
     env_ok\<lparr>Lookup := (\<lambda>h handle. (Some \<lparr>gc_Handle = handle\<rparr>, None)),
            Created := (\<lambda>h c. Inl (OtherError ''db'')),
            Destroy := (\<lambda>h handle. Some (OtherError ''garden''))\<rparr>"

definition env_created_gone :: collaborators where
  "env_created_gone = env_ok\<lparr>FindContainerOnWorker := (\<lambda>h owner. Inr (None, Some created7))\<rparr>"

definition env_created_live :: collaborators where
  "env_created_live =
     env_ok\<lparr>FindContainerOnWorker := (\<lambda>h owner. Inr (None, Some created7)),
            Lookup := (\<lambda>h handle. (Some \<lparr>gc_Handle = handle\<rparr>, None))\<rparr>"

definition env_garden_down :: collaborators where
  "env_garden_down = env_ok\<lparr>Lookup := (\<lambda>h handle. (None, Some (OtherError ''garden'')))\<rparr>"

definition provider0 :: containerProvider where
  "provider0 = \<lparr>p_worker = dbWorker worker_gpu, p_httpProxyURL = '''', p_httpsProxyURL = '''',
      p_noProxy = ''''\<rparr>"

definition spec_plain :: ContainerSpec where
  "spec_plain = \<lparr>cs_TeamID = 5, cs_Dir = '''', cs_Inputs = [], cs_Outputs = [],
      cs_BindMounts = [], cs_Limits = \<lparr>lim_CPU = None, lim_Memory = None\<rparr>, cs_Env = [],
      cs_User = ''''\<rparr>"

definition certsMount :: BindMount where
  "certsMount = \<lparr>bm_SrcPath = ''/etc/ssl/certs'', bm_DstPath = ''/etc/ssl/certs'',
      bm_Mode = BindMountModeRO\<rparr>"

definition env_certs :: collaborators where
  "env_certs = env_ok\<lparr>BindMountVolumeOn := (\<lambda>h mount. Inr (Some certsMount))\<rparr>"

definition input_data :: InputSource where
  "input_data = \<lparr>in_Source = 1, in_DestinationPath = ''/data''\<rparr>"

definition spec_two_inputs :: ContainerSpec where
  "spec_two_inputs = spec_plain\<lparr>cs_Inputs :=
      [input_data, \<lparr>in_Source = 2, in_DestinationPath = ''/data''\<rparr>],
      cs_Outputs := [(''result'', ''/data'')]\<rparr>"

definition spec_scratch_io :: ContainerSpec where
  "spec_scratch_io = spec_plain\<lparr>cs_Inputs := [\<lparr>in_Source = 1, in_DestinationPath = ''/scratch''\<rparr>],
      cs_Outputs := [(''result'', ''/scratch'')]\<rparr>"

definition spec_certs :: ContainerSpec where
  "spec_certs = spec_plain\<lparr>cs_BindMounts := [1]\<rparr>"

definition spec_data :: ContainerSpec where
  "spec_data = spec_plain\<lparr>cs_Dir := ''/work'', cs_Inputs := [input_data],
      cs_Outputs := [(''result'', ''/data/''), (''logs'', ''/logs'')]\<rparr>"

definition volumeNo :: "nat \<Rightarrow> Volume" where
  "volumeNo n = volumeAt (replicate n EvContainersCreatedInc)"

definition emptyAlloc :: "string \<Rightarrow> nat \<Rightarrow> event" where
  "emptyAlloc path n =
     EvFindOrCreateVolumeForContainer \<lparr>vs_Strategy = EmptyStrategy, vs_Privileged = False\<rparr>
       creating7 5 path (Inr (volumeNo n))"

definition rwMount :: "nat \<Rightarrow> string \<Rightarrow> BindMount" where
  "rwMount n path = toBindMount \<lparr>vm_Volume = volumeNo n, vm_MountPath = path\<rparr>"

definition gardenSpec7 :: "BindMount list \<Rightarrow> GardenContainerSpec" where
  "gardenSpec7 bindMounts =
     \<lparr>gs_Handle = ''h7'', gs_RootFSPath = ''raw:///img'', gs_Privileged = False,
      gs_BindMounts = bindMounts, gs_Limits = \<lparr>lim_CPU = None, lim_Memory = None\<rparr>,
      gs_Env = [''PATH=/bin''], gs_Properties = [(''user'', ''root'')]\<rparr>"

definition created7_event :: "BindMount list \<Rightarrow> event" where
  "created7_event bindMounts = EvCreate (gardenSpec7 bindMounts) (Some \<lparr>gc_Handle = ''h7''\<rparr>, None)"

definition events_data :: "event list" where
  "events_data =
     [emptyAlloc ''/scratch'' 0, emptyAlloc ''/work'' 1, EvVolumeOn 1 (Inr None),
      emptyAlloc ''/data'' 3, EvStreamTo 1 (volumeNo 3) None, emptyAlloc ''/logs'' 5,
      created7_event [rwMount 0 ''/scratch'', rwMount 1 ''/work'', rwMount 3 ''/data'',
        rwMount 5 ''/logs'']]"

definition events_two_inputs :: "event list" where
  "events_two_inputs =
     [emptyAlloc ''/scratch'' 0, EvVolumeOn 1 (Inr None), emptyAlloc ''/data'' 2,
      EvStreamTo 1 (volumeNo 2) None, EvVolumeOn 2 (Inr None), emptyAlloc ''/data'' 5,
      EvStreamTo 2 (volumeNo 5) None,
      created7_event [rwMount 0 ''/scratch'', rwMount 2 ''/data'', rwMount 5 ''/data'']]"

definition events_scratch_io :: "event list" where
  "events_scratch_io =
     [emptyAlloc ''/scratch'' 0, EvVolumeOn 1 (Inr None), emptyAlloc ''/scratch'' 2,
      EvStreamTo 1 (volumeNo 2) None,
      created7_event [rwMount 0 ''/scratch'', rwMount 2 ''/scratch'']]"

definition events_certs :: "event list" where
  "events_certs =
     [emptyAlloc ''/scratch'' 0, EvBindMountVolumeOn 1 (Inr (Some certsMount)),
      created7_event [certsMount, rwMount 0 ''/scratch'']]"

definition resolvMount :: BindMount where
  "resolvMount = \<lparr>bm_SrcPath = ''/etc/resolv.conf'', bm_DstPath = ''/etc/resolv.conf'',
      bm_Mode = BindMountModeRO\<rparr>"

definition env_extras :: collaborators where
  "env_extras = env_ok\<lparr>BindMountVolumeOn := (\<lambda>h mount.
      if mount = 3 then Inr (Some certsMount)
      else if mount = 2 then Inr None
      else Inr (Some resolvMount))\<rparr>"

definition spec_extras :: ContainerSpec where
  "spec_extras = spec_data\<lparr>cs_BindMounts := [4, 2, 3]\<rparr>"

definition events_extras :: "event list" where
  "events_extras =
     [emptyAlloc ''/scratch'' 0, emptyAlloc ''/work'' 1, EvVolumeOn 1 (Inr None),
      emptyAlloc ''/data'' 3, EvStreamTo 1 (volumeNo 3) None, emptyAlloc ''/logs'' 5,
      EvBindMountVolumeOn 4 (Inr (Some resolvMount)), EvBindMountVolumeOn 2 (Inr None),
      EvBindMountVolumeOn 3 (Inr (Some certsMount)),
      created7_event [resolvMount, certsMount, rwMount 0 ''/scratch'', rwMount 1 ''/work'',
        rwMount 3 ''/data'', rwMount 5 ''/logs'']]"

definition container7 :: Container where
  "container7 = \<lparr>wc_gardenContainer = Some \<lparr>gc_Handle = ''h7''\<rparr>, wc_dbContainer = created7,
      wc_dbVolumes = [], wc_workerName = ''w1''\<rparr>"

definition events_lookup :: "event list" where
  "events_lookup =
     [EvFindContainerOnWorker 3 (Inr (None, None)),
      EvCreateContainer 3 ''task'' (Inr creating7)]"

definition events_ok :: "event list" where
  "events_ok =
     events_lookup @
     [EvLookup ''h7'' (None, Some (ContainerNotFoundError ''h7'')),
      EvAcquire (ContainerCreatingLockID 7) (Inr True),
      EvFetchForContainer creating7 (Inr image_plain),
      emptyAlloc ''/scratch'' 5,
      created7_event [rwMount 5 ''/scratch''],
      EvContainersCreatedInc,
      EvCreated creating7 (Inr created7),
      EvFindVolumesForContainer created7 (Inr []),
      EvNewGardenWorkerContainer (Some \<lparr>gc_Handle = ''h7''\<rparr>) created7 [] ''w1''
        (Some container7, None),
      EvRelease (ContainerCreatingLockID 7)]"

section \<open>Properties of the matcher\<close>

lemma tagsMatch_inner_iff: "tagsMatch_inner stag workerTags \<longleftrightarrow> stag \<in> set workerTags"
  by (induction workerTags) auto

lemma tagsMatch_outer_iff: "tagsMatch_outer tags workerTags \<longleftrightarrow> set tags \<subseteq> set workerTags"
  by (induction tags) (auto simp: tagsMatch_inner_iff)

lemma matchedType_iff: "matchedType u ts \<longleftrightarrow> u \<in> wrt_Type ` set ts"
  by (induction ts) auto

lemma finite_dom_resourceTypesMap: "finite (dom m) \<Longrightarrow> finite (dom (resourceTypesMap rts m))"
  by (induction rts arbitrary: m) auto

lemma underlyingTypeLoop_returns:
  "finite (dom m) \<Longrightarrow> \<exists>y. underlyingTypeLoop n ut m = Some y"
proof (induction "card (dom m)" arbitrary: m n ut rule: less_induct)
  case less
  show ?case
  proof (cases ut)
    case None
    then show ?thesis by (simp add: underlyingTypeLoop.simps)
  next
    case outer: (Some t)
    show ?thesis
    proof (cases "m (vrt_Type t)")
      case None
      then show ?thesis using outer by (simp add: underlyingTypeLoop.simps)
    next
      case (Some t')
      have "card (dom (m(vrt_Type t := None))) < card (dom m)"
      proof -
        have "vrt_Type t \<in> dom m" using Some by blast
        from card_Diff1_less[OF less.prems this] show ?thesis by simp
      qed
      moreover have "finite (dom (m(vrt_Type t := None)))" using less.prems by simp
      ultimately have
        "\<exists>y. underlyingTypeLoop (vrt_Type t) (Some t') (m(vrt_Type t := None)) = Some y"
        using less.hyps by blast
      then show ?thesis using Some outer by (subst underlyingTypeLoop.simps) simp
    qed
  qed
qed

lemma determineUnderlyingTypeName_returns:
  "\<exists>u. determineUnderlyingTypeName typeName resourceTypes = Some u"
  unfolding determineUnderlyingTypeName_def Let_def
  by (rule underlyingTypeLoop_returns) (simp add: finite_dom_resourceTypesMap)

lemma tagsMatch_iff:
  "tagsMatch worker tags \<longleftrightarrow>
     set tags \<subseteq> set (w_Tags (dbWorker worker)) \<and> \<not> (w_Tags (dbWorker worker) \<noteq> [] \<and> tags = [])"
  by (auto simp: tagsMatch_def Let_def tagsMatch_outer_iff)

lemma Satisfying_cases:
  assumes "determineUnderlyingTypeName (spec_ResourceType spec) (spec_ResourceTypes spec) = Some u"
  shows "Satisfying worker spec =
     Some (if spec_TeamID spec \<noteq> w_TeamID (dbWorker worker) \<and> w_TeamID (dbWorker worker) \<noteq> 0
             then Inl ErrTeamMismatch
           else if spec_ResourceType spec \<noteq> '''' \<and> u \<notin> wrt_Type ` set (w_ResourceTypes (dbWorker worker))
             then Inl ErrUnsupportedResourceType
           else if spec_Platform spec \<noteq> '''' \<and> spec_Platform spec \<noteq> w_Platform (dbWorker worker)
             then Inl ErrIncompatiblePlatform
           else if \<not> tagsMatch worker (spec_Tags spec) then Inl ErrMismatchedTags
           else Inr worker)"
  using assms by (simp add: Satisfying_def Let_def matchedType_iff)

lemma cyclic_resolves: "determineUnderlyingTypeName ''a'' cyclic_catalog = Some ''b''"
  unfolding determineUnderlyingTypeName_def cyclic_catalog_def
  apply simp
  apply (subst underlyingTypeLoop.simps, simp)
  apply (subst underlyingTypeLoop.simps, simp)
  apply (subst underlyingTypeLoop.simps, simp)
  apply (subst underlyingTypeLoop.simps, simp)
  done

lemma cyclic_accepts: "Satisfying worker_b spec_cyclic = Some (Inr worker_b)"
  using Satisfying_cases[of spec_cyclic "''b''" worker_b] cyclic_resolves
  by (simp add: spec_cyclic_def worker_b_def tagsMatch_def)

lemma cyclic_rejects: "Satisfying worker_gpu spec_cyclic = Some (Inl ErrUnsupportedResourceType)"
  using Satisfying_cases[of spec_cyclic "''b''" worker_gpu] cyclic_resolves
  by (simp add: spec_cyclic_def worker_gpu_def tagsMatch_def)

text \<open>
  Claim C1, as stated: a tagged worker accepts every spec whose tags are a subset of its own,
  the empty tag list included, and an untagged worker accepts any requested tags. The code
  does neither: the tagged worker \<open>gpu\<close> rejects the spec without tags, and the untagged
  worker rejects the spec that asks for \<open>gpu\<close>, both with \<open>ErrMismatchedTags\<close>.
\<close>

theorem C1_tags_counterexample:
  "\<not> tagsMatch worker_gpu [] \<and> Satisfying worker_gpu spec_no_tags = Some (Inl ErrMismatchedTags)
   \<and> \<not> tagsMatch worker_untagged [''gpu'']
   \<and> Satisfying worker_untagged spec_gpu = Some (Inl ErrMismatchedTags)"
  by (simp add: Satisfying_def tagsMatch_def worker_gpu_def worker_untagged_def
      spec_no_tags_def spec_gpu_def)

text \<open>
  Claim C1, amended: the tags match exactly when every spec tag is among the worker's tags
  and the spec is not an untagged one meeting a tagged worker; so an untagged worker accepts
  only a spec without tags, and a tagged worker only a non-empty subset of its tags. A worker
  is returned only if the tags match, and \<open>Satisfying\<close> returns \<open>ErrMismatchedTags\<close> exactly
  when the team, resource type and platform rules pass and the tags do not match.
\<close>

theorem C1_tags_rule:
  "(tagsMatch worker tags \<longleftrightarrow>
      set tags \<subseteq> set (w_Tags (dbWorker worker))
      \<and> \<not> (w_Tags (dbWorker worker) \<noteq> [] \<and> tags = []))
   \<and> (Satisfying worker spec = Some (Inr worker) \<longrightarrow> tagsMatch worker (spec_Tags spec))
   \<and> (Satisfying worker spec = Some (Inl ErrMismatchedTags) \<longleftrightarrow>
        \<not> (spec_TeamID spec \<noteq> w_TeamID (dbWorker worker) \<and> w_TeamID (dbWorker worker) \<noteq> 0)
        \<and> (spec_ResourceType spec = '''' \<or>
            (\<exists>u. determineUnderlyingTypeName (spec_ResourceType spec) (spec_ResourceTypes spec) = Some u
               \<and> u \<in> wrt_Type ` set (w_ResourceTypes (dbWorker worker))))
        \<and> (spec_Platform spec = '''' \<or> spec_Platform spec = w_Platform (dbWorker worker))
        \<and> \<not> tagsMatch worker (spec_Tags spec))"
proof -
  obtain u where u:
    "determineUnderlyingTypeName (spec_ResourceType spec) (spec_ResourceTypes spec) = Some u"
    using determineUnderlyingTypeName_returns by blast
  show ?thesis
    unfolding Satisfying_cases[OF u]
    using u by (auto simp: tagsMatch_iff)
qed

theorem C1_tags_rule_witness:
  "\<not> tagsMatch worker_gpu [''gpu'', ''fast'']
   \<and> Satisfying worker_gpu spec_gpu_fast = Some (Inl ErrMismatchedTags)
   \<and> tagsMatch worker_gpu [''gpu'']
   \<and> Satisfying worker_gpu spec_gpu = Some (Inr worker_gpu)"
  using C1_tags_rule[of worker_gpu "[''gpu'', ''fast'']" spec_gpu_fast]
    C1_tags_rule[of worker_gpu "[''gpu'']" spec_gpu]
  by (simp add: worker_gpu_def spec_gpu_fast_def spec_gpu_def Satisfying_def tagsMatch_def)

text \<open>
  Claim C10, as stated: after resolving the type name the matcher returns either a worker with
  a matching catalog entry or \<open>ErrUnsupportedResourceType\<close>. The later rules of the matcher
  still apply: the spec below names the type \<open>git\<close>, which the worker has, and is rejected
  with \<open>ErrIncompatiblePlatform\<close>.
\<close>

theorem C10_matcher_counterexample:
  "determineUnderlyingTypeName ''git'' [] = Some ''git''
   \<and> Satisfying worker_gpu spec_git_darwin = Some (Inl ErrIncompatiblePlatform)"
  by (simp add: determineUnderlyingTypeName_def underlyingTypeLoop.simps Satisfying_def
      worker_gpu_def spec_git_darwin_def)

text \<open>
  Claim C10, amended: for every catalog, cyclic or not, the resolution of the spec's type name
  returns a name \<open>u\<close>, and the matcher returns: the worker itself or one of its four errors.
  When the spec names a resource type, a returned worker has a resource type whose base type
  is \<open>u\<close>, and the error is \<open>ErrUnsupportedResourceType\<close> exactly when the team rule passes
  and the worker has no such resource type.
\<close>

theorem C10_type_chain_terminates:
  "\<exists>u r. determineUnderlyingTypeName (spec_ResourceType spec) (spec_ResourceTypes spec) = Some u
     \<and> Satisfying worker spec = Some r
     \<and> (r = Inr worker \<or> r = Inl ErrTeamMismatch \<or> r = Inl ErrUnsupportedResourceType
          \<or> r = Inl ErrIncompatiblePlatform \<or> r = Inl ErrMismatchedTags)
     \<and> (spec_ResourceType spec \<noteq> '''' \<and> r = Inr worker \<longrightarrow>
          (\<exists>t \<in> set (w_ResourceTypes (dbWorker worker)). wrt_Type t = u))
     \<and> (spec_ResourceType spec \<noteq> '''' \<longrightarrow>
          (r = Inl ErrUnsupportedResourceType \<longleftrightarrow>
             \<not> (spec_TeamID spec \<noteq> w_TeamID (dbWorker worker) \<and> w_TeamID (dbWorker worker) \<noteq> 0)
             \<and> \<not> (\<exists>t \<in> set (w_ResourceTypes (dbWorker worker)). wrt_Type t = u)))"
proof -
  obtain u where u:
    "determineUnderlyingTypeName (spec_ResourceType spec) (spec_ResourceTypes spec) = Some u"
    using determineUnderlyingTypeName_returns by blast
  show ?thesis
    unfolding Satisfying_cases[OF u]
    using u by (auto simp: image_iff)
qed

theorem C10_type_chain_terminates_witness:
  "spec_ResourceType spec_cyclic \<noteq> ''''
   \<and> determineUnderlyingTypeName ''a'' cyclic_catalog = Some ''b''
   \<and> Satisfying worker_b spec_cyclic = Some (Inr worker_b)
   \<and> (\<exists>t \<in> set (w_ResourceTypes (dbWorker worker_b)). wrt_Type t = ''b'')
   \<and> Satisfying worker_gpu spec_cyclic = Some (Inl ErrUnsupportedResourceType)"
  using C10_type_chain_terminates[of spec_cyclic worker_b]
    C10_type_chain_terminates[of spec_cyclic worker_gpu] cyclic_resolves cyclic_accepts
    cyclic_rejects
  by (simp add: spec_cyclic_def worker_b_def)

section \<open>Properties of the version check\<close>

lemma VerSegComp_Compare_range:
  "VerSegComp_Compare a b = Inl InterfaceConversion
   \<or> (\<exists>c \<in> {- 1, 0, 1}. VerSegComp_Compare a b = Inr c)"
  by (cases a; cases b) auto

lemma compareArrays_range: "\<exists>c \<in> {- 1, 0, 1}. compareArrays a b = Inr c"
  by (induction a b rule: compareArrays.induct) auto

lemma VersionSegment_Compare_range: "\<exists>c \<in> {- 1, 0, 1}. VersionSegment_Compare s other = Inr c"
proof -
  let ?a = "Components s" and ?b = "Components other"
  obtain c1 where c1: "compareArrays (take (length ?b) ?a) ?b = Inr c1" "c1 \<in> {- 1, 0, 1}"
    using compareArrays_range by blast
  obtain c2 where c2: "compareArrays ?a (take (length ?a) ?b) = Inr c2" "c2 \<in> {- 1, 0, 1}"
    using compareArrays_range by blast
  obtain c3 where c3: "compareArrays ?a ?b = Inr c3" "c3 \<in> {- 1, 0, 1}"
    using compareArrays_range by blast
  show ?thesis using c1 c2 c3 by (auto simp: VersionSegment_Compare_def Let_def)
qed

lemma VerSegComp_Compare_leading:
  "(case VerSegComp_Compare v0 c0 of Inl pn \<Rightarrow> Inl pn
    | Inr c1 \<Rightarrow> if c1 = 0 then Inr True else Inr False) =
     (if v0 = c0 then Inr True
      else if isInt v0 = isInt c0 then Inr False else Inl InterfaceConversion)"
  by (cases v0; cases c0) auto

lemma VerSegComp_Compare_eq: "VerSegComp_Compare a b = Inr 0 \<longleftrightarrow> a = b"
  by (cases a; cases b) auto

lemma VerSegComp_Compare_neq:
  "(\<exists>k. VerSegComp_Compare a b = Inr k \<and> k \<noteq> 0) \<longleftrightarrow> a \<noteq> b \<and> (isInt a \<longleftrightarrow> isInt b)"
  by (cases a; cases b) auto

lemma VersionSegment_Compare_empty:
  "VersionSegment_Compare s other = Inr 1 \<Longrightarrow> Components s \<noteq> []"
  by (auto simp: VersionSegment_Compare_def Let_def split: if_splits)

lemma VersionSegment_Compare_int_str:
  "Components s = VerSegCompInt i # a \<Longrightarrow> Components other = VerSegCompStr t # b \<Longrightarrow>
     VersionSegment_Compare s other = Inr (- 1)"
  by (simp add: VersionSegment_Compare_def Let_def)

lemma IsVersionCompatible_cases:
  "IsVersionCompatible p w req =
     (case w_Version (dbWorker w) of None \<Rightarrow> Inr False
      | Some s \<Rightarrow> (case p s of Inl e \<Rightarrow> Inr False
         | Inr v \<Rightarrow>
            if VersionSegment_Compare (Release v) (Release req) = Inr 0 then Inr True
            else if VersionSegment_Compare (Release v) (Release req) = Inr (- 1) then Inr False
            else (case Components (Release v) of [] \<Rightarrow> Inl IndexOutOfRange
                  | v0 # _ \<Rightarrow> (case Components (Release req) of [] \<Rightarrow> Inl IndexOutOfRange
                     | c0 # _ \<Rightarrow>
                        if v0 = c0 then Inr True
                        else if isInt v0 = isInt c0 then Inr False
                        else Inl InterfaceConversion))))"
proof (cases "w_Version (dbWorker w)")
  case None
  then show ?thesis by (simp add: IsVersionCompatible_def)
next
  case (Some s)
  show ?thesis
  proof (cases "p s")
    case (Inl e)
    then show ?thesis using Some by (simp add: IsVersionCompatible_def)
  next
    case (Inr v)
    obtain c where "VersionSegment_Compare (Release v) (Release req) = Inr c"
      using VersionSegment_Compare_range by blast
    then show ?thesis using Some Inr
      by (simp add: IsVersionCompatible_def VerSegComp_Compare_leading split: list.splits)
  qed
qed

text \<open>
  The inputs on which \<^verbatim>\<open>IsVersionCompatible\<close> returns no value: the worker's release
  compares greater than the required one, and the required release has no component, or the
  two leading components are a string and an integer.
\<close>

lemma IsVersionCompatible_panics:
  "IsVersionCompatible p w req = Inl pn \<longleftrightarrow>
     (\<exists>s v. w_Version (dbWorker w) = Some s \<and> p s = Inr v
        \<and> VersionSegment_Compare (Release v) (Release req) = Inr 1
        \<and> (pn = IndexOutOfRange \<and> Components (Release req) = []
           \<or> pn = InterfaceConversion
             \<and> (\<exists>x xs j cs. Components (Release v) = VerSegCompStr x # xs
                   \<and> Components (Release req) = VerSegCompInt j # cs)))"
proof (cases "w_Version (dbWorker w)")
  case None
  then show ?thesis by (simp add: IsVersionCompatible_cases)
next
  case (Some s)
  show ?thesis
  proof (cases "p s")
    case (Inl e)
    then show ?thesis using Some by (simp add: IsVersionCompatible_cases)
  next
    case (Inr v)
    obtain c where c: "VersionSegment_Compare (Release v) (Release req) = Inr c" "c \<in> {- 1, 0, 1}"
      using VersionSegment_Compare_range by blast
    show ?thesis
    proof (cases "c = 1")
      case False
      then show ?thesis using Some Inr c by (auto simp: IsVersionCompatible_cases)
    next
      case True
      then obtain v0 vs where v0: "Components (Release v) = v0 # vs"
        using c VersionSegment_Compare_empty[of "Release v" "Release req"]
        by (cases "Components (Release v)") auto
      show ?thesis
      proof (cases "Components (Release req)")
        case Nil
        then show ?thesis using Some Inr c True v0 by (auto simp: IsVersionCompatible_cases)
      next
        case (Cons c0 cs)
        have "\<not> (\<exists>i t. v0 = VerSegCompInt i \<and> c0 = VerSegCompStr t)"
          using VersionSegment_Compare_int_str[of "Release v" _ vs "Release req" _ cs] v0 Cons c True
          by auto
        then show ?thesis using Some Inr c True v0 Cons
          by (cases v0; cases c0) (auto simp: IsVersionCompatible_cases)
      qed
    qed
  qed
qed

text \<open>
  Claim C2, as stated: the worker is compatible whenever its leading release component equals
  that of the required version. The worker at release 1.2.3 and the required release 1.3.3
  share the leading component 1, and the worker is not compatible: its release is the older one.
\<close>

theorem C2_version_counterexample:
  "w_Version (dbWorker worker_gpu) = Some ''1.2.3''
   \<and> parse_table ''1.2.3'' = Inr (release_of [1, 2, 3])
   \<and> VerSegComp_Compare (VerSegCompInt 1) (VerSegCompInt 1) = Inr 0
   \<and> IsVersionCompatible parse_table worker_gpu (release_of [1, 3, 3]) = Inr False"
  by (simp add: IsVersionCompatible_def parse_table_def worker_gpu_def release_of_def
      VersionSegment_Compare_def)

text \<open>
  Claim C2, amended: \<open>IsVersionCompatible\<close> returns true exactly when the worker has a
  version that parses and either its release compares equal to the required release, or its
  release compares greater and the leading components of the two releases compare equal. It
  returns false exactly when the worker's version is missing, or does not parse, or the
  worker's release compares less than the required one (whatever the leading components
  are), or the worker's release compares greater and the two leading components are of the
  same kind, both integers or both strings, and differ. The comparison of two releases always
  has a result, which is less, equal or greater.
\<close>

theorem C2_version_rule:
  "(IsVersionCompatible p w req = Inr True \<longleftrightarrow>
      (\<exists>s v. w_Version (dbWorker w) = Some s \<and> p s = Inr v \<and>
         (VersionSegment_Compare (Release v) (Release req) = Inr 0 \<or>
          (VersionSegment_Compare (Release v) (Release req) = Inr 1 \<and>
           (\<exists>v0 vs cs. Components (Release v) = v0 # vs \<and> Components (Release req) = v0 # cs)))))
   \<and> (IsVersionCompatible p w req = Inr False \<longleftrightarrow>
        w_Version (dbWorker w) = None
        \<or> (\<exists>s e. w_Version (dbWorker w) = Some s \<and> p s = Inl e)
        \<or> (\<exists>s v. w_Version (dbWorker w) = Some s \<and> p s = Inr v \<and>
             (VersionSegment_Compare (Release v) (Release req) = Inr (- 1) \<or>
              (VersionSegment_Compare (Release v) (Release req) = Inr 1 \<and>
               (\<exists>v0 vs c0 cs. Components (Release v) = v0 # vs
                  \<and> Components (Release req) = c0 # cs \<and> v0 \<noteq> c0
                  \<and> (isInt v0 \<longleftrightarrow> isInt c0))))))
   \<and> (\<exists>c. VersionSegment_Compare a b = Inr c \<and> (c = - 1 \<or> c = 0 \<or> c = 1))"
proof -
  have range: "\<exists>c. VersionSegment_Compare a b = Inr c \<and> (c = - 1 \<or> c = 0 \<or> c = 1)" for a b
    using VersionSegment_Compare_range[of a b] by auto
  have t: "IsVersionCompatible p w req = Inr True \<longleftrightarrow>
      (\<exists>s v. w_Version (dbWorker w) = Some s \<and> p s = Inr v \<and>
         (VersionSegment_Compare (Release v) (Release req) = Inr 0 \<or>
          (VersionSegment_Compare (Release v) (Release req) = Inr 1 \<and>
           (\<exists>v0 vs cs. Components (Release v) = v0 # vs \<and> Components (Release req) = v0 # cs))))"
  proof (cases "w_Version (dbWorker w)")
    case None
    then show ?thesis by (simp add: IsVersionCompatible_cases)
  next
    case (Some s)
    show ?thesis
    proof (cases "p s")
      case (Inl e)
      then show ?thesis using Some by (simp add: IsVersionCompatible_cases)
    next
      case (Inr v)
      from range[of "Release v" "Release req"] show ?thesis using Some Inr
        by (auto simp: IsVersionCompatible_cases split: list.splits)
    qed
  qed
  have f: "IsVersionCompatible p w req = Inr False \<longleftrightarrow>
        w_Version (dbWorker w) = None
        \<or> (\<exists>s e. w_Version (dbWorker w) = Some s \<and> p s = Inl e)
        \<or> (\<exists>s v. w_Version (dbWorker w) = Some s \<and> p s = Inr v \<and>
             (VersionSegment_Compare (Release v) (Release req) = Inr (- 1) \<or>
              (VersionSegment_Compare (Release v) (Release req) = Inr 1 \<and>
               (\<exists>v0 vs c0 cs. Components (Release v) = v0 # vs
                  \<and> Components (Release req) = c0 # cs \<and> v0 \<noteq> c0
                  \<and> (isInt v0 \<longleftrightarrow> isInt c0)))))"
  proof (cases "w_Version (dbWorker w)")
    case None
    then show ?thesis by (simp add: IsVersionCompatible_cases)
  next
    case (Some s)
    show ?thesis
    proof (cases "p s")
      case (Inl e)
      then show ?thesis using Some by (simp add: IsVersionCompatible_cases)
    next
      case (Inr v)
      from range[of "Release v" "Release req"] show ?thesis using Some Inr
        by (auto simp: IsVersionCompatible_cases split: list.splits)
    qed
  qed
  show ?thesis using t f range[of a b] by simp
qed

theorem C2_version_rule_witness:
  "IsVersionCompatible parse_table worker_gpu (release_of [1, 1, 3]) = Inr True
   \<and> IsVersionCompatible parse_table worker_gpu (release_of [1, 2, 3]) = Inr True
   \<and> IsVersionCompatible parse_table worker_gpu (release_of [1, 3, 3]) = Inr False
   \<and> IsVersionCompatible parse_table worker_gpu (release_of [0, 9, 9]) = Inr False
   \<and> IsVersionCompatible parse_table worker_dev (release_of [1, 2, 3]) = Inr False
   \<and> IsVersionCompatible parse_table worker_untagged (release_of [1, 2, 3]) = Inr False"
  using C2_version_rule[of parse_table worker_gpu "release_of [1, 1, 3]"]
    C2_version_rule[of parse_table worker_gpu "release_of [1, 2, 3]"]
    C2_version_rule[of parse_table worker_gpu "release_of [1, 3, 3]"]
    C2_version_rule[of parse_table worker_gpu "release_of [0, 9, 9]"]
    C2_version_rule[of parse_table worker_dev "release_of [1, 2, 3]"]
    C2_version_rule[of parse_table worker_untagged "release_of [1, 2, 3]"]
  by (simp add: parse_table_def worker_gpu_def worker_untagged_def worker_dev_def release_of_def
      VersionSegment_Compare_def)
section \<open>Properties of path cleaning\<close>

lemma splitSlash_nonempty [simp]: "splitSlash s \<noteq> []"
  by (induction s) (auto split: list.splits)

lemma splitSlash_slash_free: "e \<in> set (splitSlash s) \<Longrightarrow> CHR ''/'' \<notin> set e"
  by (induction s arbitrary: e) (auto split: list.splits if_splits)

lemma splitSlash_plain: "CHR ''/'' \<notin> set e \<Longrightarrow> splitSlash e = [e]"
  by (induction e) auto

lemma splitSlash_append:
  "CHR ''/'' \<notin> set e \<Longrightarrow> splitSlash (e @ CHR ''/'' # rest) = e # splitSlash rest"
  by (induction e) auto

lemma splitSlash_join:
  "es \<noteq> [] \<Longrightarrow> \<forall>e \<in> set es. CHR ''/'' \<notin> set e \<Longrightarrow> splitSlash (joinSlash es) = es"
proof (induction es rule: joinSlash.induct)
  case 1
  then show ?case by simp
next
  case (2 e)
  then show ?case by (simp add: splitSlash_plain)
next
  case (3 e v va)
  then show ?case by (simp add: splitSlash_append)
qed

lemma joinSlash_empty: "\<forall>e \<in> set es. e \<noteq> [] \<Longrightarrow> joinSlash es = [] \<longleftrightarrow> es = []"
  by (induction es rule: joinSlash.induct) auto

lemma joinSlash_hd: "es \<noteq> [] \<Longrightarrow> hd es \<noteq> [] \<Longrightarrow> hd (joinSlash es) = hd (hd es)"
  by (induction es rule: joinSlash.induct) auto

lemma cleanForm_elems:
  assumes "cleanForm rooted es" "e \<in> set es"
  shows "e \<noteq> [] \<and> CHR ''/'' \<notin> set e"
proof (cases "e = ''..''")
  case True
  then show ?thesis by simp
next
  case False
  have "normalElem e"
  proof (cases rooted)
    case True
    then show ?thesis using assms by (auto simp: cleanForm_def list_all_iff)
  next
    case nr: False
    have "set es = set (takeWhile (\<lambda>e. e = ''..'') es) \<union> set (dropWhile (\<lambda>e. e = ''..'') es)"
      by (metis set_append takeWhile_dropWhile_id)
    moreover have "e \<notin> set (takeWhile (\<lambda>e. e = ''..'') es)"
      using False by (auto dest: set_takeWhileD)
    ultimately have "e \<in> set (dropWhile (\<lambda>e. e = ''..'') es)"
      using assms(2) by blast
    then show ?thesis using assms(1) nr by (auto simp: cleanForm_def list_all_iff)
  qed
  then show ?thesis by (simp add: normalElem_def)
qed

lemma dropWhile_dots_append:
  assumes "\<not> (\<forall>x \<in> set xs. x = d)"
  shows "dropWhile (\<lambda>e. e = d) (xs @ ys) = dropWhile (\<lambda>e. e = d) xs @ ys"
proof -
  from assms obtain x where "x \<in> set xs" "\<not> (x = d)" by blast
  then show ?thesis by (rule dropWhile_append1[where P = "\<lambda>e. e = d"])
qed

lemma all_dots:
  assumes "list_all normalElem (dropWhile (\<lambda>e. e = ''..'') out)" "out = [] \<or> last out = ''..''"
  shows "\<forall>e \<in> set out. e = ''..''"
proof (rule ccontr)
  assume "\<not> (\<forall>e \<in> set out. e = ''..'')"
  then have ne: "dropWhile (\<lambda>e. e = ''..'') out \<noteq> []" by (simp add: dropWhile_eq_Nil_conv)
  then have "out \<noteq> []" by auto
  have "last (dropWhile (\<lambda>e. e = ''..'') out) = last out"
    using ne by (metis last_appendR takeWhile_dropWhile_id)
  then have "normalElem (last out)" using assms(1) ne
    by (metis last_in_set list_all_iff)
  then show False using assms(2) \<open>out \<noteq> []\<close> by (simp add: normalElem_def)
qed

lemma cleanElements_form:
  "cleanForm rooted out \<Longrightarrow> \<forall>e \<in> set es. CHR ''/'' \<notin> set e \<Longrightarrow>
     cleanForm rooted (cleanElements rooted out es)"
proof (induction es arbitrary: out)
  case Nil
  then show ?case by simp
next
  case (Cons e es)
  have slash: "\<forall>e \<in> set es. CHR ''/'' \<notin> set e" "CHR ''/'' \<notin> set e" using Cons.prems(2) by auto
  consider (skip) "e = '''' \<or> e = ''.''"
    | (pop) "e = ''..''" "out \<noteq> []" "last out \<noteq> ''..''"
    | (pushdd) "e = ''..''" "out = [] \<or> last out = ''..''" "\<not> rooted"
    | (drop) "e = ''..''" "out = [] \<or> last out = ''..''" "rooted"
    | (push) "e \<noteq> ''''" "e \<noteq> ''.''" "e \<noteq> ''..''"
    by blast
  then show ?case
  proof cases
    case skip
    then show ?thesis using Cons.IH[OF Cons.prems(1) slash(1)] by auto
  next
    case pop
    have "cleanForm rooted (butlast out)"
    proof (cases rooted)
      case True
      then show ?thesis using Cons.prems(1) by (auto simp: cleanForm_def list_all_iff dest: in_set_butlastD)
    next
      case False
      have o: "out = butlast out @ [last out]" using pop(2) by simp
      show ?thesis
      proof (cases "\<forall>x \<in> set (butlast out). x = ''..''")
        case True
        then show ?thesis using False by (simp add: cleanForm_def dropWhile_eq_Nil_conv[THEN iffD2])
      next
        case nd: False
        then have "dropWhile (\<lambda>e. e = ''..'') (butlast out @ [last out]) =
            dropWhile (\<lambda>e. e = ''..'') (butlast out) @ [last out]"
          by (rule dropWhile_dots_append)
        then have "dropWhile (\<lambda>e. e = ''..'') out = dropWhile (\<lambda>e. e = ''..'') (butlast out) @ [last out]"
          using pop(2) by (metis append_butlast_last_id)
        then show ?thesis using Cons.prems(1) False by (simp add: cleanForm_def)
      qed
    qed
    from Cons.IH[OF this slash(1)] show ?thesis using pop by simp
  next
    case pushdd
    have "list_all normalElem (dropWhile (\<lambda>e. e = ''..'') out)"
      using Cons.prems(1) pushdd(3) by (simp add: cleanForm_def)
    then have "\<forall>x \<in> set out. x = ''..''" using pushdd(2) by (rule all_dots)
    then have "cleanForm rooted (out @ [''..''])" using pushdd(3)
      by (simp add: cleanForm_def dropWhile_eq_Nil_conv[THEN iffD2])
    from Cons.IH[OF this slash(1)] show ?thesis using pushdd by auto
  next
    case drop
    then show ?thesis using Cons.IH[OF Cons.prems(1) slash(1)] by auto
  next
    case push
    have n: "normalElem e" using push slash(2) by (simp add: normalElem_def)
    have "cleanForm rooted (out @ [e])"
    proof (cases rooted)
      case True
      then show ?thesis using Cons.prems(1) n by (simp add: cleanForm_def)
    next
      case False
      show ?thesis
      proof (cases "\<forall>x \<in> set out. x = ''..''")
        case True
        then have "dropWhile (\<lambda>e. e = ''..'') (out @ [e]) = [e]"
          using push(3) by (simp add: dropWhile_append2)
        then show ?thesis using False n by (simp add: cleanForm_def)
      next
        case nd: False
        then have "dropWhile (\<lambda>e. e = ''..'') (out @ [e]) = dropWhile (\<lambda>e. e = ''..'') out @ [e]"
          by (rule dropWhile_dots_append)
        then show ?thesis using Cons.prems(1) False n by (simp add: cleanForm_def)
      qed
    qed
    from Cons.IH[OF this slash(1)] show ?thesis using push by simp
  qed
qed

lemma cleanElements_fixed:
  "cleanForm rooted (out @ es) \<Longrightarrow> cleanElements rooted out es = out @ es"
proof (induction es arbitrary: out)
  case Nil
  then show ?case by simp
next
  case (Cons e es)
  have form: "cleanForm rooted ((out @ [e]) @ es)" using Cons.prems by simp
  have e: "e \<noteq> []" "CHR ''/'' \<notin> set e" using cleanForm_elems[OF Cons.prems, of e] by auto
  show ?case
  proof (cases "e = ''..''")
    case True
    have nr: "\<not> rooted"
    proof
      assume rooted
      then have "normalElem e" using Cons.prems by (simp add: cleanForm_def)
      then show False using True by (simp add: normalElem_def)
    qed
    have dots: "\<forall>x \<in> set out. x = ''..''"
    proof (rule ccontr)
      assume "\<not> (\<forall>x \<in> set out. x = ''..'')"
      then have "dropWhile (\<lambda>e. e = ''..'') (out @ e # es) = dropWhile (\<lambda>e. e = ''..'') out @ e # es"
        by (rule dropWhile_dots_append)
      then have "normalElem e" using Cons.prems nr by (simp add: cleanForm_def)
      then show False using True by (simp add: normalElem_def)
    qed
    then have "out = [] \<or> last out = ''..''" by (metis last_in_set)
    then show ?thesis using True nr Cons.IH[OF form] by auto
  next
    case False
    have "e \<noteq> ''.''"
    proof
      assume d: "e = ''.''"
      have "normalElem e"
      proof (cases rooted)
        case True
        then show ?thesis using Cons.prems by (simp add: cleanForm_def)
      next
        case nr: False
        have "e \<in> set (dropWhile (\<lambda>e. e = ''..'') (out @ e # es))"
          using d by (induction out) auto
        then show ?thesis using Cons.prems nr by (auto simp: cleanForm_def list_all_iff)
      qed
      then show False using d by (simp add: normalElem_def)
    qed
    then show ?thesis using False e Cons.IH[OF form] by simp
  qed
qed

lemma Clean_idem: "Clean (Clean path) = Clean path"
proof (cases "path = ''''")
  case True
  then show ?thesis by (simp add: Clean_def)
next
  case False
  let ?rooted = "hd path = CHR ''/''"
  let ?E = "cleanElements ?rooted [] (splitSlash path)"
  have form: "cleanForm ?rooted ?E"
    by (rule cleanElements_form) (auto simp: cleanForm_def dest: splitSlash_slash_free)
  have elems: "\<forall>e \<in> set ?E. e \<noteq> [] \<and> CHR ''/'' \<notin> set e"
    using cleanForm_elems[OF form] by blast
  have fixed: "cleanElements ?rooted [] ?E = ?E"
    using cleanElements_fixed[of ?rooted "[]" ?E] form by simp
  show ?thesis
  proof (cases ?rooted)
    case True
    have c: "Clean path = CHR ''/'' # joinSlash ?E" using False True by (simp add: Clean_def)
    have "cleanElements True [] (splitSlash (CHR ''/'' # joinSlash ?E)) = ?E"
    proof (cases "?E = []")
      case e: True
      then show ?thesis by simp
    next
      case ne: False
      then have "splitSlash (joinSlash ?E) = ?E" using elems by (simp add: splitSlash_join)
      then show ?thesis using fixed True by simp
    qed
    then have "Clean (CHR ''/'' # joinSlash ?E) = CHR ''/'' # joinSlash ?E"
      by (simp add: Clean_def)
    then show ?thesis using c by simp
  next
    case nr: False
    show ?thesis
    proof (cases "?E = []")
      case True
      then have "Clean path = ''.''" using False nr by (simp add: Clean_def)
      then show ?thesis by (simp add: Clean_def)
    next
      case ne: False
      have j: "joinSlash ?E \<noteq> []" using joinSlash_empty[of ?E] elems ne by blast
      have c: "Clean path = joinSlash ?E" using False nr j by (simp add: Clean_def Let_def)
      have hd: "hd (joinSlash ?E) \<noteq> CHR ''/''"
      proof -
        have "hd ?E \<in> set ?E" using ne by simp
        then have h: "hd ?E \<noteq> []" "CHR ''/'' \<notin> set (hd ?E)" using elems by auto
        then have "hd (hd ?E) \<noteq> CHR ''/''" by (metis hd_in_set)
        then show ?thesis using joinSlash_hd[OF ne h(1)] by simp
      qed
      have "splitSlash (joinSlash ?E) = ?E" using elems ne by (simp add: splitSlash_join)
      then have "Clean (joinSlash ?E) = joinSlash ?E"
        using j hd fixed nr by (simp add: Clean_def Let_def)
      then show ?thesis using c by simp
    qed
  qed
qed

section \<open>Properties of the mount planner\<close>

lemma allocations_simps [simp]:
  "allocations [] = []"
  "allocations (e # evs) = allocated e @ allocations evs"
  "allocations (evs @ evs') = allocations evs @ allocations evs'"
  by (simp_all add: allocations_def)

lemma planned_refl [simp]: "planned h h"
  by (simp add: planned_def)

lemma planned_trans: "planned h h1 \<Longrightarrow> planned h1 h2 \<Longrightarrow> planned h h2"
  by (auto simp: planned_def)

lemma planned_snoc: "planned (h @ evs0) h' \<Longrightarrow> \<forall>e \<in> set evs0. plannerEvent e \<Longrightarrow> planned h h'"
  by (auto simp: planned_def)

lemma planned_step [simp]: "planned h (h @ [e]) \<longleftrightarrow> plannerEvent e"
  by (auto simp: planned_def)

lemma planned_step2 [simp]: "planned h (h @ [e1, e2]) \<longleftrightarrow> plannerEvent e1 \<and> plannerEvent e2"
  by (auto simp: planned_def)

lemma planned_step3 [simp]:
  "planned h (h @ [e1, e2, e3]) \<longleftrightarrow> plannerEvent e1 \<and> plannerEvent e2 \<and> plannerEvent e3"
  by (auto simp: planned_def)

lemma planner_quiet: "plannerEvent e \<Longrightarrow> \<not> provisionerEvent e"
  by (cases e) auto

lemma planned_quiet: "planned h h' \<Longrightarrow> quiet h h'"
  by (auto simp: planned_def quiet_def planner_quiet)

lemma inputVolumeFor_planned: "inputVolumeFor env h cc spec fi i = (r, h') \<Longrightarrow> planned h h'"
  by (auto simp: inputVolumeFor_def Let_def split: sum.splits option.splits)

lemma inputsLoop_planned: "inputsLoop env cc spec fi ins io paths h = (r, h') \<Longrightarrow> planned h h'"
proof (induction ins arbitrary: io paths h)
  case Nil
  then show ?case by auto
next
  case (Cons i ins)
  from Cons.prems show ?case
    by (auto split: prod.splits sum.splits dest!: Cons.IH inputVolumeFor_planned intro: planned_trans)
qed

lemma outputsLoop_planned: "outputsLoop env cc spec fi outs io paths h = (r, h') \<Longrightarrow> planned h h'"
proof (induction outs arbitrary: io h)
  case Nil
  then show ?case by auto
next
  case (Cons out outs)
  obtain name outputPath where out: "out = (name, outputPath)" by (cases out)
  show ?case
    using Cons.prems unfolding out
    by (auto simp: Let_def split: if_splits sum.splits dest!: Cons.IH planned_snoc)
qed

lemma bindMountsLoop_planned: "bindMountsLoop env ms bms h = (r, h') \<Longrightarrow> planned h h'"
proof (induction ms arbitrary: bms h)
  case Nil
  then show ?case by auto
next
  case (Cons m ms)
  from Cons.prems show ?case
    by (auto simp: Let_def split: sum.splits option.splits dest!: Cons.IH planned_snoc)
qed

lemma volumeMountPlan_planned: "volumeMountPlan env h cc spec fi = (r, h') \<Longrightarrow> planned h h'"
  unfolding volumeMountPlan_def Let_def
  by (auto split: sum.splits prod.splits if_splits
      dest!: inputsLoop_planned outputsLoop_planned planned_snoc intro: planned_trans)

lemma inputVolumeFor_allocation:
  assumes "inputVolumeFor env h cc spec fi i = (Inr v, h')"
  shows "\<exists>evs. h' = h @ evs \<and> allocations evs = [(Clean (in_DestinationPath i), v)]"
  using assms
  by (auto simp: inputVolumeFor_def Let_def split: sum.splits option.splits)

lemma inputMount_prefix:
  "inputMount env (h @ pre0) evs cc spec fi i m \<Longrightarrow> inputMount env h (pre0 @ evs) cc spec fi i m"
  unfolding inputMount_def
  apply (elim conjE exE)
  subgoal for pre mid post
    by (intro conjI, assumption, rule exI[of _ "pre0 @ pre"], rule exI[of _ mid],
        rule exI[of _ post]) simp
  done

lemma inputMount_suffix:
  "inputMount env h evs cc spec fi i m \<Longrightarrow> inputMount env h (evs @ post0) cc spec fi i m"
  unfolding inputMount_def
  apply (elim conjE exE)
  subgoal for pre mid post
    by (intro conjI, assumption, rule exI[of _ pre], rule exI[of _ mid],
        rule exI[of _ "post @ post0"]) simp
  done

lemma inputsLoop_mounts:
  assumes "inputsLoop env cc spec fi ins io paths h = (Inr (io', paths'), h')"
  shows "\<exists>ms evs. io' = io @ ms \<and> h' = h @ evs
           \<and> map vm_MountPath ms = map (\<lambda>i. Clean (in_DestinationPath i)) ins
           \<and> (\<forall>q. paths' q \<longleftrightarrow> paths q \<or> q \<in> set (map (\<lambda>i. Clean (in_DestinationPath i)) ins))
           \<and> allocations evs = map mountAlloc ms
           \<and> list_all2 (inputMount env h evs cc spec fi) ins ms"
  using assms
proof (induction ins arbitrary: io paths h)
  case Nil
  then show ?case by auto
next
  case (Cons i ins)
  obtain r h1 where iv: "inputVolumeFor env h cc spec fi i = (r, h1)" by (metis prod.exhaust)
  show ?case
  proof (cases r)
    case (Inl err)
    then show ?thesis using Cons.prems iv by simp
  next
    case (Inr v)
    let ?m = "\<lparr>vm_Volume = v, vm_MountPath = Clean (in_DestinationPath i)\<rparr>"
    from inputVolumeFor_allocation[OF iv[unfolded Inr]] obtain evs1 where
      h1: "h1 = h @ evs1" and a1: "allocations evs1 = [(Clean (in_DestinationPath i), v)]" by blast
    have "inputsLoop env cc spec fi ins (io @ [?m]) (paths(Clean (in_DestinationPath i) := True)) h1
            = (Inr (io', paths'), h')"
      using Cons.prems iv Inr by simp
    from Cons.IH[OF this] obtain ms evs where
      r: "io' = (io @ [?m]) @ ms" "h' = h1 @ evs"
        "map vm_MountPath ms = map (\<lambda>i. Clean (in_DestinationPath i)) ins"
        "\<forall>q. paths' q \<longleftrightarrow> (paths(Clean (in_DestinationPath i) := True)) q
              \<or> q \<in> set (map (\<lambda>i. Clean (in_DestinationPath i)) ins)"
        "allocations evs = map mountAlloc ms"
        "list_all2 (inputMount env h1 evs cc spec fi) ins ms"
      by blast
    have hd: "inputMount env h (evs1 @ evs) cc spec fi i ?m"
      unfolding inputMount_def
      by (intro conjI, simp, rule exI[of _ "[]"], rule exI[of _ evs1], rule exI[of _ evs])
        (use iv Inr h1 in simp)
    have tl: "list_all2 (inputMount env h (evs1 @ evs) cc spec fi) ins ms"
      using r(6) unfolding h1 by (rule list_all2_mono) (rule inputMount_prefix)
    show ?thesis
      apply (rule exI[of _ "?m # ms"], rule exI[of _ "evs1 @ evs"])
      using r(1-5) h1 a1 hd tl by (auto simp: mountAlloc_def)
  qed
qed

lemma outputsLoop_mounts:
  assumes "outputsLoop env cc spec fi outs io paths h = (Inr io', h')"
  shows "\<exists>ms evs. io' = io @ ms \<and> h' = h @ evs
           \<and> map vm_MountPath ms = filter (\<lambda>q. \<not> paths q) (map (\<lambda>out. Clean (snd out)) outs)
           \<and> allocations evs = map mountAlloc ms"
  using assms
proof (induction outs arbitrary: io h)
  case Nil
  then show ?case by auto
next
  case (Cons out outs)
  obtain name outputPath where out: "out = (name, outputPath)" by (cases out)
  show ?case
  proof (cases "paths (Clean outputPath)")
    case True
    then have "outputsLoop env cc spec fi outs io paths h = (Inr io', h')"
      using Cons.prems out by simp
    from Cons.IH[OF this] show ?thesis using True out by simp
  next
    case False
    let ?r = "FindOrCreateVolumeForContainer env h (emptyVolumeSpec fi) cc (cs_TeamID spec) (Clean outputPath)"
    show ?thesis
    proof (cases ?r)
      case (Inl err)
      then show ?thesis using Cons.prems out False by (simp add: Let_def)
    next
      case (Inr v)
      let ?m = "\<lparr>vm_Volume = v, vm_MountPath = Clean outputPath\<rparr>"
      let ?e = "EvFindOrCreateVolumeForContainer (emptyVolumeSpec fi) cc (cs_TeamID spec) (Clean outputPath) (Inr v)"
      have "outputsLoop env cc spec fi outs (io @ [?m]) paths (h @ [?e]) = (Inr io', h')"
        using Cons.prems out False Inr by (simp add: Let_def)
      from Cons.IH[OF this] obtain ms evs where
        r: "io' = (io @ [?m]) @ ms" "h' = (h @ [?e]) @ evs"
          "map vm_MountPath ms = filter (\<lambda>q. \<not> paths q) (map (\<lambda>out. Clean (snd out)) outs)"
          "allocations evs = map mountAlloc ms"
        by blast
      show ?thesis
        apply (rule exI[of _ "?m # ms"], rule exI[of _ "?e # evs"])
        using r False out by (auto simp: mountAlloc_def)
    qed
  qed
qed

lemma planned_allocations_bind:
  "bindMountsLoop env ms bms h = (r, h') \<Longrightarrow> \<exists>evs. h' = h @ evs \<and> allocations evs = []"
proof (induction ms arbitrary: bms h)
  case Nil
  then show ?case by auto
next
  case (Cons m ms)
  from Cons.prems show ?case
    by (auto simp: Let_def split: sum.splits option.splits dest!: Cons.IH)
qed

lemma bindMountsLoop_extras:
  "bindMountsLoop env ms bms h = (Inr bms', h') \<Longrightarrow>
     \<exists>extras. bms' = bms @ extras \<and> length extras \<le> length ms"
proof (induction ms arbitrary: bms h)
  case Nil
  then show ?case by auto
next
  case (Cons m ms)
  from Cons.prems show ?case
    by (fastforce simp: Let_def split: sum.splits option.splits dest!: Cons.IH)
qed

lemma anyMountTo_iff: "anyMountTo path ps \<longleftrightarrow> Clean path \<in> Clean ` set ps"
  by (induction ps) auto

lemma inputs_paths: "getDestinationPathsFromInputs ins = map in_DestinationPath ins"
  by (induction ins) auto

lemma outputs_paths: "getDestinationPathsFromOutputs outs = map snd outs"
  by (induction outs) auto

lemma foundBindMounts_simps [simp]:
  "foundBindMounts [] = []"
  "foundBindMounts (e # evs) = foundBindMount e @ foundBindMounts evs"
  "foundBindMounts (evs @ evs') = foundBindMounts evs @ foundBindMounts evs'"
  by (simp_all add: foundBindMounts_def)

lemma allocated_foundBindMount: "foundBindMount e \<noteq> [] \<Longrightarrow> allocated e = []"
  by (cases e) auto

lemma inputVolumeFor_no_bind:
  "inputVolumeFor env h cc spec fi i = (r, h @ evs) \<Longrightarrow> foundBindMounts evs = []"
  by (auto simp: inputVolumeFor_def Let_def split: sum.splits option.splits)

lemma inputsLoop_no_bind:
  "inputsLoop env cc spec fi ins io paths h = (r, h @ evs) \<Longrightarrow> foundBindMounts evs = []"
proof (induction ins arbitrary: io paths h evs)
  case Nil
  then show ?case by auto
next
  case (Cons i ins)
  obtain r1 h1 where iv: "inputVolumeFor env h cc spec fi i = (r1, h1)" by (metis prod.exhaust)
  from inputVolumeFor_planned[OF iv] obtain evs1 where h1: "h1 = h @ evs1"
    unfolding planned_def by blast
  have b1: "foundBindMounts evs1 = []" using inputVolumeFor_no_bind iv h1 by blast
  show ?case
  proof (cases r1)
    case (Inl err)
    then show ?thesis using Cons.prems iv h1 b1 by auto
  next
    case (Inr v)
    let ?m = "\<lparr>vm_Volume = v, vm_MountPath = Clean (in_DestinationPath i)\<rparr>"
    have run: "inputsLoop env cc spec fi ins (io @ [?m]) (paths(Clean (in_DestinationPath i) := True)) h1
            = (r, h @ evs)"
      using Cons.prems iv Inr by simp
    from inputsLoop_planned[OF run] obtain evs2 where "h @ evs = h1 @ evs2"
      unfolding planned_def by blast
    then have e: "evs = evs1 @ evs2" using h1 by simp
    then have "inputsLoop env cc spec fi ins (io @ [?m]) (paths(Clean (in_DestinationPath i) := True)) h1
            = (r, h1 @ evs2)" using run h1 by simp
    from Cons.IH[OF this] show ?thesis using e b1 by simp
  qed
qed

lemma outputsLoop_no_bind:
  "outputsLoop env cc spec fi outs io paths h = (r, h @ evs) \<Longrightarrow> foundBindMounts evs = []"
proof (induction outs arbitrary: io h evs)
  case Nil
  then show ?case by auto
next
  case (Cons out outs)
  obtain name outputPath where out: "out = (name, outputPath)" by (cases out)
  show ?case
  proof (cases "paths (Clean outputPath)")
    case True
    then show ?thesis using Cons.prems Cons.IH out by simp
  next
    case False
    let ?r = "FindOrCreateVolumeForContainer env h (emptyVolumeSpec fi) cc (cs_TeamID spec) (Clean outputPath)"
    let ?e = "EvFindOrCreateVolumeForContainer (emptyVolumeSpec fi) cc (cs_TeamID spec) (Clean outputPath) ?r"
    show ?thesis
    proof (cases ?r)
      case (Inl err)
      then show ?thesis using Cons.prems out False by (auto simp: Let_def)
    next
      case (Inr v)
      let ?m = "\<lparr>vm_Volume = v, vm_MountPath = Clean outputPath\<rparr>"
      have run: "outputsLoop env cc spec fi outs (io @ [?m]) paths (h @ [?e]) = (r, h @ evs)"
        using Cons.prems out False Inr by (simp add: Let_def)
      from outputsLoop_planned[OF run] obtain evs2 where "h @ evs = (h @ [?e]) @ evs2"
        unfolding planned_def by blast
      then have e: "evs = ?e # evs2" by simp
      then have "outputsLoop env cc spec fi outs (io @ [?m]) paths (h @ [?e]) = (r, (h @ [?e]) @ evs2)"
        using run by simp
      from Cons.IH[OF this] show ?thesis using e by simp
    qed
  qed
qed

lemma bindMountsLoop_found:
  "bindMountsLoop env ms bms h = (Inr bms', h @ evs) \<Longrightarrow>
     bms' = bms @ foundBindMounts evs \<and> allocations evs = []
     \<and> length (foundBindMounts evs) \<le> length ms"
proof (induction ms arbitrary: bms h evs)
  case Nil
  then show ?case by auto
next
  case (Cons m ms)
  let ?r = "BindMountVolumeOn env h m"
  let ?e = "EvBindMountVolumeOn m ?r"
  obtain found where r: "?r = Inr found" using Cons.prems by (auto simp: Let_def split: sum.splits)
  let ?bms1 = "case found of None \<Rightarrow> bms | Some bm \<Rightarrow> bms @ [bm]"
  have run: "bindMountsLoop env ms ?bms1 (h @ [?e]) = (Inr bms', h @ evs)"
    using Cons.prems r by (auto simp: Let_def split: option.splits)
  from bindMountsLoop_planned[OF run] obtain evs2 where "h @ evs = (h @ [?e]) @ evs2"
    unfolding planned_def by blast
  then have e: "evs = ?e # evs2" by simp
  then have "bindMountsLoop env ms ?bms1 (h @ [?e]) = (Inr bms', (h @ [?e]) @ evs2)"
    using run by simp
  from Cons.IH[OF this] show ?case using e r by (auto split: option.splits)
qed

lemma volumeMountPlan_mounts:
  assumes "volumeMountPlan env h cc spec fi = (Inr (vms, io), h')"
  shows "\<exists>evs. h' = h @ evs \<and> (\<forall>e \<in> set evs. plannerEvent e)
           \<and> foundBindMounts evs = []
           \<and> allocations evs = map mountAlloc (vms @ io)
           \<and> map vm_MountPath vms = fixedMountPaths spec
           \<and> map vm_MountPath io = inputPaths spec @ unclaimedOutputPaths spec
           \<and> (\<exists>ins outs. io = ins @ outs \<and> map vm_MountPath outs = unclaimedOutputPaths spec
                 \<and> list_all2 (inputMount env h evs cc spec fi) (cs_Inputs spec) ins)"
proof -
  let ?r1 = "FindOrCreateVolumeForContainer env h (emptyVolumeSpec fi) cc (cs_TeamID spec) ''/scratch''"
  obtain sv where r1: "?r1 = Inr sv"
    using assms by (auto simp: volumeMountPlan_def Let_def split: sum.splits)
  let ?e1 = "EvFindOrCreateVolumeForContainer (emptyVolumeSpec fi) cc (cs_TeamID spec) ''/scratch'' (Inr sv)"
  let ?h1 = "h @ [?e1]"
  let ?sm = "\<lparr>vm_Volume = sv, vm_MountPath = ''/scratch''\<rparr>"
  let ?r2 = "FindOrCreateVolumeForContainer env ?h1 (emptyVolumeSpec fi) cc (cs_TeamID spec) (cs_Dir spec)"
  have "\<exists>evs2 wd. vms = ?sm # wd \<and> map vm_MountPath wd = (if workdirAllocated spec then [cs_Dir spec] else [])
      \<and> allocations evs2 = map mountAlloc wd \<and> (\<forall>e \<in> set evs2. plannerEvent e)
      \<and> foundBindMounts evs2 = []
      \<and> (case inputsLoop env cc spec fi (cs_Inputs spec) [] (\<lambda>path. False) (?h1 @ evs2) of
            (Inl err, h3) \<Rightarrow> (Inl err, h3)
          | (Inr (ioVolumeMounts, inputDestinationPaths), h3) \<Rightarrow>
              (case outputsLoop env cc spec fi (cs_Outputs spec) ioVolumeMounts inputDestinationPaths h3 of
                 (Inl err, h4) \<Rightarrow> (Inl err, h4)
               | (Inr ioVolumeMounts, h4) \<Rightarrow> (Inr (vms, ioVolumeMounts), h4)))
          = (Inr (vms, io), h')"
  proof (cases "workdirAllocated spec")
    case True
    then obtain wv where r2: "?r2 = Inr wv"
      using assms r1
      by (auto simp: volumeMountPlan_def workdirAllocated_def Let_def split: sum.splits prod.splits)
    let ?e2 = "EvFindOrCreateVolumeForContainer (emptyVolumeSpec fi) cc (cs_TeamID spec) (cs_Dir spec) (Inr wv)"
    let ?wm = "\<lparr>vm_Volume = wv, vm_MountPath = cs_Dir spec\<rparr>"
    show ?thesis
      apply (rule exI[of _ "[?e2]"], rule exI[of _ "[?wm]"])
      using assms r1 r2 True
      by (auto simp: volumeMountPlan_def workdirAllocated_def Let_def mountAlloc_def
          split: sum.splits prod.splits)
  next
    case False
    show ?thesis
      apply (rule exI[of _ "[]"], rule exI[of _ "[]"])
      using assms r1 False
      by (auto simp: volumeMountPlan_def workdirAllocated_def Let_def
          split: sum.splits prod.splits)
  qed
  then obtain evs2 wd where
    vms: "vms = ?sm # wd" and
    wd: "map vm_MountPath wd = (if workdirAllocated spec then [cs_Dir spec] else [])" and
    a2: "allocations evs2 = map mountAlloc wd" and p2: "\<forall>e \<in> set evs2. plannerEvent e" and
    b2: "foundBindMounts evs2 = []" and
    rest: "(case inputsLoop env cc spec fi (cs_Inputs spec) [] (\<lambda>path. False) (?h1 @ evs2) of
            (Inl err, h3) \<Rightarrow> (Inl err, h3)
          | (Inr (ioVolumeMounts, inputDestinationPaths), h3) \<Rightarrow>
              (case outputsLoop env cc spec fi (cs_Outputs spec) ioVolumeMounts inputDestinationPaths h3 of
                 (Inl err, h4) \<Rightarrow> (Inl err, h4)
               | (Inr ioVolumeMounts, h4) \<Rightarrow> (Inr (vms, ioVolumeMounts), h4)))
          = (Inr (vms, io), h')"
    by blast
  obtain io1 paths1 h3 where il:
    "inputsLoop env cc spec fi (cs_Inputs spec) [] (\<lambda>path. False) (?h1 @ evs2) = (Inr (io1, paths1), h3)"
    using rest by (auto split: sum.splits prod.splits)
  then have ol: "outputsLoop env cc spec fi (cs_Outputs spec) io1 paths1 h3 = (Inr io, h')"
    using rest by (auto split: sum.splits prod.splits)
  from inputsLoop_mounts[OF il] obtain ms3 evs3 where
    i3: "io1 = ms3" "h3 = (?h1 @ evs2) @ evs3"
      "map vm_MountPath ms3 = map (\<lambda>i. Clean (in_DestinationPath i)) (cs_Inputs spec)"
      "\<forall>q. paths1 q \<longleftrightarrow> q \<in> set (map (\<lambda>i. Clean (in_DestinationPath i)) (cs_Inputs spec))"
      "allocations evs3 = map mountAlloc ms3"
      "list_all2 (inputMount env (?h1 @ evs2) evs3 cc spec fi) (cs_Inputs spec) ms3"
    by auto
  from outputsLoop_mounts[OF ol] obtain ms4 evs4 where
    o4: "io = io1 @ ms4" "h' = h3 @ evs4"
      "map vm_MountPath ms4 = filter (\<lambda>q. \<not> paths1 q) (map (\<lambda>out. Clean (snd out)) (cs_Outputs spec))"
      "allocations evs4 = map mountAlloc ms4"
    by blast
  have p3: "\<forall>e \<in> set evs3. plannerEvent e"
    using inputsLoop_planned[OF il] i3(2) by (auto simp: planned_def)
  have p4: "\<forall>e \<in> set evs4. plannerEvent e"
    using outputsLoop_planned[OF ol] o4(2) by (auto simp: planned_def)
  have b3: "foundBindMounts evs3 = []" using inputsLoop_no_bind il i3(2) by blast
  have b4: "foundBindMounts evs4 = []" using outputsLoop_no_bind ol o4(2) by blast
  have f: "filter (\<lambda>q. \<not> paths1 q) (map (\<lambda>out. Clean (snd out)) (cs_Outputs spec))
      = unclaimedOutputPaths spec"
    using i3(4) by (simp add: unclaimedOutputPaths_def inputPaths_def outputPaths_def)
  have "list_all2 (inputMount env (h @ ?e1 # evs2) (evs3 @ evs4) cc spec fi) (cs_Inputs spec) ms3"
    using i3(6) by (rule list_all2_mono) (simp add: inputMount_suffix)
  then have seg: "list_all2 (inputMount env h ((?e1 # evs2) @ evs3 @ evs4) cc spec fi) (cs_Inputs spec) ms3"
    by (rule list_all2_mono) (rule inputMount_prefix)
  have io: "\<exists>ins outs. io = ins @ outs \<and> map vm_MountPath outs = unclaimedOutputPaths spec
      \<and> list_all2 (inputMount env h (?e1 # evs2 @ evs3 @ evs4) cc spec fi) (cs_Inputs spec) ins"
    apply (rule exI[of _ ms3], rule exI[of _ ms4])
    using seg o4(1,3) i3(1) f by simp
  show ?thesis
    apply (rule exI[of _ "?e1 # evs2 @ evs3 @ evs4"])
    using vms wd a2 p2 p3 p4 b2 b3 b4 i3(1-5) o4 f io
    by (auto simp: fixedMountPaths_def inputPaths_def mountAlloc_def)
qed

lemma planner_not_create:
  "\<forall>e \<in> set evs. plannerEvent e \<Longrightarrow> EvCreate gs r \<notin> set evs"
  by force

lemma createGardenContainer_plan:
  assumes "createGardenContainer env p h cc spec fi = (res, h')"
  shows "\<exists>evs. h' = h @ evs \<and>
           (\<forall>gs r. EvCreate gs r \<in> set evs \<longrightarrow>
              (\<exists>vms io pl rest.
                 volumeMountPlan env h cc spec fi = (Inr (vms, io), h @ pl) \<and> evs = pl @ rest
                 \<and> gs_BindMounts gs = foundBindMounts evs @ map toBindMount (vms @ sortByMountPath io)
                 \<and> length (foundBindMounts evs) \<le> length (cs_BindMounts spec)
                 \<and> allocations evs = map mountAlloc (vms @ io)
                 \<and> map vm_MountPath vms = fixedMountPaths spec
                 \<and> map vm_MountPath io = inputPaths spec @ unclaimedOutputPaths spec
                 \<and> (\<exists>ins outs. io = ins @ outs \<and> map vm_MountPath outs = unclaimedOutputPaths spec
                       \<and> list_all2 (inputMount env h evs cc spec fi) (cs_Inputs spec) ins)))"
proof -
  obtain r4 h4 where vp: "volumeMountPlan env h cc spec fi = (r4, h4)" by (metis prod.exhaust)
  from volumeMountPlan_planned[OF vp] obtain evs4 where
    h4: "h4 = h @ evs4" and p4: "\<forall>e \<in> set evs4. plannerEvent e"
    unfolding planned_def by blast
  show ?thesis
  proof (cases r4)
    case (Inl err)
    then have "h' = h @ evs4" using assms vp h4 by (simp add: createGardenContainer_def)
    moreover have "\<forall>gs r. EvCreate gs r \<notin> set evs4" using planner_not_create[OF p4] by blast
    ultimately show ?thesis by (intro exI[of _ evs4]) simp
  next
    case (Inr pair)
    obtain vms io where pair: "pair = (vms, io)" by (cases pair)
    have vp': "volumeMountPlan env h cc spec fi = (Inr (vms, io), h @ evs4)"
      using vp Inr pair h4 by simp
    from volumeMountPlan_mounts[OF vp'] have m:
      "foundBindMounts evs4 = []" "allocations evs4 = map mountAlloc (vms @ io)"
      "map vm_MountPath vms = fixedMountPaths spec"
      "map vm_MountPath io = inputPaths spec @ unclaimedOutputPaths spec"
      "\<exists>ins outs. io = ins @ outs \<and> map vm_MountPath outs = unclaimedOutputPaths spec
         \<and> list_all2 (inputMount env h evs4 cc spec fi) (cs_Inputs spec) ins"
      by auto
    obtain r5 h5 where bl: "bindMountsLoop env (cs_BindMounts spec) [] h4 = (r5, h5)"
      by (metis prod.exhaust)
    from bindMountsLoop_planned[OF bl] obtain evs5 where
      h5: "h5 = h4 @ evs5" and p5: "\<forall>e \<in> set evs5. plannerEvent e"
      unfolding planned_def by blast
    show ?thesis
    proof (cases r5)
      case (Inl err)
      then have "h' = h @ evs4 @ evs5"
        using assms vp Inr pair bl h4 h5 by (simp add: createGardenContainer_def)
      moreover have "\<forall>gs r. EvCreate gs r \<notin> set (evs4 @ evs5)"
        using planner_not_create[OF p4] planner_not_create[OF p5] by auto
      ultimately show ?thesis by (intro exI[of _ "evs4 @ evs5"]) simp
    next
      case extras: (Inr bms)
      have bl': "bindMountsLoop env (cs_BindMounts spec) [] h4 = (Inr bms, h4 @ evs5)"
        using bl extras h5 by simp
      from bindMountsLoop_found[OF bl'] have b:
        "bms = foundBindMounts evs5" "allocations evs5 = []"
        "length (foundBindMounts evs5) \<le> length (cs_BindMounts spec)"
        by auto
      let ?gs = "\<lparr>gs_Handle = cc_Handle cc, gs_RootFSPath = fi_URL fi,
             gs_Privileged = fi_Privileged fi,
             gs_BindMounts = bms @ map toBindMount (vms @ sortByMountPath io),
             gs_Limits = cs_Limits spec, gs_Env = containerEnv p spec fi,
             gs_Properties = [(userPropertyName,
               if cs_User spec \<noteq> '''' then cs_User spec else im_User (fi_Metadata fi))]\<rparr>"
      let ?ec = "EvCreate ?gs (Create env h5 ?gs)"
      have h': "h' = h @ evs4 @ evs5 @ [?ec]"
        using assms vp Inr pair bl extras h4 h5 by (auto simp: createGardenContainer_def Let_def)
      have only: "\<And>gs r. EvCreate gs r \<in> set (evs4 @ evs5 @ [?ec]) \<Longrightarrow> gs = ?gs"
        using planner_not_create[OF p4] planner_not_create[OF p5] by auto
      from m(5) obtain ins outs where io:
        "io = ins @ outs" "map vm_MountPath outs = unclaimedOutputPaths spec"
        "list_all2 (inputMount env h evs4 cc spec fi) (cs_Inputs spec) ins"
        by blast
      have "list_all2 (inputMount env h (evs4 @ evs5 @ [?ec]) cc spec fi) (cs_Inputs spec) ins"
        using io(3) by (rule list_all2_mono) (rule inputMount_suffix)
      then have seg: "\<exists>ins outs. io = ins @ outs \<and> map vm_MountPath outs = unclaimedOutputPaths spec
          \<and> list_all2 (inputMount env h (evs4 @ evs5 @ [?ec]) cc spec fi) (cs_Inputs spec) ins"
        using io(1,2) by blast
      have "\<forall>gs r. EvCreate gs r \<in> set (evs4 @ evs5 @ [?ec]) \<longrightarrow>
              (\<exists>vms io pl rest.
                 volumeMountPlan env h cc spec fi = (Inr (vms, io), h @ pl)
                 \<and> evs4 @ evs5 @ [?ec] = pl @ rest
                 \<and> gs_BindMounts gs = foundBindMounts (evs4 @ evs5 @ [?ec])
                      @ map toBindMount (vms @ sortByMountPath io)
                 \<and> length (foundBindMounts (evs4 @ evs5 @ [?ec])) \<le> length (cs_BindMounts spec)
                 \<and> allocations (evs4 @ evs5 @ [?ec]) = map mountAlloc (vms @ io)
                 \<and> map vm_MountPath vms = fixedMountPaths spec
                 \<and> map vm_MountPath io = inputPaths spec @ unclaimedOutputPaths spec
                 \<and> (\<exists>ins outs. io = ins @ outs \<and> map vm_MountPath outs = unclaimedOutputPaths spec
                       \<and> list_all2 (inputMount env h (evs4 @ evs5 @ [?ec]) cc spec fi)
                             (cs_Inputs spec) ins))"
      proof (intro allI impI)
        fix gs r assume "EvCreate gs r \<in> set (evs4 @ evs5 @ [?ec])"
        then have gs: "gs = ?gs" by (rule only)
        show "\<exists>vms io pl rest.
                 volumeMountPlan env h cc spec fi = (Inr (vms, io), h @ pl)
                 \<and> evs4 @ evs5 @ [?ec] = pl @ rest
                 \<and> gs_BindMounts gs = foundBindMounts (evs4 @ evs5 @ [?ec])
                      @ map toBindMount (vms @ sortByMountPath io)
                 \<and> length (foundBindMounts (evs4 @ evs5 @ [?ec])) \<le> length (cs_BindMounts spec)
                 \<and> allocations (evs4 @ evs5 @ [?ec]) = map mountAlloc (vms @ io)
                 \<and> map vm_MountPath vms = fixedMountPaths spec
                 \<and> map vm_MountPath io = inputPaths spec @ unclaimedOutputPaths spec
                 \<and> (\<exists>ins outs. io = ins @ outs \<and> map vm_MountPath outs = unclaimedOutputPaths spec
                       \<and> list_all2 (inputMount env h (evs4 @ evs5 @ [?ec]) cc spec fi)
                             (cs_Inputs spec) ins)"
          apply (rule exI[of _ vms], rule exI[of _ io], rule exI[of _ evs4],
              rule exI[of _ "evs5 @ [?ec]"])
          using vp' m(1-4) b gs seg by simp
      qed
      then show ?thesis using h' by (intro exI[of _ "evs4 @ evs5 @ [?ec]"]) simp
    qed
  qed
qed

lemma bindMountQueries_simps [simp]:
  "bindMountQueries [] = []"
  "bindMountQueries (e # evs) = bindMountQuery e @ bindMountQueries evs"
  "bindMountQueries (evs @ evs') = bindMountQueries evs @ bindMountQueries evs'"
  by (simp_all add: bindMountQueries_def)

lemma bindMountsAnswered_append:
  "bindMountsAnswered env h (evs @ evs') \<longleftrightarrow>
     bindMountsAnswered env h evs \<and> bindMountsAnswered env (h @ evs) evs'"
  by (induction env h evs rule: bindMountsAnswered.induct) auto

lemma volumeEvents_no_bind:
  "\<forall>e \<in> set evs. volumeEvent e \<Longrightarrow> bindMountQueries evs = [] \<and> bindMountsAnswered env h evs"
proof (induction evs arbitrary: h)
  case Nil
  then show ?case by simp
next
  case (Cons e evs)
  then show ?case by (cases e) auto
qed

lemma allocating_refl [simp]: "allocating h h"
  by (simp add: allocating_def)

lemma allocating_trans: "allocating h h1 \<Longrightarrow> allocating h1 h2 \<Longrightarrow> allocating h h2"
  by (auto simp: allocating_def)

lemma allocating_snoc:
  "allocating (h @ evs0) h' \<Longrightarrow> \<forall>e \<in> set evs0. volumeEvent e \<Longrightarrow> allocating h h'"
  by (auto simp: allocating_def)

lemma allocating_step [simp]: "allocating h (h @ [e]) \<longleftrightarrow> volumeEvent e"
  by (auto simp: allocating_def)

lemma allocating_step2 [simp]:
  "allocating h (h @ [e1, e2]) \<longleftrightarrow> volumeEvent e1 \<and> volumeEvent e2"
  by (auto simp: allocating_def)

lemma allocating_step3 [simp]:
  "allocating h (h @ [e1, e2, e3]) \<longleftrightarrow> volumeEvent e1 \<and> volumeEvent e2 \<and> volumeEvent e3"
  by (auto simp: allocating_def)

lemma inputVolumeFor_allocating:
  "inputVolumeFor env h cc spec fi i = (r, h') \<Longrightarrow> allocating h h'"
  by (auto simp: inputVolumeFor_def Let_def split: sum.splits option.splits)

lemma inputsLoop_allocating:
  "inputsLoop env cc spec fi ins io paths h = (r, h') \<Longrightarrow> allocating h h'"
proof (induction ins arbitrary: io paths h)
  case Nil
  then show ?case by auto
next
  case (Cons i ins)
  from Cons.prems show ?case
    by (auto split: prod.splits sum.splits
        dest!: Cons.IH inputVolumeFor_allocating intro: allocating_trans)
qed

lemma outputsLoop_allocating:
  "outputsLoop env cc spec fi outs io paths h = (r, h') \<Longrightarrow> allocating h h'"
proof (induction outs arbitrary: io h)
  case Nil
  then show ?case by auto
next
  case (Cons out outs)
  obtain name outputPath where out: "out = (name, outputPath)" by (cases out)
  show ?case
    using Cons.prems unfolding out
    by (auto simp: Let_def split: if_splits sum.splits dest!: Cons.IH allocating_snoc)
qed

lemma volumeMountPlan_allocating:
  "volumeMountPlan env h cc spec fi = (r, h') \<Longrightarrow> allocating h h'"
  unfolding volumeMountPlan_def Let_def
  by (auto split: sum.splits prod.splits if_splits
      dest!: inputsLoop_allocating outputsLoop_allocating allocating_snoc intro: allocating_trans)

lemma bindMountsLoop_queries:
  "bindMountsLoop env ms bms h = (Inr bms', h @ evs) \<Longrightarrow>
     bindMountQueries evs = ms \<and> bindMountsAnswered env h evs"
proof (induction ms arbitrary: bms h evs)
  case Nil
  then show ?case by auto
next
  case (Cons m ms)
  let ?r = "BindMountVolumeOn env h m"
  let ?e = "EvBindMountVolumeOn m ?r"
  obtain found where r: "?r = Inr found" using Cons.prems by (auto simp: Let_def split: sum.splits)
  let ?bms1 = "case found of None \<Rightarrow> bms | Some bm \<Rightarrow> bms @ [bm]"
  have run: "bindMountsLoop env ms ?bms1 (h @ [?e]) = (Inr bms', h @ evs)"
    using Cons.prems r by (auto simp: Let_def split: option.splits)
  from bindMountsLoop_planned[OF run] obtain evs2 where "h @ evs = (h @ [?e]) @ evs2"
    unfolding planned_def by blast
  then have e: "evs = ?e # evs2" by simp
  then have "bindMountsLoop env ms ?bms1 (h @ [?e]) = (Inr bms', (h @ [?e]) @ evs2)"
    using run by simp
  from Cons.IH[OF this] show ?case using e by simp
qed

lemma createGardenContainer_extras:
  assumes "snd (createGardenContainer env p h cc spec fi) = h @ evs"
    and "EvCreate gs r \<in> set evs"
  shows "bindMountQueries evs = cs_BindMounts spec \<and> bindMountsAnswered env h evs"
proof -
  obtain r4 h4 where vp: "volumeMountPlan env h cc spec fi = (r4, h4)" by (metis prod.exhaust)
  from volumeMountPlan_allocating[OF vp] obtain evs4 where
    h4: "h4 = h @ evs4" and v4: "\<forall>e \<in> set evs4. volumeEvent e"
    unfolding allocating_def by blast
  have nc4: "EvCreate gs r \<notin> set evs4" using v4 by force
  show ?thesis
  proof (cases r4)
    case (Inl err)
    then have "evs = evs4" using assms(1) vp h4 by (simp add: createGardenContainer_def)
    then show ?thesis using assms(2) nc4 by simp
  next
    case (Inr pair)
    obtain vms io where pair: "pair = (vms, io)" by (cases pair)
    obtain r5 h5 where bl: "bindMountsLoop env (cs_BindMounts spec) [] h4 = (r5, h5)"
      by (metis prod.exhaust)
    from bindMountsLoop_planned[OF bl] obtain evs5 where
      h5: "h5 = h4 @ evs5" and p5: "\<forall>e \<in> set evs5. plannerEvent e"
      unfolding planned_def by blast
    have nc5: "EvCreate gs r \<notin> set evs5" using planner_not_create[OF p5] by blast
    show ?thesis
    proof (cases r5)
      case (Inl err)
      then have "evs = evs4 @ evs5"
        using assms(1) vp Inr pair bl h4 h5 by (simp add: createGardenContainer_def)
      then show ?thesis using assms(2) nc4 nc5 by simp
    next
      case extras: (Inr bms)
      have "bindMountsLoop env (cs_BindMounts spec) [] (h @ evs4) = (Inr bms, (h @ evs4) @ evs5)"
        using bl extras h4 h5 by simp
      from bindMountsLoop_queries[OF this] have
        q5: "bindMountQueries evs5 = cs_BindMounts spec"
        and a5: "bindMountsAnswered env (h @ evs4) evs5"
        by auto
      obtain ec where ec: "evs = evs4 @ evs5 @ [ec]" "bindMountQuery ec = []"
        "bindMountsAnswered env (h @ evs4 @ evs5) [ec]"
        using assms(1) vp Inr pair bl extras h4 h5
        by (auto simp: createGardenContainer_def Let_def)
      show ?thesis
        using ec q5 a5 volumeEvents_no_bind[OF v4, of env h]
        by (simp add: bindMountsAnswered_append)
    qed
  qed
qed

lemma map_sortByMountPath:
  "map vm_MountPath (sortByMountPath io) = sort (map vm_MountPath io)"
  unfolding sortByMountPath_def
  by (rule properties_for_sort[symmetric]) simp_all

lemma list_all2_filter:
  assumes "list_all2 R xs ys" and "\<And>x y. R x y \<Longrightarrow> P x \<longleftrightarrow> Q y"
  shows "list_all2 R (filter P xs) (filter Q ys)"
  using assms(1)
proof (induction rule: list_all2_induct)
  case Nil
  then show ?case by simp
next
  case (Cons x xs y ys)
  then show ?case using assms(2)[of x y] by auto
qed

lemma VolumeMount_eq:
  "(m :: VolumeMount) = \<lparr>vm_Volume = vm_Volume m, vm_MountPath = vm_MountPath m\<rparr>"
  by (cases m) simp

lemma Clean_scratch: "Clean ''/scratch'' = ''/scratch''"
  by (simp add: Clean_def)

lemma workdir_unclaimed:
  assumes "workdirAllocated spec"
  shows "Clean (cs_Dir spec) \<notin> set (inputPaths spec)"
    and "Clean (cs_Dir spec) \<notin> set (outputPaths spec)"
    and "cs_Dir spec \<notin> set (inputPaths spec)"
    and "cs_Dir spec \<notin> set (outputPaths spec)"
proof -
  show a: "Clean (cs_Dir spec) \<notin> set (inputPaths spec)"
    using assms
    by (auto simp: workdirAllocated_def anyMountTo_iff inputs_paths inputPaths_def)
  show b: "Clean (cs_Dir spec) \<notin> set (outputPaths spec)"
    using assms
    by (auto simp: workdirAllocated_def anyMountTo_iff outputs_paths outputPaths_def)
  show "cs_Dir spec \<notin> set (inputPaths spec)"
  proof
    assume "cs_Dir spec \<in> set (inputPaths spec)"
    then obtain i where "i \<in> set (cs_Inputs spec)" "cs_Dir spec = Clean (in_DestinationPath i)"
      by (auto simp: inputPaths_def)
    then have "Clean (cs_Dir spec) = cs_Dir spec" by (simp add: Clean_idem)
    then show False using a \<open>cs_Dir spec \<in> set (inputPaths spec)\<close> by simp
  qed
  show "cs_Dir spec \<notin> set (outputPaths spec)"
  proof
    assume "cs_Dir spec \<in> set (outputPaths spec)"
    then obtain out where "out \<in> set (cs_Outputs spec)" "cs_Dir spec = Clean (snd out)"
      by (auto simp: outputPaths_def)
    then have "Clean (cs_Dir spec) = cs_Dir spec" by (simp add: Clean_idem)
    then show False using b \<open>cs_Dir spec \<in> set (outputPaths spec)\<close> by simp
  qed
qed

lemma io_paths_clean:
  "q \<in> set (inputPaths spec @ unclaimedOutputPaths spec) \<Longrightarrow> Clean q = q"
  by (auto simp: inputPaths_def unclaimedOutputPaths_def outputPaths_def Clean_idem)

lemma mountPlanPaths_outputs_order:
  assumes "mset outs' = mset (cs_Outputs spec)"
  shows "mountPlanPaths (spec\<lparr>cs_Outputs := outs'\<rparr>) = mountPlanPaths spec"
proof -
  have s: "set outs' = set (cs_Outputs spec)" using assms by (rule mset_eq_setD)
  have w: "workdirAllocated (spec\<lparr>cs_Outputs := outs'\<rparr>) = workdirAllocated spec"
    using s by (simp add: workdirAllocated_def anyMountTo_iff outputs_paths)
  have i: "inputPaths (spec\<lparr>cs_Outputs := outs'\<rparr>) = inputPaths spec"
    by (simp add: inputPaths_def)
  have "mset (outputPaths (spec\<lparr>cs_Outputs := outs'\<rparr>)) = mset (outputPaths spec)"
    using assms by (simp add: outputPaths_def)
  then have "mset (unclaimedOutputPaths (spec\<lparr>cs_Outputs := outs'\<rparr>)) = mset (unclaimedOutputPaths spec)"
    using i by (simp add: unclaimedOutputPaths_def)
  then have "sort (inputPaths spec @ unclaimedOutputPaths (spec\<lparr>cs_Outputs := outs'\<rparr>))
      = sort (inputPaths spec @ unclaimedOutputPaths spec)"
    by (intro properties_for_sort) simp_all
  then show ?thesis using w i by (simp add: mountPlanPaths_def fixedMountPaths_def)
qed

lemma fixed_mounts:
  assumes "map vm_MountPath vms = fixedMountPaths spec"
  shows "\<exists>scratchVolume workdir.
           vms = \<lparr>vm_Volume = scratchVolume, vm_MountPath = ''/scratch''\<rparr> # workdir
           \<and> (if workdirAllocated spec
               then \<exists>v. workdir = [\<lparr>vm_Volume = v, vm_MountPath = cs_Dir spec\<rparr>]
               else workdir = [])"
proof (cases "workdirAllocated spec")
  case True
  then have "map vm_MountPath vms = [''/scratch'', cs_Dir spec]"
    using assms by (simp add: fixedMountPaths_def)
  then obtain a b where v: "vms = [a, b]" "vm_MountPath a = ''/scratch''" "vm_MountPath b = cs_Dir spec"
    by auto
  have "a = \<lparr>vm_Volume = vm_Volume a, vm_MountPath = ''/scratch''\<rparr>"
    "b = \<lparr>vm_Volume = vm_Volume b, vm_MountPath = cs_Dir spec\<rparr>"
    using v(2,3) VolumeMount_eq[of a] VolumeMount_eq[of b] by simp_all
  then show ?thesis using True v(1) by (metis (full_types))
next
  case False
  then have "map vm_MountPath vms = [''/scratch'']" using assms by (simp add: fixedMountPaths_def)
  then obtain a where v: "vms = [a]" "vm_MountPath a = ''/scratch''" by auto
  have "a = \<lparr>vm_Volume = vm_Volume a, vm_MountPath = ''/scratch''\<rparr>"
    using v(2) VolumeMount_eq[of a] by simp
  then show ?thesis using False v(1) by (metis (full_types))
qed

lemma plan_of_run:
  assumes "snd (createGardenContainer env p h cc spec fi) = h @ evs"
    and "EvCreate gs r \<in> set evs"
  obtains vms io ins outs where
    "gs_BindMounts gs = foundBindMounts evs @ map toBindMount (vms @ sortByMountPath io)"
    "length (foundBindMounts evs) \<le> length (cs_BindMounts spec)"
    "allocations evs = map mountAlloc (vms @ io)"
    "map vm_MountPath vms = fixedMountPaths spec"
    "map vm_MountPath io = inputPaths spec @ unclaimedOutputPaths spec"
    "io = ins @ outs" "map vm_MountPath outs = unclaimedOutputPaths spec"
    "list_all2 (inputMount env h evs cc spec fi) (cs_Inputs spec) ins"
proof -
  obtain res h' where run: "createGardenContainer env p h cc spec fi = (res, h')"
    by (metis prod.exhaust)
  from createGardenContainer_plan[OF run] obtain evs' where
    h': "h' = h @ evs'" and
    all: "\<forall>gs r. EvCreate gs r \<in> set evs' \<longrightarrow>
              (\<exists>vms io pl rest.
                 volumeMountPlan env h cc spec fi = (Inr (vms, io), h @ pl) \<and> evs' = pl @ rest
                 \<and> gs_BindMounts gs = foundBindMounts evs' @ map toBindMount (vms @ sortByMountPath io)
                 \<and> length (foundBindMounts evs') \<le> length (cs_BindMounts spec)
                 \<and> allocations evs' = map mountAlloc (vms @ io)
                 \<and> map vm_MountPath vms = fixedMountPaths spec
                 \<and> map vm_MountPath io = inputPaths spec @ unclaimedOutputPaths spec
                 \<and> (\<exists>ins outs. io = ins @ outs \<and> map vm_MountPath outs = unclaimedOutputPaths spec
                       \<and> list_all2 (inputMount env h evs' cc spec fi) (cs_Inputs spec) ins))"
    by blast
  have e: "evs' = evs" using assms(1) run h' by simp
  from all[rule_format, of gs r] assms(2) e show ?thesis using that by blast
qed

text \<open>
  Claim C9, amended: in a run that reaches the runtime's \<open>Create\<close>, the worker has been
  asked for each extra bind mount of the spec (\<open>cs_BindMounts spec\<close>) once, in the order of
  the spec, and the bind-mount list is: the mounts the worker answered with, in that order
  (an extra bind mount that is not found on the worker leaves no entry); then the scratch
  mount; then the working-directory mount, present exactly when the working directory
  is non-empty and is not (after cleaning) the destination of an input or an output; then the
  mounts of the inputs and of the outputs no input claims, sorted by destination path. The
  destination paths after the extra bind mounts are \<open>mountPlanPaths spec\<close>, a function of the
  spec that does not depend on the order in which the outputs are visited.
\<close>

theorem C9_bind_mount_shape:
  assumes "snd (createGardenContainer env p h creatingContainer spec fetchedImage) = h @ evs"
    and "EvCreate gardenSpec r \<in> set evs"
  shows "\<exists>scratchVolume workdir io.
      gs_BindMounts gardenSpec =
        foundBindMounts evs
        @ map toBindMount (\<lparr>vm_Volume = scratchVolume, vm_MountPath = ''/scratch''\<rparr> # workdir @ io)
    \<and> (if workdirAllocated spec
        then \<exists>v. workdir = [\<lparr>vm_Volume = v, vm_MountPath = cs_Dir spec\<rparr>]
        else workdir = [])
    \<and> map vm_MountPath io = sort (inputPaths spec @ unclaimedOutputPaths spec)
    \<and> sorted (map vm_MountPath io)
    \<and> map bm_DstPath (drop (length (foundBindMounts evs)) (gs_BindMounts gardenSpec))
        = mountPlanPaths spec
    \<and> (\<forall>outs'. mset outs' = mset (cs_Outputs spec) \<longrightarrow>
          mountPlanPaths (spec\<lparr>cs_Outputs := outs'\<rparr>) = mountPlanPaths spec)
    \<and> bindMountQueries evs = cs_BindMounts spec
    \<and> bindMountsAnswered env h evs"
proof -
  note extras = createGardenContainer_extras[OF assms]
  from plan_of_run[OF assms] obtain vms io where
    bm: "gs_BindMounts gardenSpec = foundBindMounts evs @ map toBindMount (vms @ sortByMountPath io)"
    and fixed: "map vm_MountPath vms = fixedMountPaths spec"
    and iop: "map vm_MountPath io = inputPaths spec @ unclaimedOutputPaths spec"
    by metis
  from fixed_mounts[OF fixed] obtain scratchVolume workdir where
    vms: "vms = \<lparr>vm_Volume = scratchVolume, vm_MountPath = ''/scratch''\<rparr> # workdir"
    and wd: "if workdirAllocated spec
               then \<exists>v. workdir = [\<lparr>vm_Volume = v, vm_MountPath = cs_Dir spec\<rparr>]
               else workdir = []"
    by blast
  have sorted_paths: "map vm_MountPath (sortByMountPath io) = sort (inputPaths spec @ unclaimedOutputPaths spec)"
    using iop by (simp add: map_sortByMountPath)
  have dst: "map bm_DstPath (map toBindMount (vms @ sortByMountPath io)) = mountPlanPaths spec"
    using fixed sorted_paths by (simp add: mountPlanPaths_def toBindMount_def comp_def)
  show ?thesis
    apply (rule exI[of _ scratchVolume], rule exI[of _ workdir], rule exI[of _ "sortByMountPath io"])
    using bm vms wd sorted_paths dst mountPlanPaths_outputs_order extras
    by simp
qed

lemma unclaimed_disjoint: "set (unclaimedOutputPaths spec) \<inter> set (inputPaths spec) = {}"
  by (auto simp: unclaimedOutputPaths_def)

lemma map_Clean_io:
  "map Clean (sort (inputPaths spec @ unclaimedOutputPaths spec))
     = sort (inputPaths spec @ unclaimedOutputPaths spec)"
proof -
  have "\<forall>q \<in> set (sort (inputPaths spec @ unclaimedOutputPaths spec)). Clean q = q"
    using io_paths_clean[of _ spec] by simp
  then show ?thesis by (intro map_idI) simp
qed

text \<open>
  Claim C3, amended: in a run that reaches the runtime's \<open>Create\<close>, the worker has been
  asked for each extra bind mount of the spec (\<open>cs_BindMounts spec\<close>) once, in the order of
  the spec, and the bind mounts are the mounts the worker answered with, in that order,
  followed by the volume mounts of the plan. The cleaned
  destination paths of the volume mounts are pairwise distinct exactly when the cleaned
  destinations of the inputs are pairwise distinct, those of the outputs that no input claims
  are pairwise distinct, none of them is \<open>/scratch\<close>, and the working directory, when it
  gets a volume, does not clean to \<open>/scratch\<close>. In every such run the volumes allocated are,
  in this order, one at \<open>/scratch\<close>, one at the working directory when it gets a volume, one
  per input, and one per output whose cleaned path no input has: an output at the path of an
  input gets no allocation of its own.
\<close>

theorem C3_mount_paths_distinct:
  assumes "snd (createGardenContainer env p h creatingContainer spec fetchedImage) = h @ evs"
    and "EvCreate gardenSpec r \<in> set evs"
  shows "\<exists>mounts.
      gs_BindMounts gardenSpec = foundBindMounts evs @ map toBindMount mounts
    \<and> (distinct (map (\<lambda>m. Clean (vm_MountPath m)) mounts) \<longleftrightarrow>
         distinct (inputPaths spec) \<and> distinct (unclaimedOutputPaths spec)
         \<and> ''/scratch'' \<notin> set (inputPaths spec) \<union> set (unclaimedOutputPaths spec)
         \<and> \<not> (workdirAllocated spec \<and> Clean (cs_Dir spec) = ''/scratch''))
    \<and> map fst (allocations evs)
         = fixedMountPaths spec @ inputPaths spec @ unclaimedOutputPaths spec
    \<and> set (unclaimedOutputPaths spec) \<inter> set (inputPaths spec) = {}
    \<and> bindMountQueries evs = cs_BindMounts spec
    \<and> bindMountsAnswered env h evs"
proof -
  note extras = createGardenContainer_extras[OF assms]
  from plan_of_run[OF assms] obtain vms io where
    bm: "gs_BindMounts gardenSpec = foundBindMounts evs @ map toBindMount (vms @ sortByMountPath io)"
    and al: "allocations evs = map mountAlloc (vms @ io)"
    and fixed: "map vm_MountPath vms = fixedMountPaths spec"
    and iop: "map vm_MountPath io = inputPaths spec @ unclaimedOutputPaths spec"
    by metis
  let ?xs = "inputPaths spec @ unclaimedOutputPaths spec"
  have paths: "map (\<lambda>m. Clean (vm_MountPath m)) (vms @ sortByMountPath io)
      = map Clean (fixedMountPaths spec) @ sort ?xs"
  proof -
    have "map (\<lambda>m. Clean (vm_MountPath m)) (vms @ sortByMountPath io)
        = map Clean (map vm_MountPath vms) @ map Clean (map vm_MountPath (sortByMountPath io))"
      by (simp add: comp_def)
    also have "\<dots> = map Clean (fixedMountPaths spec) @ map Clean (sort ?xs)"
      using fixed iop by (simp add: map_sortByMountPath)
    finally show ?thesis by (simp add: map_Clean_io)
  qed
  have dio: "distinct (sort ?xs) \<longleftrightarrow> distinct (inputPaths spec) \<and> distinct (unclaimedOutputPaths spec)"
    using unclaimed_disjoint[of spec] by auto
  have wdfree: "workdirAllocated spec \<Longrightarrow> Clean (cs_Dir spec) \<notin> set ?xs"
    using workdir_unclaimed(1,2)[of spec] by (auto simp: unclaimedOutputPaths_def)
  have d: "distinct (map Clean (fixedMountPaths spec) @ sort ?xs) \<longleftrightarrow>
         distinct (inputPaths spec) \<and> distinct (unclaimedOutputPaths spec)
         \<and> ''/scratch'' \<notin> set (inputPaths spec) \<union> set (unclaimedOutputPaths spec)
         \<and> \<not> (workdirAllocated spec \<and> Clean (cs_Dir spec) = ''/scratch'')"
  proof (cases "workdirAllocated spec")
    case True
    then show ?thesis using dio wdfree
      by (auto simp: fixedMountPaths_def Clean_scratch)
  next
    case False
    then show ?thesis using dio by (auto simp: fixedMountPaths_def Clean_scratch)
  qed
  have a: "map fst (allocations evs) = fixedMountPaths spec @ ?xs"
    using al fixed iop by (simp add: mountAlloc_def comp_def)
  show ?thesis
    apply (rule exI[of _ "vms @ sortByMountPath io"])
    using bm paths d a unclaimed_disjoint[of spec] extras by simp
qed

text \<open>
  Claim C8, amended: in a run that reaches the runtime's \<open>Create\<close>, if \<open>i\<close> is the only
  input whose cleaned destination is \<open>q\<close>, some output has the cleaned destination \<open>q\<close>, and
  \<open>q\<close> is not \<open>/scratch\<close>, then the volume mounts of the plan have exactly one mount at
  \<open>q\<close>; its volume \<open>v\<close> is the one that the allocation for the input \<open>i\<close> returned in
  this run, and it is the only volume allocated at \<open>q\<close>: the output gets none.
\<close>

theorem C8_output_reuses_input:
  assumes "snd (createGardenContainer env p h creatingContainer spec fetchedImage) = h @ evs"
    and "EvCreate gardenSpec r \<in> set evs"
    and "filter (\<lambda>i'. Clean (in_DestinationPath i') = q) (cs_Inputs spec) = [i]"
    and "out \<in> set (cs_Outputs spec)" and "Clean (snd out) = q"
    and "q \<noteq> ''/scratch''"
  shows "\<exists>v mounts.
      gs_BindMounts gardenSpec = foundBindMounts evs @ map toBindMount mounts
    \<and> filter (\<lambda>m. vm_MountPath m = q) mounts = [\<lparr>vm_Volume = v, vm_MountPath = q\<rparr>]
    \<and> filter (\<lambda>a. fst a = q) (allocations evs) = [(q, v)]
    \<and> (\<exists>pre mid post. evs = pre @ mid @ post
          \<and> inputVolumeFor env (h @ pre) creatingContainer spec fetchedImage i
              = (Inr v, h @ pre @ mid))"
proof -
  from plan_of_run[OF assms(1,2)] obtain vms io ins outs where
    bm: "gs_BindMounts gardenSpec = foundBindMounts evs @ map toBindMount (vms @ sortByMountPath io)"
    and al: "allocations evs = map mountAlloc (vms @ io)"
    and fixed: "map vm_MountPath vms = fixedMountPaths spec"
    and io: "io = ins @ outs" and outs: "map vm_MountPath outs = unclaimedOutputPaths spec"
    and seg: "list_all2 (inputMount env h evs creatingContainer spec fetchedImage) (cs_Inputs spec) ins"
    by metis
  have "i \<in> set (filter (\<lambda>i'. Clean (in_DestinationPath i') = q) (cs_Inputs spec))"
    using assms(3) by simp
  then have i: "i \<in> set (cs_Inputs spec)" "Clean (in_DestinationPath i) = q"
    by simp_all
  then have qin: "q \<in> set (inputPaths spec)" by (auto simp: inputPaths_def)
  have "q \<notin> set (fixedMountPaths spec)"
    using assms(6) qin workdir_unclaimed(3)[of spec] by (auto simp: fixedMountPaths_def)
  then have fv: "filter (\<lambda>m. vm_MountPath m = q) vms = []"
    using fixed by (auto simp: filter_empty_conv) (metis image_eqI list.set_map)
  have "q \<notin> set (unclaimedOutputPaths spec)" using qin by (simp add: unclaimedOutputPaths_def)
  then have fo: "filter (\<lambda>m. vm_MountPath m = q) outs = []"
    using outs by (auto simp: filter_empty_conv) (metis image_eqI list.set_map)
  have "list_all2 (inputMount env h evs creatingContainer spec fetchedImage)
          (filter (\<lambda>i'. Clean (in_DestinationPath i') = q) (cs_Inputs spec))
          (filter (\<lambda>m. vm_MountPath m = q) ins)"
    using seg by (rule list_all2_filter) (simp add: inputMount_def)
  then have "list_all2 (inputMount env h evs creatingContainer spec fetchedImage) [i]
          (filter (\<lambda>m. vm_MountPath m = q) ins)"
    using assms(3) by simp
  then obtain m where fi: "filter (\<lambda>m. vm_MountPath m = q) ins = [m]"
    and im: "inputMount env h evs creatingContainer spec fetchedImage i m"
    by (auto simp: list_all2_Cons1)
  have mq: "vm_MountPath m = q" using im i(2) by (simp add: inputMount_def)
  have m: "m = \<lparr>vm_Volume = vm_Volume m, vm_MountPath = q\<rparr>"
    using VolumeMount_eq[of m] mq by simp
  have fio: "filter (\<lambda>m. vm_MountPath m = q) io = [m]" using io fi fo by simp
  have fs: "filter (\<lambda>m. vm_MountPath m = q) (sortByMountPath io) = [m]"
    unfolding sortByMountPath_def filter_sort fio by simp
  have mounts: "filter (\<lambda>m. vm_MountPath m = q) (vms @ sortByMountPath io)
      = [\<lparr>vm_Volume = vm_Volume m, vm_MountPath = q\<rparr>]"
    using fv fs m by simp
  have "filter (\<lambda>a. fst a = q) (allocations evs)
      = map mountAlloc (filter (\<lambda>m. vm_MountPath m = q) (vms @ io))"
    unfolding al by (simp add: filter_map comp_def mountAlloc_def)
  then have allocs: "filter (\<lambda>a. fst a = q) (allocations evs) = [(q, vm_Volume m)]"
    using fv fio mq by (simp add: mountAlloc_def)
  have segm: "\<exists>pre mid post. evs = pre @ mid @ post
          \<and> inputVolumeFor env (h @ pre) creatingContainer spec fetchedImage i
              = (Inr (vm_Volume m), h @ pre @ mid)"
    using im by (simp add: inputMount_def)
  show ?thesis
    apply (rule exI[of _ "vm_Volume m"], rule exI[of _ "vms @ sortByMountPath io"])
    using bm mounts allocs segm by simp
qed

lemmas plan_defs = createGardenContainer_def volumeMountPlan_def inputVolumeFor_def Let_def
  emptyVolumeSpec_def sortByMountPath_def containerEnv_def userPropertyName_def
  env_ok_def provider0_def spec_plain_def image_plain_def creating7_def volumeAt_def
  volumeNo_def emptyAlloc_def rwMount_def gardenSpec7_def created7_event_def toBindMount_def
  input_data_def Clean_def

lemma run_data:
  "createGardenContainer env_ok provider0 [] creating7 spec_data image_plain =
     ((Some \<lparr>gc_Handle = ''h7''\<rparr>, None), events_data)"
  by (simp add: plan_defs spec_data_def events_data_def eval_nat_numeral)

lemma run_two_inputs:
  "createGardenContainer env_ok provider0 [] creating7 spec_two_inputs image_plain =
     ((Some \<lparr>gc_Handle = ''h7''\<rparr>, None), events_two_inputs)"
  by (simp add: plan_defs spec_two_inputs_def events_two_inputs_def eval_nat_numeral)

lemma run_scratch_io:
  "createGardenContainer env_ok provider0 [] creating7 spec_scratch_io image_plain =
     ((Some \<lparr>gc_Handle = ''h7''\<rparr>, None), events_scratch_io)"
  by (simp add: plan_defs spec_scratch_io_def events_scratch_io_def eval_nat_numeral)

lemma run_certs:
  "createGardenContainer env_certs provider0 [] creating7 spec_certs image_plain =
     ((Some \<lparr>gc_Handle = ''h7''\<rparr>, None), events_certs)"
  by (simp add: plan_defs env_certs_def spec_certs_def events_certs_def eval_nat_numeral)

lemma run_extras:
  "createGardenContainer env_extras provider0 [] creating7 spec_extras image_plain =
     ((Some \<lparr>gc_Handle = ''h7''\<rparr>, None), events_extras)"
  by (simp add: plan_defs env_extras_def spec_extras_def spec_data_def events_extras_def
      eval_nat_numeral)

lemmas example_defs = events_data_def events_two_inputs_def events_scratch_io_def events_certs_def
  created7_event_def gardenSpec7_def rwMount_def emptyAlloc_def toBindMount_def volumeNo_def
  volumeAt_def certsMount_def

text \<open>
  Claim C3, as stated: the destination paths of a mount plan are pairwise distinct. The spec
  below has two inputs with the destination \<open>/data\<close>: each gets a volume of its own, and
  the plan mounts both at \<open>/data\<close>.
\<close>

theorem C3_duplicate_inputs_counterexample:
  "createGardenContainer env_ok provider0 [] creating7 spec_two_inputs image_plain =
     ((Some \<lparr>gc_Handle = ''h7''\<rparr>, None), events_two_inputs)
   \<and> last events_two_inputs =
       EvCreate (gardenSpec7 [rwMount 0 ''/scratch'', rwMount 2 ''/data'', rwMount 5 ''/data''])
         (Some \<lparr>gc_Handle = ''h7''\<rparr>, None)
   \<and> map bm_DstPath
        (gs_BindMounts (gardenSpec7 [rwMount 0 ''/scratch'', rwMount 2 ''/data'', rwMount 5 ''/data'']))
       = [''/scratch'', ''/data'', ''/data'']
   \<and> bm_SrcPath (rwMount 2 ''/data'') \<noteq> bm_SrcPath (rwMount 5 ''/data'')"
  by (simp add: run_two_inputs) (simp add: example_defs eval_nat_numeral)

theorem C3_mount_paths_distinct_witness:
  "snd (createGardenContainer env_extras provider0 [] creating7 spec_extras image_plain)
     = [] @ events_extras
   \<and> created7_event [resolvMount, certsMount, rwMount 0 ''/scratch'', rwMount 1 ''/work'',
        rwMount 3 ''/data'', rwMount 5 ''/logs''] \<in> set events_extras
   \<and> distinct (inputPaths spec_extras) \<and> distinct (unclaimedOutputPaths spec_extras)
   \<and> ''/scratch'' \<notin> set (inputPaths spec_extras) \<union> set (unclaimedOutputPaths spec_extras)
   \<and> \<not> (workdirAllocated spec_extras \<and> Clean (cs_Dir spec_extras) = ''/scratch'')
   \<and> map fst (allocations events_extras) = [''/scratch'', ''/work'', ''/data'', ''/logs'']
   \<and> cs_BindMounts spec_extras = [4, 2, 3]
   \<and> bindMountQueries events_extras = [4, 2, 3]
   \<and> foundBindMounts events_extras = [resolvMount, certsMount]
   \<and> bindMountsAnswered env_extras [] events_extras"
proof -
  let ?gs = "gardenSpec7 [resolvMount, certsMount, rwMount 0 ''/scratch'', rwMount 1 ''/work'',
        rwMount 3 ''/data'', rwMount 5 ''/logs'']"
  have h1: "snd (createGardenContainer env_extras provider0 [] creating7 spec_extras image_plain)
      = [] @ events_extras"
    by (simp add: run_extras)
  have h2: "EvCreate ?gs (Some \<lparr>gc_Handle = ''h7''\<rparr>, None) \<in> set events_extras"
    by (simp add: events_extras_def created7_event_def)
  have paths: "inputPaths spec_extras = [''/data'']" "unclaimedOutputPaths spec_extras = [''/logs'']"
    "Clean (cs_Dir spec_extras) = ''/work''" "cs_BindMounts spec_extras = [4, 2, 3]"
    by (simp_all add: inputPaths_def unclaimedOutputPaths_def outputPaths_def spec_extras_def
        spec_data_def spec_plain_def input_data_def Clean_def)
  have al: "map fst (allocations events_extras) = [''/scratch'', ''/work'', ''/data'', ''/logs'']"
    by (simp add: events_extras_def emptyAlloc_def created7_event_def)
  have fb: "foundBindMounts events_extras = [resolvMount, certsMount]"
    by (simp add: events_extras_def emptyAlloc_def created7_event_def)
  from C3_mount_paths_distinct[OF h1 h2] h1 h2 paths al fb show ?thesis
    by (auto simp: created7_event_def)
qed

text \<open>
  Claim C8, as stated: when an input and an output have the same cleaned destination, the plan
  has exactly one mount at that path. With the input and the output both at \<open>/scratch\<close> the
  plan has two mounts there, the scratch volume and the input's; with two inputs and an output
  at \<open>/data\<close> it has the two inputs' mounts there.
\<close>

theorem C8_shared_path_counterexample:
  "createGardenContainer env_ok provider0 [] creating7 spec_scratch_io image_plain =
     ((Some \<lparr>gc_Handle = ''h7''\<rparr>, None), events_scratch_io)
   \<and> last events_scratch_io =
       EvCreate (gardenSpec7 [rwMount 0 ''/scratch'', rwMount 2 ''/scratch''])
         (Some \<lparr>gc_Handle = ''h7''\<rparr>, None)
   \<and> inputPaths spec_scratch_io = [''/scratch''] \<and> outputPaths spec_scratch_io = [''/scratch'']
   \<and> length (filter (\<lambda>b. bm_DstPath b = ''/scratch'')
        (gs_BindMounts (gardenSpec7 [rwMount 0 ''/scratch'', rwMount 2 ''/scratch'']))) = 2
   \<and> createGardenContainer env_ok provider0 [] creating7 spec_two_inputs image_plain =
     ((Some \<lparr>gc_Handle = ''h7''\<rparr>, None), events_two_inputs)
   \<and> last events_two_inputs =
       EvCreate (gardenSpec7 [rwMount 0 ''/scratch'', rwMount 2 ''/data'', rwMount 5 ''/data''])
         (Some \<lparr>gc_Handle = ''h7''\<rparr>, None)
   \<and> inputPaths spec_two_inputs = [''/data'', ''/data''] \<and> outputPaths spec_two_inputs = [''/data'']
   \<and> length (filter (\<lambda>b. bm_DstPath b = ''/data'')
        (gs_BindMounts (gardenSpec7 [rwMount 0 ''/scratch'', rwMount 2 ''/data'', rwMount 5 ''/data'']))) = 2"
  by (simp add: run_scratch_io run_two_inputs)
    (simp add: example_defs inputPaths_def outputPaths_def spec_scratch_io_def spec_two_inputs_def
      spec_plain_def input_data_def Clean_def)

theorem C8_output_reuses_input_witness:
  "snd (createGardenContainer env_ok provider0 [] creating7 spec_data image_plain) = [] @ events_data
   \<and> created7_event [rwMount 0 ''/scratch'', rwMount 1 ''/work'', rwMount 3 ''/data'',
        rwMount 5 ''/logs''] \<in> set events_data
   \<and> filter (\<lambda>i'. Clean (in_DestinationPath i') = ''/data'') (cs_Inputs spec_data) = [input_data]
   \<and> (''result'', ''/data/'') \<in> set (cs_Outputs spec_data)
   \<and> Clean (snd (''result'', ''/data/'')) = ''/data''
   \<and> ''/data'' \<noteq> ''/scratch''
   \<and> filter (\<lambda>a. fst a = ''/data'') (allocations events_data) = [(''/data'', volumeNo 3)]"
proof -
  let ?gs = "gardenSpec7 [rwMount 0 ''/scratch'', rwMount 1 ''/work'', rwMount 3 ''/data'',
        rwMount 5 ''/logs'']"
  have h1: "snd (createGardenContainer env_ok provider0 [] creating7 spec_data image_plain)
      = [] @ events_data"
    by (simp add: run_data)
  have h2: "EvCreate ?gs (Some \<lparr>gc_Handle = ''h7''\<rparr>, None) \<in> set events_data"
    by (simp add: events_data_def created7_event_def)
  have h3: "filter (\<lambda>i'. Clean (in_DestinationPath i') = ''/data'') (cs_Inputs spec_data) = [input_data]"
    by (simp add: spec_data_def spec_plain_def input_data_def Clean_def)
  have h4: "(''result'', ''/data/'') \<in> set (cs_Outputs spec_data)"
    by (simp add: spec_data_def spec_plain_def)
  have h5: "Clean (snd (''result'', ''/data/'')) = ''/data''"
    by (simp add: Clean_def)
  have h6: "''/data'' \<noteq> ''/scratch''" by simp
  have al: "filter (\<lambda>a. fst a = ''/data'') (allocations events_data) = [(''/data'', volumeNo 3)]"
    by (simp add: events_data_def emptyAlloc_def created7_event_def)
  from C8_output_reuses_input[OF h1 h2 h3 h4 h5 h6] h1 h2 h3 h4 h5 al show ?thesis
    by (simp add: created7_event_def)
qed

text \<open>
  Claim C9, as stated: the bind-mount list starts with the scratch mount. The extra bind
  mounts of the spec that are found on the worker are put in front of it: with a certificates
  mount in the spec, the list handed to the runtime starts with \<open>/etc/ssl/certs\<close>.
\<close>

theorem C9_extra_bind_mounts_counterexample:
  "createGardenContainer env_certs provider0 [] creating7 spec_certs image_plain =
     ((Some \<lparr>gc_Handle = ''h7''\<rparr>, None), events_certs)
   \<and> last events_certs =
       EvCreate (gardenSpec7 [certsMount, rwMount 0 ''/scratch''])
         (Some \<lparr>gc_Handle = ''h7''\<rparr>, None)
   \<and> map bm_DstPath (gs_BindMounts (gardenSpec7 [certsMount, rwMount 0 ''/scratch'']))
       = [''/etc/ssl/certs'', ''/scratch'']"
  by (simp add: run_certs) (simp add: example_defs)

theorem C9_bind_mount_shape_witness:
  "snd (createGardenContainer env_extras provider0 [] creating7 spec_extras image_plain)
     = [] @ events_extras
   \<and> created7_event [resolvMount, certsMount, rwMount 0 ''/scratch'', rwMount 1 ''/work'',
        rwMount 3 ''/data'', rwMount 5 ''/logs''] \<in> set events_extras
   \<and> cs_BindMounts spec_extras = [4, 2, 3]
   \<and> bindMountQueries events_extras = [4, 2, 3]
   \<and> bindMountsAnswered env_extras [] events_extras
   \<and> foundBindMounts events_extras = [resolvMount, certsMount]
   \<and> mountPlanPaths spec_extras = [''/scratch'', ''/work'', ''/data'', ''/logs'']
   \<and> map bm_DstPath [rwMount 0 ''/scratch'', rwMount 1 ''/work'', rwMount 3 ''/data'',
        rwMount 5 ''/logs''] = mountPlanPaths spec_extras"
proof -
  let ?gs = "gardenSpec7 [resolvMount, certsMount, rwMount 0 ''/scratch'', rwMount 1 ''/work'',
        rwMount 3 ''/data'', rwMount 5 ''/logs'']"
  have h1: "snd (createGardenContainer env_extras provider0 [] creating7 spec_extras image_plain)
      = [] @ events_extras"
    by (simp add: run_extras)
  have h2: "EvCreate ?gs (Some \<lparr>gc_Handle = ''h7''\<rparr>, None) \<in> set events_extras"
    by (simp add: events_extras_def created7_event_def)
  have bs: "cs_BindMounts spec_extras = [4, 2, 3]"
    by (simp add: spec_extras_def)
  have fb: "foundBindMounts events_extras = [resolvMount, certsMount]"
    by (simp add: events_extras_def emptyAlloc_def created7_event_def)
  have mp: "mountPlanPaths spec_extras = [''/scratch'', ''/work'', ''/data'', ''/logs'']"
    by (simp add: mountPlanPaths_def fixedMountPaths_def workdirAllocated_def inputPaths_def
        unclaimedOutputPaths_def outputPaths_def spec_extras_def spec_data_def spec_plain_def
        input_data_def Clean_def)
  have dst: "map bm_DstPath [rwMount 0 ''/scratch'', rwMount 1 ''/work'', rwMount 3 ''/data'',
        rwMount 5 ''/logs''] = [''/scratch'', ''/work'', ''/data'', ''/logs'']"
    by (simp add: rwMount_def toBindMount_def)
  from C9_bind_mount_shape[OF h1 h2] h1 h2 bs fb mp dst show ?thesis
    by (auto simp: created7_event_def)
qed
section \<open>Properties of the provisioner\<close>

text \<open>
  A sub-operation is quiet when it only adds events of the volume service, of the runtime's
  \<open>Create\<close> and of the wrapping to the history: none of them touches the lock or the
  container record.
\<close>

lemma quiet_refl [simp]: "quiet h h"
  by (simp add: quiet_def)

lemma quiet_trans: "quiet h h1 \<Longrightarrow> quiet h1 h2 \<Longrightarrow> quiet h h2"
  by (auto simp: quiet_def)

lemma quiet_snoc: "quiet (h @ evs0) h' \<Longrightarrow> \<forall>e \<in> set evs0. \<not> provisionerEvent e \<Longrightarrow> quiet h h'"
  by (auto simp: quiet_def)

lemma quiet_step [simp]: "quiet h (h @ [e]) \<longleftrightarrow> \<not> provisionerEvent e"
  by (auto simp: quiet_def)

lemma quiet_step2 [simp]:
  "quiet h (h @ [e1, e2]) \<longleftrightarrow> \<not> provisionerEvent e1 \<and> \<not> provisionerEvent e2"
  by (auto simp: quiet_def)

lemma quiet_step3 [simp]:
  "quiet h (h @ [e1, e2, e3]) \<longleftrightarrow>
     \<not> provisionerEvent e1 \<and> \<not> provisionerEvent e2 \<and> \<not> provisionerEvent e3"
  by (auto simp: quiet_def)

lemma construct_quiet:
  "constructGardenWorkerContainer env p h c g = (r, h') \<Longrightarrow> quiet h h'"
  by (auto simp: constructGardenWorkerContainer_def Let_def split: sum.splits)

lemma bindMountsLoop_quiet: "bindMountsLoop env ms bms h = (r, h') \<Longrightarrow> quiet h h'"
  by (rule planned_quiet[OF bindMountsLoop_planned])

lemma volumeMountPlan_quiet: "volumeMountPlan env h cc spec fi = (r, h') \<Longrightarrow> quiet h h'"
  by (rule planned_quiet[OF volumeMountPlan_planned])

lemma createGardenContainer_quiet:
  "createGardenContainer env p h cc spec fi = (r, h') \<Longrightarrow> quiet h h'"
  unfolding createGardenContainer_def Let_def
  by (auto split: sum.splits prod.splits
      dest!: volumeMountPlan_quiet bindMountsLoop_quiet dest!: quiet_snoc intro: quiet_trans)

lemma quietE:
  assumes "quiet h h'"
  obtains evs where "h' = h @ evs" "\<And>e. e \<in> set evs \<Longrightarrow> \<not> provisionerEvent e"
  using assms by (auto simp: quiet_def)

lemma quiet_events:
  assumes "\<forall>e \<in> set evs. \<not> provisionerEvent e"
  shows "EvAcquire l r \<notin> set evs" and "EvCreated c x \<notin> set evs"
  using assms by force+

lemma markCreated_trace:
  assumes "markCreated env p h cc g = (res, h')"
  shows "(\<forall>err. Created env h cc = Inl err \<longrightarrow>
            res = (None, Some err) \<and>
            h' = h @ [EvCreated cc (Inl err),
                      EvDestroy (cc_Handle cc) (Destroy env (h @ [EvCreated cc (Inl err)]) (cc_Handle cc))])
       \<and> (\<forall>c. Created env h cc = Inr c \<longrightarrow>
            (\<exists>evs. h' = h @ EvCreated cc (Inr c) # evs \<and> (\<forall>e \<in> set evs. \<not> provisionerEvent e)))"
proof (rule conjI; intro allI impI)
  fix err assume "Created env h cc = Inl err"
  then show "res = (None, Some err) \<and>
            h' = h @ [EvCreated cc (Inl err),
                      EvDestroy (cc_Handle cc) (Destroy env (h @ [EvCreated cc (Inl err)]) (cc_Handle cc))]"
    using assms by (auto simp: markCreated_def Let_def)
next
  fix c assume c: "Created env h cc = Inr c"
  then have "constructGardenWorkerContainer env p (h @ [EvCreated cc (Inr c)]) c g = (res, h')"
    using assms by (simp add: markCreated_def Let_def)
  from construct_quiet[OF this] obtain evs where
    "h' = (h @ [EvCreated cc (Inr c)]) @ evs" "\<And>e. e \<in> set evs \<Longrightarrow> \<not> provisionerEvent e"
    unfolding quiet_def by blast
  then show "\<exists>evs. h' = h @ EvCreated cc (Inr c) # evs \<and> (\<forall>e \<in> set evs. \<not> provisionerEvent e)"
    by auto
qed

lemma commitFailed_prefix:
  "commitFailed env (h @ pre0) evs cc err \<Longrightarrow> commitFailed env h (pre0 @ evs) cc err"
  unfolding commitFailed_def
  apply (elim exE conjE)
  subgoal for pre post
    by (rule exI[of _ "pre0 @ pre"], rule exI[of _ post]) simp
  done

lemma commitFailed_release:
  "commitFailed env h evs cc err \<Longrightarrow>
     commitFailed env h (evs @ [EvRelease (NewContainerCreatingLockID (cc_ID cc))]) cc err"
  unfolding commitFailed_def
  apply (elim exE conjE)
  subgoal for pre post
    by (rule exI[of _ pre], rule exI[of _ "post @ [EvRelease (NewContainerCreatingLockID (cc_ID cc))]"]) simp
  done

lemma markCreated_commit:
  assumes "markCreated env p h cc g = (res, h')"
  shows "\<exists>evs. h' = h @ evs \<and> (\<forall>l r. EvAcquire l r \<notin> set evs) \<and>
           (\<forall>c err. EvCreated c (Inl err) \<in> set evs \<longrightarrow>
              c = cc \<and> res = (None, Some err) \<and> commitFailed env h evs cc err)"
proof (cases "Created env h cc")
  case (Inl err)
  with markCreated_trace[OF assms] have
    r: "res = (None, Some err)" and
    h': "h' = h @ [EvCreated cc (Inl err),
                  EvDestroy (cc_Handle cc) (Destroy env (h @ [EvCreated cc (Inl err)]) (cc_Handle cc))]"
    by auto
  have "commitFailed env h [EvCreated cc (Inl err),
                  EvDestroy (cc_Handle cc) (Destroy env (h @ [EvCreated cc (Inl err)]) (cc_Handle cc))] cc err"
    unfolding commitFailed_def by (rule exI[of _ "[]"], rule exI[of _ "[]"]) simp
  then show ?thesis using r h' by auto
next
  case (Inr c)
  with markCreated_trace[OF assms] obtain evs where
    "h' = h @ EvCreated cc (Inr c) # evs" "\<forall>e \<in> set evs. \<not> provisionerEvent e"
    by auto
  then show ?thesis by (intro exI[of _ "EvCreated cc (Inr c) # evs"]) auto
qed

lemma createLocked_commit:
  assumes "createLocked env p h cc spec = (res, h')"
  shows "\<exists>evs. h' = h @ evs \<and> (\<forall>l r. EvAcquire l r \<notin> set evs) \<and>
           (\<forall>c err. EvCreated c (Inl err) \<in> set evs \<longrightarrow>
              c = cc \<and> res = (None, Some err) \<and> commitFailed env h evs cc err)"
proof (cases "FetchForContainer env h cc")
  case (Inl err)
  then show ?thesis using assms by (auto simp: createLocked_def Let_def)
next
  case (Inr fi)
  let ?h1 = "h @ [EvFetchForContainer cc (Inr fi)]"
  obtain gc cerr h2 where cg: "createGardenContainer env p ?h1 cc spec fi = ((gc, cerr), h2)"
    by (metis prod.exhaust)
  from createGardenContainer_quiet[OF cg] obtain evs1 where
    h2: "h2 = ?h1 @ evs1" and q1: "\<forall>e \<in> set evs1. \<not> provisionerEvent e"
    unfolding quiet_def by blast
  show ?thesis
  proof (cases cerr)
    case (Some err)
    then have "h' = h @ [EvFetchForContainer cc (Inr fi)] @ evs1 @
        [EvFailed cc (Failed env h2 cc), EvFailedContainersInc]"
      using assms Inr cg h2 by (simp add: createLocked_def Let_def)
    then show ?thesis using quiet_events[OF q1]
      by (intro exI[of _ "[EvFetchForContainer cc (Inr fi)] @ evs1 @
        [EvFailed cc (Failed env h2 cc), EvFailedContainersInc]"]) auto
  next
    case None
    then have "markCreated env p (h2 @ [EvContainersCreatedInc]) cc gc = (res, h')"
      using assms Inr cg by (simp add: createLocked_def Let_def)
    from markCreated_commit[OF this] obtain evs2 where
      h': "h' = (h2 @ [EvContainersCreatedInc]) @ evs2" and
      na: "\<forall>l r. EvAcquire l r \<notin> set evs2" and
      cf: "\<forall>c err. EvCreated c (Inl err) \<in> set evs2 \<longrightarrow>
              c = cc \<and> res = (None, Some err) \<and>
              commitFailed env (h2 @ [EvContainersCreatedInc]) evs2 cc err"
      by blast
    let ?pre = "[EvFetchForContainer cc (Inr fi)] @ evs1 @ [EvContainersCreatedInc]"
    have eq: "h' = h @ ?pre @ evs2" using h' h2 by simp
    have pre: "h2 @ [EvContainersCreatedInc] = h @ ?pre" using h2 by simp
    have "\<forall>c err. EvCreated c (Inl err) \<in> set (?pre @ evs2) \<longrightarrow>
              c = cc \<and> res = (None, Some err) \<and> commitFailed env h (?pre @ evs2) cc err"
    proof (intro allI impI)
      fix c err assume "EvCreated c (Inl err) \<in> set (?pre @ evs2)"
      then have "EvCreated c (Inl err) \<in> set evs2" using quiet_events[OF q1] by auto
      with cf have "c = cc" "res = (None, Some err)"
        "commitFailed env (h @ ?pre) evs2 cc err" unfolding pre by auto
      then show "c = cc \<and> res = (None, Some err) \<and> commitFailed env h (?pre @ evs2) cc err"
        using commitFailed_prefix by blast
    qed
    moreover have "\<forall>l r. EvAcquire l r \<notin> set (?pre @ evs2)"
      using na quiet_events[OF q1] by auto
    ultimately show ?thesis using eq by blast
  qed
qed

lemma deferred_prefix: "deferred evs l \<Longrightarrow> deferred (pre0 @ evs) l"
  unfolding deferred_def by (metis append.assoc)

lemma FindOrCreateContainer_created:
  assumes "FindContainerOnWorker env h owner = Inr (c0, Some created)"
  shows "FindOrCreateContainer env p h owner metadata spec =
     (let h1 = h @ [EvFindContainerOnWorker owner (Inr (c0, Some created))];
          r2 = Lookup env h1 (cdc_Handle created);
          h2 = h1 @ [EvLookup (cdc_Handle created) r2]
      in case snd r2 of
           Some err \<Rightarrow> ((None, Some err), h2)
         | None \<Rightarrow> constructGardenWorkerContainer env p h2 created (fst r2))"
  using assms
  by (simp add: FindOrCreateContainer_def Let_def split: option.splits prod.splits)

lemma FindOrCreateContainer_creating:
  assumes "FindContainerOnWorker env h owner = Inr (Some cc, None)"
  shows "FindOrCreateContainer env p h owner metadata spec =
     provisionCreating env p (h @ [EvFindContainerOnWorker owner (Inr (Some cc, None))]) cc spec"
  using assms by (simp add: FindOrCreateContainer_def Let_def)

lemma FindOrCreateContainer_fresh:
  assumes "FindContainerOnWorker env h owner = Inr (None, None)"
  shows "FindOrCreateContainer env p h owner metadata spec =
     (let h1 = h @ [EvFindContainerOnWorker owner (Inr (None, None))];
          r2 = CreateContainer env h1 owner metadata;
          h2 = h1 @ [EvCreateContainer owner metadata r2]
      in case r2 of
           Inl err \<Rightarrow> ((None, Some err), h2)
         | Inr cc \<Rightarrow> provisionCreating env p h2 cc spec)"
  using assms by (simp add: FindOrCreateContainer_def Let_def split: sum.splits)

lemma provisionCreating_trace:
  assumes "provisionCreating env p h cc spec = (res, h')"
  shows "\<exists>evs. h' = h @ evs \<and>
           (\<forall>l. EvAcquire l (Inr False) \<in> set evs \<longrightarrow> res = (None, None) \<and> deferred evs l) \<and>
           (\<forall>c err. EvCreated c (Inl err) \<in> set evs \<longrightarrow>
              res = (None, Some err) \<and> commitFailed env h evs c err)"
proof -
  obtain gc err where lk: "Lookup env h (cc_Handle cc) = (gc, err)" by (cases "Lookup env h (cc_Handle cc)")
  let ?e1 = "EvLookup (cc_Handle cc) (gc, err)"
  let ?h1 = "h @ [?e1]"
  let ?lock = "NewContainerCreatingLockID (cc_ID cc)"
  show ?thesis
  proof (cases "case err of None \<Rightarrow> False | Some e \<Rightarrow> \<not> isContainerNotFoundError e")
    case True
    then have "h' = h @ [?e1]" using assms lk by (simp add: provisionCreating_def Let_def)
    then show ?thesis by (intro exI[of _ "[?e1]"]) simp
  next
    case nonfatal: False
    show ?thesis
    proof (cases gc)
      case (Some found)
      then have "markCreated env p ?h1 cc gc = (res, h')"
        using assms lk nonfatal by (simp add: provisionCreating_def Let_def)
      from markCreated_commit[OF this] obtain evs where
        h': "h' = ?h1 @ evs" and na: "\<forall>l r. EvAcquire l r \<notin> set evs" and
        cf: "\<forall>c err. EvCreated c (Inl err) \<in> set evs \<longrightarrow>
               c = cc \<and> res = (None, Some err) \<and> commitFailed env ?h1 evs cc err"
        by blast
      have "\<forall>c err. EvCreated c (Inl err) \<in> set ([?e1] @ evs) \<longrightarrow>
              res = (None, Some err) \<and> commitFailed env h ([?e1] @ evs) c err"
      proof (intro allI impI)
        fix c err assume "EvCreated c (Inl err) \<in> set ([?e1] @ evs)"
        then have "EvCreated c (Inl err) \<in> set evs" by auto
        with cf have c: "c = cc" "res = (None, Some err)"
          "commitFailed env (h @ [?e1]) evs cc err" by auto
        from commitFailed_prefix[OF c(3)] c(1,2)
        show "res = (None, Some err) \<and> commitFailed env h ([?e1] @ evs) c err" by simp
      qed
      moreover have "\<forall>l. EvAcquire l (Inr False) \<notin> set ([?e1] @ evs)" using na by auto
      moreover have "h' = h @ [?e1] @ evs" using h' by simp
      ultimately show ?thesis by blast
    next
      case None
      let ?r2 = "Acquire env ?h1 ?lock"
      let ?e2 = "EvAcquire ?lock ?r2"
      show ?thesis
      proof (cases ?r2)
        case (Inl aerr)
        then have "h' = h @ [?e1, ?e2]"
          using assms lk nonfatal None by (simp add: provisionCreating_def Let_def)
        then show ?thesis using Inl by (intro exI[of _ "[?e1, ?e2]"]) simp
      next
        case (Inr acquired)
        show ?thesis
        proof (cases acquired)
          case False
          then have "h' = h @ [?e1, ?e2, EvSleep creatingContainerRetryDelay]" "res = (None, None)"
            using assms lk nonfatal None Inr by (simp_all add: provisionCreating_def Let_def)
          moreover have "deferred [?e1, ?e2, EvSleep creatingContainerRetryDelay] ?lock"
            unfolding deferred_def using Inr False by (intro exI[of _ "[?e1]"]) simp
          ultimately show ?thesis using Inr False
            by (intro exI[of _ "[?e1, ?e2, EvSleep creatingContainerRetryDelay]"]) auto
        next
          case True
          obtain res1 h3 where cl: "createLocked env p (?h1 @ [?e2]) cc spec = (res1, h3)"
            by (metis prod.exhaust)
          have r: "res = res1" "h' = h3 @ [EvRelease ?lock]"
            using assms lk nonfatal None Inr True cl by (simp_all add: provisionCreating_def Let_def)
          from createLocked_commit[OF cl] obtain evs where
            h3: "h3 = (?h1 @ [?e2]) @ evs" and na: "\<forall>l r. EvAcquire l r \<notin> set evs" and
            cf: "\<forall>c err. EvCreated c (Inl err) \<in> set evs \<longrightarrow>
                   c = cc \<and> res1 = (None, Some err) \<and> commitFailed env (?h1 @ [?e2]) evs cc err"
            by blast
          let ?all = "[?e1, ?e2] @ evs @ [EvRelease ?lock]"
          have eq: "h' = h @ ?all" using r h3 by simp
          have a: "\<forall>l. EvAcquire l (Inr False) \<notin> set ?all" using na Inr True by auto
          have "\<forall>c err. EvCreated c (Inl err) \<in> set ?all \<longrightarrow>
                  res = (None, Some err) \<and> commitFailed env h ?all c err"
          proof (intro allI impI)
            fix c err assume "EvCreated c (Inl err) \<in> set ?all"
            then have "EvCreated c (Inl err) \<in> set evs" by auto
            with cf have c: "c = cc" "res1 = (None, Some err)"
              "commitFailed env (h @ [?e1, ?e2]) evs cc err" by auto
            from commitFailed_release[OF c(3)]
            have "commitFailed env (h @ [?e1, ?e2]) (evs @ [EvRelease ?lock]) cc err" .
            from commitFailed_prefix[OF this]
            show "res = (None, Some err) \<and> commitFailed env h ?all c err" using c r by simp
          qed
          with a eq show ?thesis by blast
        qed
      qed
    qed
  qed
qed

lemma FindOrCreateContainer_trace:
  assumes "FindOrCreateContainer env p h owner metadata spec = (res, h')"
  shows "\<exists>evs. h' = h @ evs \<and>
           (\<forall>l. EvAcquire l (Inr False) \<in> set evs \<longrightarrow> res = (None, None) \<and> deferred evs l) \<and>
           (\<forall>c err. EvCreated c (Inl err) \<in> set evs \<longrightarrow>
              res = (None, Some err) \<and> commitFailed env h evs c err)"
proof -
  let ?r1 = "FindContainerOnWorker env h owner"
  let ?e1 = "EvFindContainerOnWorker owner ?r1"
  let ?h1 = "h @ [?e1]"
  have lift: "\<And>pre res hh cc. provisionCreating env p (h @ pre) cc spec = (res, hh) \<Longrightarrow>
      (\<forall>l r. EvAcquire l r \<notin> set pre) \<Longrightarrow> (\<forall>c x. EvCreated c x \<notin> set pre) \<Longrightarrow>
      \<exists>evs. hh = h @ evs \<and>
           (\<forall>l. EvAcquire l (Inr False) \<in> set evs \<longrightarrow> res = (None, None) \<and> deferred evs l) \<and>
           (\<forall>c err. EvCreated c (Inl err) \<in> set evs \<longrightarrow>
              res = (None, Some err) \<and> commitFailed env h evs c err)"
  proof -
    fix pre res hh cc
    assume pc: "provisionCreating env p (h @ pre) cc spec = (res, hh)"
      and na: "\<forall>l r. EvAcquire l r \<notin> set pre" and nc: "\<forall>c x. EvCreated c x \<notin> set pre"
    from provisionCreating_trace[OF pc] obtain evs where
      hh: "hh = (h @ pre) @ evs" and
      d: "\<forall>l. EvAcquire l (Inr False) \<in> set evs \<longrightarrow> res = (None, None) \<and> deferred evs l" and
      c: "\<forall>c err. EvCreated c (Inl err) \<in> set evs \<longrightarrow>
              res = (None, Some err) \<and> commitFailed env (h @ pre) evs c err"
      by blast
    have "\<forall>l. EvAcquire l (Inr False) \<in> set (pre @ evs) \<longrightarrow>
            res = (None, None) \<and> deferred (pre @ evs) l"
      using d na deferred_prefix by auto
    moreover have "\<forall>c err. EvCreated c (Inl err) \<in> set (pre @ evs) \<longrightarrow>
              res = (None, Some err) \<and> commitFailed env h (pre @ evs) c err"
      using c nc commitFailed_prefix by auto
    ultimately show "\<exists>evs. hh = h @ evs \<and>
           (\<forall>l. EvAcquire l (Inr False) \<in> set evs \<longrightarrow> res = (None, None) \<and> deferred evs l) \<and>
           (\<forall>c err. EvCreated c (Inl err) \<in> set evs \<longrightarrow>
              res = (None, Some err) \<and> commitFailed env h evs c err)"
      using hh by (intro exI[of _ "pre @ evs"]) simp
  qed
  show ?thesis
  proof (cases ?r1)
    case (Inl err)
    then have "h' = h @ [?e1]" using assms by (simp add: FindOrCreateContainer_def Let_def)
    then show ?thesis by (intro exI[of _ "[?e1]"]) simp
  next
    case (Inr pair)
    obtain c0 d0 where pair: "pair = (c0, d0)" by (cases pair)
    show ?thesis
    proof (cases d0)
      case (Some created)
      obtain gc lerr where lk: "Lookup env ?h1 (cdc_Handle created) = (gc, lerr)"
        by (metis prod.exhaust)
      let ?e2 = "EvLookup (cdc_Handle created) (gc, lerr)"
      show ?thesis
      proof (cases lerr)
        case (Some e)
        then have "h' = h @ [?e1, ?e2]"
          using assms Inr pair \<open>d0 = Some created\<close> lk
          by (simp add: FindOrCreateContainer_created[of env h owner c0 created] Let_def)
        then show ?thesis by (intro exI[of _ "[?e1, ?e2]"]) simp
      next
        case None
        then have "constructGardenWorkerContainer env p (?h1 @ [?e2]) created gc = (res, h')"
          using assms Inr pair \<open>d0 = Some created\<close> lk
          by (simp add: FindOrCreateContainer_created[of env h owner c0 created] Let_def)
        from construct_quiet[OF this] obtain evs where
          "h' = (?h1 @ [?e2]) @ evs" "\<forall>e \<in> set evs. \<not> provisionerEvent e"
          unfolding quiet_def by blast
        then show ?thesis using quiet_events[of evs]
          by (intro exI[of _ "[?e1, ?e2] @ evs"]) auto
      qed
    next
      case None
      show ?thesis
      proof (cases c0)
        case (Some cc)
        then have "provisionCreating env p (h @ [?e1]) cc spec = (res, h')"
          using assms Inr pair None by (simp add: FindOrCreateContainer_creating[of env h owner cc])
        from lift[OF this] show ?thesis by simp
      next
        case noc: None
        let ?r2 = "CreateContainer env ?h1 owner metadata"
        let ?e2 = "EvCreateContainer owner metadata ?r2"
        show ?thesis
        proof (cases ?r2)
          case (Inl err)
          then have "h' = h @ [?e1, ?e2]"
            using assms Inr pair None noc
            by (simp add: FindOrCreateContainer_fresh[of env h owner] Let_def)
          then show ?thesis by (intro exI[of _ "[?e1, ?e2]"]) simp
        next
          case (Inr cc)
          then have "provisionCreating env p (h @ [?e1, ?e2]) cc spec = (res, h')"
            using assms \<open>?r1 = Inr pair\<close> pair None noc
            by (simp add: FindOrCreateContainer_fresh[of env h owner] Let_def)
          from lift[OF this] show ?thesis by simp
        qed
      qed
    qed
  qed
qed

text \<open>
  Claim C5: a run of \<open>FindOrCreateContainer\<close> in which the acquisition of the
  container-creating lock answers "not acquired" (no error) returns the deferred-retry
  sentinel, a nil container together with a nil error, and the last thing it does is to
  sleep for \<open>creatingContainerRetryDelay\<close>, which is one second (in nanoseconds).
\<close>

theorem C5_deferred_retry:
  assumes "snd (FindOrCreateContainer env p h owner metadata containerSpec) = h @ evs"
    and "EvAcquire lockID (Inr False) \<in> set evs"
  shows "fst (FindOrCreateContainer env p h owner metadata containerSpec) = (None, None)
       \<and> (\<exists>pre. evs = pre @ [EvAcquire lockID (Inr False), EvSleep creatingContainerRetryDelay])
       \<and> creatingContainerRetryDelay = 1000000000"
proof -
  obtain res h' where r: "FindOrCreateContainer env p h owner metadata containerSpec = (res, h')"
    by (metis prod.exhaust)
  from FindOrCreateContainer_trace[OF r] assms r show ?thesis
    by (auto simp: deferred_def creatingContainerRetryDelay_def Second_def)
qed

text \<open>
  Claim C7: a run of \<open>FindOrCreateContainer\<close> in which the transition to the created state
  fails with \<open>err\<close> returns no container and the error \<open>err\<close>; right after the failed
  transition it destroys the runtime container by the handle of the creating record, and
  whatever \<open>Destroy\<close> answers is ignored. Nothing follows but the release of the lock, when
  the run held it.
\<close>

theorem C7_commit_failure_cleanup:
  assumes "snd (FindOrCreateContainer env p h owner metadata containerSpec) = h @ evs"
    and "EvCreated creatingContainer (Inl err) \<in> set evs"
  shows "fst (FindOrCreateContainer env p h owner metadata containerSpec) = (None, Some err)
       \<and> (\<exists>pre post.
            evs = pre @ [EvCreated creatingContainer (Inl err),
                         EvDestroy (cc_Handle creatingContainer)
                           (Destroy env (h @ pre @ [EvCreated creatingContainer (Inl err)])
                              (cc_Handle creatingContainer))] @ post
            \<and> set post \<subseteq> {EvRelease (NewContainerCreatingLockID (cc_ID creatingContainer))})"
proof -
  obtain res h' where r: "FindOrCreateContainer env p h owner metadata containerSpec = (res, h')"
    by (metis prod.exhaust)
  from FindOrCreateContainer_trace[OF r] assms r show ?thesis
    by (auto simp: commitFailed_def)
qed

lemmas run_defs = FindOrCreateContainer_def provisionCreating_def createLocked_def markCreated_def
  constructGardenWorkerContainer_def createGardenContainer_def volumeMountPlan_def Let_def
  NewContainerCreatingLockID_def creatingContainerRetryDelay_def Second_def

lemma run_busy:
  "FindOrCreateContainer env_busy provider0 [] 3 ''task'' spec_plain =
     ((None, None),
      [EvFindContainerOnWorker 3 (Inr (None, None)),
       EvCreateContainer 3 ''task'' (Inr creating7),
       EvLookup ''h7'' (None, Some (ContainerNotFoundError ''h7'')),
       EvAcquire (ContainerCreatingLockID 7) (Inr False),
       EvSleep 1000000000])"
  by (simp add: run_defs env_busy_def env_ok_def creating7_def)

lemma run_commit_fails:
  "FindOrCreateContainer env_commit_fails provider0 [] 3 ''task'' spec_plain =
     ((None, Some (OtherError ''db'')),
      [EvFindContainerOnWorker 3 (Inr (None, None)),
       EvCreateContainer 3 ''task'' (Inr creating7),
       EvLookup ''h7'' (Some \<lparr>gc_Handle = ''h7''\<rparr>, None),
       EvCreated creating7 (Inl (OtherError ''db'')),
       EvDestroy ''h7'' (Some (OtherError ''garden''))])"
  by (simp add: run_defs env_commit_fails_def env_ok_def creating7_def)

lemma run_created_gone:
  "FindOrCreateContainer env_created_gone provider0 [] 3 ''task'' spec_plain =
     ((None, Some (ContainerNotFoundError ''h7'')),
      [EvFindContainerOnWorker 3 (Inr (None, Some created7)),
       EvLookup ''h7'' (None, Some (ContainerNotFoundError ''h7''))])"
  by (simp add: run_defs env_created_gone_def env_ok_def created7_def)

lemma run_created_live:
  "FindOrCreateContainer env_created_live provider0 [] 3 ''task'' spec_plain =
     ((Some \<lparr>wc_gardenContainer = Some \<lparr>gc_Handle = ''h7''\<rparr>, wc_dbContainer = created7,
              wc_dbVolumes = [], wc_workerName = ''w1''\<rparr>, None),
      [EvFindContainerOnWorker 3 (Inr (None, Some created7)),
       EvLookup ''h7'' (Some \<lparr>gc_Handle = ''h7''\<rparr>, None),
       EvFindVolumesForContainer created7 (Inr []),
       EvNewGardenWorkerContainer (Some \<lparr>gc_Handle = ''h7''\<rparr>) created7 [] ''w1''
         (Some \<lparr>wc_gardenContainer = Some \<lparr>gc_Handle = ''h7''\<rparr>, wc_dbContainer = created7,
              wc_dbVolumes = [], wc_workerName = ''w1''\<rparr>, None)])"
  by (simp add: run_defs env_created_live_def env_ok_def created7_def provider0_def worker_gpu_def)

theorem C5_deferred_retry_witness:
  "snd (FindOrCreateContainer env_busy provider0 [] 3 ''task'' spec_plain) =
     [] @ [EvFindContainerOnWorker 3 (Inr (None, None)),
       EvCreateContainer 3 ''task'' (Inr creating7),
       EvLookup ''h7'' (None, Some (ContainerNotFoundError ''h7'')),
       EvAcquire (ContainerCreatingLockID 7) (Inr False),
       EvSleep 1000000000]
   \<and> EvAcquire (ContainerCreatingLockID 7) (Inr False) \<in> set
      [EvFindContainerOnWorker 3 (Inr (None, None)),
       EvCreateContainer 3 ''task'' (Inr creating7),
       EvLookup ''h7'' (None, Some (ContainerNotFoundError ''h7'')),
       EvAcquire (ContainerCreatingLockID 7) (Inr False),
       EvSleep 1000000000]
   \<and> fst (FindOrCreateContainer env_busy provider0 [] 3 ''task'' spec_plain) = (None, None)"
proof -
  let ?evs = "[EvFindContainerOnWorker 3 (Inr (None, None)),
       EvCreateContainer 3 ''task'' (Inr creating7),
       EvLookup ''h7'' (None, Some (ContainerNotFoundError ''h7'')),
       EvAcquire (ContainerCreatingLockID 7) (Inr False),
       EvSleep 1000000000]"
  have h1: "snd (FindOrCreateContainer env_busy provider0 [] 3 ''task'' spec_plain) = [] @ ?evs"
    by (simp add: run_busy)
  have h2: "EvAcquire (ContainerCreatingLockID 7) (Inr False) \<in> set ?evs" by simp
  from C5_deferred_retry[OF h1 h2] h1 h2 show ?thesis by blast
qed

theorem C7_commit_failure_cleanup_witness:
  "snd (FindOrCreateContainer env_commit_fails provider0 [] 3 ''task'' spec_plain) =
     [] @ [EvFindContainerOnWorker 3 (Inr (None, None)),
       EvCreateContainer 3 ''task'' (Inr creating7),
       EvLookup ''h7'' (Some \<lparr>gc_Handle = ''h7''\<rparr>, None),
       EvCreated creating7 (Inl (OtherError ''db'')),
       EvDestroy ''h7'' (Some (OtherError ''garden''))]
   \<and> EvCreated creating7 (Inl (OtherError ''db'')) \<in> set
      [EvFindContainerOnWorker 3 (Inr (None, None)),
       EvCreateContainer 3 ''task'' (Inr creating7),
       EvLookup ''h7'' (Some \<lparr>gc_Handle = ''h7''\<rparr>, None),
       EvCreated creating7 (Inl (OtherError ''db'')),
       EvDestroy ''h7'' (Some (OtherError ''garden''))]
   \<and> fst (FindOrCreateContainer env_commit_fails provider0 [] 3 ''task'' spec_plain) =
       (None, Some (OtherError ''db''))"
proof -
  let ?evs = "[EvFindContainerOnWorker 3 (Inr (None, None)),
       EvCreateContainer 3 ''task'' (Inr creating7),
       EvLookup ''h7'' (Some \<lparr>gc_Handle = ''h7''\<rparr>, None),
       EvCreated creating7 (Inl (OtherError ''db'')),
       EvDestroy ''h7'' (Some (OtherError ''garden''))]"
  have h1: "snd (FindOrCreateContainer env_commit_fails provider0 [] 3 ''task'' spec_plain) = [] @ ?evs"
    by (simp add: run_commit_fails)
  have h2: "EvCreated creating7 (Inl (OtherError ''db'')) \<in> set ?evs" by simp
  from C7_commit_failure_cleanup[OF h1 h2] h1 h2 show ?thesis by blast
qed

lemma construct_no_lock:
  "\<exists>evs. snd (constructGardenWorkerContainer env p h c g) = h @ evs
     \<and> (\<forall>l r. EvAcquire l r \<notin> set evs) \<and> (\<forall>l. EvRelease l \<notin> set evs)"
  by (auto simp: constructGardenWorkerContainer_def Let_def split: sum.splits)

text \<open>
  Claim C4: when the record store has a created container for the owner, the run looks its
  handle up in the runtime. Any error of the lookup, \<open>ContainerNotFoundError\<close> included, is
  returned to the caller with no container; without an error the run is the wrapping of the
  record and the runtime container, that is the result of \<open>newGardenWorkerContainer\<close> once
  the volumes of the container were found. No lock is acquired or released on this path.
\<close>

theorem C4_created_fast_path:
  assumes "FindContainerOnWorker env h owner = Inr (creating, Some created)"
    and "h2 = h @ [EvFindContainerOnWorker owner (Inr (creating, Some created)),
                   EvLookup (cdc_Handle created) (gc, lerr)]"
    and "Lookup env (h @ [EvFindContainerOnWorker owner (Inr (creating, Some created))])
           (cdc_Handle created) = (gc, lerr)"
  shows "(\<forall>err. lerr = Some err \<longrightarrow>
            FindOrCreateContainer env p h owner metadata containerSpec = ((None, Some err), h2))
       \<and> (lerr = None \<longrightarrow>
            FindOrCreateContainer env p h owner metadata containerSpec =
              constructGardenWorkerContainer env p h2 created gc)
       \<and> (\<forall>vols. lerr = None \<and> FindVolumesForContainer env h2 created = Inr vols \<longrightarrow>
            fst (FindOrCreateContainer env p h owner metadata containerSpec) =
              newGardenWorkerContainer env (h2 @ [EvFindVolumesForContainer created (Inr vols)])
                gc created vols (w_Name (p_worker p)))
       \<and> (\<exists>evs. snd (FindOrCreateContainer env p h owner metadata containerSpec) = h2 @ evs
             \<and> (\<forall>l r. EvAcquire l r \<notin> set evs) \<and> (\<forall>l. EvRelease l \<notin> set evs))"
proof -
  have run: "FindOrCreateContainer env p h owner metadata containerSpec =
       (case lerr of Some err \<Rightarrow> ((None, Some err), h2)
        | None \<Rightarrow> constructGardenWorkerContainer env p h2 created gc)"
    using assms(2,3)
    by (simp add: FindOrCreateContainer_created[OF assms(1)] Let_def split: option.splits)
  show ?thesis
  proof (cases lerr)
    case None
    then show ?thesis using run construct_no_lock[of env p h2 created gc]
      by (auto simp: constructGardenWorkerContainer_def Let_def)
  next
    case (Some err)
    then show ?thesis using run by simp
  qed
qed

theorem C4_created_fast_path_witness:
  "FindContainerOnWorker env_created_gone [] 3 = Inr (None, Some created7)
   \<and> Lookup env_created_gone [EvFindContainerOnWorker 3 (Inr (None, Some created7))] (cdc_Handle created7)
       = (None, Some (ContainerNotFoundError ''h7''))
   \<and> FindOrCreateContainer env_created_gone provider0 [] 3 ''task'' spec_plain =
       ((None, Some (ContainerNotFoundError ''h7'')),
        [EvFindContainerOnWorker 3 (Inr (None, Some created7)),
         EvLookup ''h7'' (None, Some (ContainerNotFoundError ''h7''))])"
proof -
  have a: "FindContainerOnWorker env_created_gone [] 3 = Inr (None, Some created7)"
    by (simp add: env_created_gone_def env_ok_def)
  have b: "Lookup env_created_gone ([] @ [EvFindContainerOnWorker 3 (Inr (None, Some created7))])
      (cdc_Handle created7) = (None, Some (ContainerNotFoundError ''h7''))"
    by (simp add: env_created_gone_def env_ok_def created7_def)
  from C4_created_fast_path[OF a refl b, of provider0 "''task''" spec_plain] a b
  show ?thesis by (simp add: created7_def)
qed

text \<open>
  Claim C6: on the creation path, with the creating record \<open>cc\<close> found or just created, the
  run looks the handle of \<open>cc\<close> up in the runtime. An error other than
  \<open>ContainerNotFoundError\<close> ends the run there and is returned to the caller. A
  \<open>ContainerNotFoundError\<close>, like no error, is not returned and the run goes on.
  Without a runtime container it asks for the container-creating lock of \<open>cc\<close>: a failure
  to acquire is returned; when the lock is held elsewhere the run sleeps and returns neither a
  container nor an error; with the lock it fetches the image and runs
  \<open>createGardenContainer\<close>, and when both succeed it marks \<open>cc\<close> as created and returns
  the wrapping of the created record and the new runtime container, releasing the lock last;
  a failure of the fetch or of the creation marks \<open>cc\<close> as failed and is returned, and a
  failure to mark \<open>cc\<close> as created destroys the runtime container and is returned. With a
  runtime container the run marks \<open>cc\<close> as created and wraps it, without the lock.
\<close>

theorem C6_creating_lookup:
  assumes "FindContainerOnWorker env h owner = Inr (c0, None)"
    and "(c0 = Some cc \<and> h1 = h @ [EvFindContainerOnWorker owner (Inr (c0, None))])
       \<or> (c0 = None
          \<and> CreateContainer env (h @ [EvFindContainerOnWorker owner (Inr (c0, None))]) owner metadata
               = Inr cc
          \<and> h1 = h @ [EvFindContainerOnWorker owner (Inr (c0, None)),
                       EvCreateContainer owner metadata (Inr cc)])"
    and "Lookup env h1 (cc_Handle cc) = (gc, lerr)"
    and "h2 = h1 @ [EvLookup (cc_Handle cc) (gc, lerr)]"
    and "lockID = NewContainerCreatingLockID (cc_ID cc)"
  shows "(\<forall>e. lerr = Some e \<and> \<not> isContainerNotFoundError e \<longrightarrow>
            FindOrCreateContainer env p h owner metadata containerSpec = ((None, Some e), h2))
       \<and> ((lerr = None \<or> (\<exists>x. lerr = Some (ContainerNotFoundError x))) \<and> gc = None \<longrightarrow>
            (\<forall>aerr. Acquire env h2 lockID = Inl aerr \<longrightarrow>
               FindOrCreateContainer env p h owner metadata containerSpec =
                 ((None, Some aerr), h2 @ [EvAcquire lockID (Inl aerr)]))
          \<and> (Acquire env h2 lockID = Inr False \<longrightarrow>
               FindOrCreateContainer env p h owner metadata containerSpec =
                 ((None, None),
                  h2 @ [EvAcquire lockID (Inr False), EvSleep creatingContainerRetryDelay]))
          \<and> (\<forall>h3. Acquire env h2 lockID = Inr True \<and> h3 = h2 @ [EvAcquire lockID (Inr True)] \<longrightarrow>
               (\<forall>ferr. FetchForContainer env h3 cc = Inl ferr \<longrightarrow>
                  FindOrCreateContainer env p h owner metadata containerSpec =
                    ((None, Some ferr),
                     h3 @ [EvFetchForContainer cc (Inl ferr),
                           EvFailed cc (Failed env (h3 @ [EvFetchForContainer cc (Inl ferr)]) cc),
                           EvRelease lockID]))
             \<and> (\<forall>fetchedImage g cerr h5.
                  FetchForContainer env h3 cc = Inr fetchedImage
                  \<and> createGardenContainer env p (h3 @ [EvFetchForContainer cc (Inr fetchedImage)])
                      cc containerSpec fetchedImage = ((g, cerr), h5) \<longrightarrow>
                  (\<forall>e. cerr = Some e \<longrightarrow>
                     FindOrCreateContainer env p h owner metadata containerSpec =
                       ((None, Some e),
                        h5 @ [EvFailed cc (Failed env h5 cc), EvFailedContainersInc,
                              EvRelease lockID]))
                \<and> (cerr = None \<longrightarrow>
                     (\<forall>derr. Created env (h5 @ [EvContainersCreatedInc]) cc = Inl derr \<longrightarrow>
                        FindOrCreateContainer env p h owner metadata containerSpec =
                          ((None, Some derr),
                           h5 @ [EvContainersCreatedInc, EvCreated cc (Inl derr),
                                 EvDestroy (cc_Handle cc)
                                   (Destroy env (h5 @ [EvContainersCreatedInc,
                                      EvCreated cc (Inl derr)]) (cc_Handle cc)),
                                 EvRelease lockID]))
                   \<and> (\<forall>created res h7.
                        Created env (h5 @ [EvContainersCreatedInc]) cc = Inr created
                        \<and> constructGardenWorkerContainer env p
                            (h5 @ [EvContainersCreatedInc, EvCreated cc (Inr created)]) created g
                            = (res, h7) \<longrightarrow>
                        FindOrCreateContainer env p h owner metadata containerSpec =
                          (res, h7 @ [EvRelease lockID]))))))
       \<and> ((lerr = None \<or> (\<exists>x. lerr = Some (ContainerNotFoundError x))) \<and> gc \<noteq> None \<longrightarrow>
            (\<forall>derr. Created env h2 cc = Inl derr \<longrightarrow>
               FindOrCreateContainer env p h owner metadata containerSpec =
                 ((None, Some derr),
                  h2 @ [EvCreated cc (Inl derr),
                        EvDestroy (cc_Handle cc)
                          (Destroy env (h2 @ [EvCreated cc (Inl derr)]) (cc_Handle cc))]))
          \<and> (\<forall>created. Created env h2 cc = Inr created \<longrightarrow>
               FindOrCreateContainer env p h owner metadata containerSpec =
                 constructGardenWorkerContainer env p (h2 @ [EvCreated cc (Inr created)])
                   created gc))"
proof -
  have run: "FindOrCreateContainer env p h owner metadata containerSpec =
      provisionCreating env p h1 cc containerSpec"
    using assms(1,2)
    by (auto simp: FindOrCreateContainer_creating FindOrCreateContainer_fresh Let_def)
  have fatal: "\<forall>e. lerr = Some e \<and> \<not> isContainerNotFoundError e \<longrightarrow>
      provisionCreating env p h1 cc containerSpec = ((None, Some e), h2)"
    using assms(3,4) by (auto simp: provisionCreating_def Let_def)
  have nonfatal: "lerr = None \<or> (\<exists>x. lerr = Some (ContainerNotFoundError x)) \<Longrightarrow>
      \<not> (case lerr of None \<Rightarrow> False | Some e \<Rightarrow> \<not> isContainerNotFoundError e)"
    by auto
  have create: "(lerr = None \<or> (\<exists>x. lerr = Some (ContainerNotFoundError x))) \<and> gc = None \<longrightarrow>
      provisionCreating env p h1 cc containerSpec =
        (case Acquire env h2 lockID of
           Inl aerr \<Rightarrow> ((None, Some aerr), h2 @ [EvAcquire lockID (Inl aerr)])
         | Inr acquired \<Rightarrow>
             if \<not> acquired
             then ((None, None),
                   h2 @ [EvAcquire lockID (Inr False), EvSleep creatingContainerRetryDelay])
             else (fst (createLocked env p (h2 @ [EvAcquire lockID (Inr True)]) cc containerSpec),
                   snd (createLocked env p (h2 @ [EvAcquire lockID (Inr True)]) cc containerSpec)
                     @ [EvRelease lockID]))"
    using assms(3,4,5) nonfatal
    by (auto simp: provisionCreating_def Let_def split: sum.splits prod.splits)
  have recover: "(lerr = None \<or> (\<exists>x. lerr = Some (ContainerNotFoundError x))) \<and> gc \<noteq> None \<longrightarrow>
      provisionCreating env p h1 cc containerSpec = markCreated env p h2 cc gc"
    using assms(3,4) nonfatal by (auto simp: provisionCreating_def Let_def)
  have locked_fetch: "FetchForContainer env h3 cc = Inl ferr \<Longrightarrow>
      createLocked env p h3 cc containerSpec =
        ((None, Some ferr),
         h3 @ [EvFetchForContainer cc (Inl ferr),
               EvFailed cc (Failed env (h3 @ [EvFetchForContainer cc (Inl ferr)]) cc)])"
    for h3 ferr
    by (simp add: createLocked_def Let_def)
  have locked_create: "FetchForContainer env h3 cc = Inr fetchedImage \<Longrightarrow>
      createGardenContainer env p (h3 @ [EvFetchForContainer cc (Inr fetchedImage)])
        cc containerSpec fetchedImage = ((g, cerr), h5) \<Longrightarrow>
      createLocked env p h3 cc containerSpec =
        (case cerr of
           Some e \<Rightarrow> ((None, Some e), h5 @ [EvFailed cc (Failed env h5 cc), EvFailedContainersInc])
         | None \<Rightarrow> markCreated env p (h5 @ [EvContainersCreatedInc]) cc g)"
    for h3 fetchedImage g cerr h5
    by (simp add: createLocked_def Let_def split: option.splits)
  have mark_fail: "Created env h6 cc = Inl derr \<Longrightarrow>
      markCreated env p h6 cc g =
        ((None, Some derr),
         h6 @ [EvCreated cc (Inl derr),
               EvDestroy (cc_Handle cc) (Destroy env (h6 @ [EvCreated cc (Inl derr)]) (cc_Handle cc))])"
    for h6 derr g
    by (simp add: markCreated_def Let_def)
  have mark_ok: "Created env h6 cc = Inr created \<Longrightarrow>
      markCreated env p h6 cc g =
        constructGardenWorkerContainer env p (h6 @ [EvCreated cc (Inr created)]) created g"
    for h6 created g
    by (simp add: markCreated_def Let_def)
  show ?thesis
    unfolding run
    apply (rule conjI, rule fatal)
    apply (rule conjI)
    subgoal
      using create
      by (auto simp: locked_fetch locked_create mark_fail mark_ok)
    subgoal
      using recover by (auto simp: mark_fail mark_ok)
    done
qed

lemma run_garden_down:
  "FindOrCreateContainer env_garden_down provider0 [] 3 ''task'' spec_plain =
     ((None, Some (OtherError ''garden'')),
      [EvFindContainerOnWorker 3 (Inr (None, None)),
       EvCreateContainer 3 ''task'' (Inr creating7),
       EvLookup ''h7'' (None, Some (OtherError ''garden''))])"
  by (simp add: run_defs env_garden_down_def env_ok_def creating7_def)

lemma run_ok:
  "FindOrCreateContainer env_ok provider0 [] 3 ''task'' spec_plain =
     ((Some container7, None), events_ok)"
  by (simp add: run_defs plan_defs events_ok_def events_lookup_def container7_def created7_def
      worker_gpu_def eval_nat_numeral)

theorem C6_creating_lookup_witness:
  "FindContainerOnWorker env_ok [] 3 = Inr (None, None)
   \<and> CreateContainer env_ok [EvFindContainerOnWorker 3 (Inr (None, None))] 3 ''task'' = Inr creating7
   \<and> Lookup env_ok events_lookup (cc_Handle creating7)
       = (None, Some (ContainerNotFoundError ''h7''))
   \<and> Acquire env_ok (events_lookup @ [EvLookup ''h7'' (None, Some (ContainerNotFoundError ''h7''))])
         (NewContainerCreatingLockID (cc_ID creating7)) = Inr True
   \<and> FindOrCreateContainer env_ok provider0 [] 3 ''task'' spec_plain =
       ((Some container7, None), events_ok)
   \<and> created7_event [rwMount 5 ''/scratch''] \<in> set events_ok
   \<and> Lookup env_garden_down events_lookup (cc_Handle creating7)
       = (None, Some (OtherError ''garden''))
   \<and> FindOrCreateContainer env_garden_down provider0 [] 3 ''task'' spec_plain =
       ((None, Some (OtherError ''garden'')),
        events_lookup @ [EvLookup ''h7'' (None, Some (OtherError ''garden''))])"
proof -
  let ?h1 = "[] @ [EvFindContainerOnWorker 3 (Inr (None, None)),
                   EvCreateContainer 3 ''task'' (Inr creating7)]"
  let ?lock = "NewContainerCreatingLockID (cc_ID creating7)"
  let ?nf = "Some (ContainerNotFoundError ''h7'')"
  let ?h2 = "?h1 @ [EvLookup (cc_Handle creating7) (None, ?nf)]"
  let ?h3 = "?h2 @ [EvAcquire ?lock (Inr True)]"
  let ?h4 = "?h3 @ [EvFetchForContainer creating7 (Inr image_plain)]"
  let ?h5 = "?h4 @ [emptyAlloc ''/scratch'' 5, created7_event [rwMount 5 ''/scratch'']]"
  let ?h6 = "?h5 @ [EvContainersCreatedInc, EvCreated creating7 (Inr created7)]"
  let ?h7 = "?h6 @ [EvFindVolumesForContainer created7 (Inr []),
      EvNewGardenWorkerContainer (Some \<lparr>gc_Handle = ''h7''\<rparr>) created7 [] ''w1''
        (Some container7, None)]"
  have a: "FindContainerOnWorker env_ok [] 3 = Inr (None, None)"
    by (simp add: env_ok_def)
  have b: "(None = Some creating7 \<and> ?h1 = [] @ [EvFindContainerOnWorker 3 (Inr (None, None))])
       \<or> (None = None
          \<and> CreateContainer env_ok ([] @ [EvFindContainerOnWorker 3 (Inr (None, None))]) 3 ''task''
               = Inr creating7
          \<and> ?h1 = [] @ [EvFindContainerOnWorker 3 (Inr (None, None)),
                       EvCreateContainer 3 ''task'' (Inr creating7)])"
    by (simp add: env_ok_def)
  have c: "Lookup env_ok ?h1 (cc_Handle creating7) = (None, ?nf)"
    by (simp add: env_ok_def creating7_def)
  have acq: "Acquire env_ok ?h2 ?lock = Inr True"
    by (simp add: env_ok_def)
  have fetch: "FetchForContainer env_ok ?h3 creating7 = Inr image_plain"
    by (simp add: env_ok_def)
  have create: "createGardenContainer env_ok provider0 ?h4 creating7 spec_plain image_plain
      = ((Some \<lparr>gc_Handle = ''h7''\<rparr>, None), ?h5)"
    by (simp add: plan_defs eval_nat_numeral)
  have created: "Created env_ok (?h5 @ [EvContainersCreatedInc]) creating7 = Inr created7"
    by (simp add: env_ok_def creating7_def created7_def)
  have construct: "constructGardenWorkerContainer env_ok provider0
      (?h5 @ [EvContainersCreatedInc, EvCreated creating7 (Inr created7)]) created7
      (Some \<lparr>gc_Handle = ''h7''\<rparr>) = ((Some container7, None), ?h7)"
    by (simp add: constructGardenWorkerContainer_def Let_def env_ok_def provider0_def
        worker_gpu_def container7_def)
  have nonfatal: "(?nf = None \<or> (\<exists>x. ?nf = Some (ContainerNotFoundError x)))
      \<and> (None :: gardenContainer option) = None"
    by simp
  have evs: "?h7 @ [EvRelease ?lock] = events_ok"
    by (simp add: events_ok_def events_lookup_def creating7_def NewContainerCreatingLockID_def)
  have made: "created7_event [rwMount 5 ''/scratch''] \<in> set events_ok"
    by (simp add: events_ok_def)
  have a': "FindContainerOnWorker env_garden_down [] 3 = Inr (None, None)"
    by (simp add: env_garden_down_def env_ok_def)
  have b': "(None = Some creating7 \<and> ?h1 = [] @ [EvFindContainerOnWorker 3 (Inr (None, None))])
       \<or> (None = None
          \<and> CreateContainer env_garden_down ([] @ [EvFindContainerOnWorker 3 (Inr (None, None))]) 3 ''task''
               = Inr creating7
          \<and> ?h1 = [] @ [EvFindContainerOnWorker 3 (Inr (None, None)),
                       EvCreateContainer 3 ''task'' (Inr creating7)])"
    by (simp add: env_garden_down_def env_ok_def)
  have c': "Lookup env_garden_down ?h1 (cc_Handle creating7) = (None, Some (OtherError ''garden''))"
    by (simp add: env_garden_down_def env_ok_def creating7_def)
  note ok = C6_creating_lookup[OF a b c refl refl, of provider0 spec_plain]
  note down = C6_creating_lookup[OF a' b' c' refl refl, of provider0 spec_plain]
  note s1 = ok[THEN conjunct2, THEN conjunct1, THEN mp, OF nonfatal]
  note s2 = s1[THEN conjunct2, THEN conjunct2, THEN spec, THEN mp, OF conjI[OF acq refl]]
  note s3 = s2[THEN conjunct2, THEN spec, THEN spec, THEN spec, THEN spec, THEN mp,
      OF conjI[OF fetch create]]
  note s4 = s3[THEN conjunct2, THEN mp, OF refl]
  note s5 = s4[THEN conjunct2, THEN spec, THEN spec, THEN spec, THEN mp,
      OF conjI[OF created construct]]
  from s5 have r1: "FindOrCreateContainer env_ok provider0 [] 3 ''task'' spec_plain =
      ((Some container7, None), ?h7 @ [EvRelease ?lock])" .
  from down have r2: "FindOrCreateContainer env_garden_down provider0 [] 3 ''task'' spec_plain =
      ((None, Some (OtherError ''garden'')),
       ?h1 @ [EvLookup (cc_Handle creating7) (None, Some (OtherError ''garden''))])"
    by simp
  show ?thesis
    using a b c acq r1 r2 c' made unfolding evs
    by (simp add: events_lookup_def creating7_def)
qed
end
